theory Spec2Isabelle
  imports Main "HOL-Library.Word" "HOL-Library.State_Monad"
begin

unbundle bit_operations_syntax

section \<open>Basic types, build configuration and memory\<close>

text \<open>
  The embedding follows \<^verbatim>\<open>xxhash.c\<close> on its scalar code paths (\<^verbatim>\<open>XXH_VECTORIZE\<close> = 0, no
  NEON). Memory is a total map from addresses to bytes; a pointer is an address, and
  address 0 is \<^verbatim>\<open>NULL\<close>. A \<^verbatim>\<open>size_t\<close> length is a natural number, pointer arithmetic is
  done on unbounded numbers (no wrap-around of the address space), and the casts
  \<^verbatim>\<open>(unsigned)len\<close>, \<^verbatim>\<open>(U32)len\<close>, \<^verbatim>\<open>(U64)len\<close> are \<open>of_nat\<close> into the word type, which
  reduces modulo the width. The compile-time switches of the source are the fields of
  \<open>XXH_config\<close>; \<open>XXH_CPU_LITTLE_ENDIAN\<close> is the byte order of the host.
\<close>

type_synonym BYTE = "8 word"
type_synonym U32 = "32 word"
type_synonym U64 = "64 word"
type_synonym memory = "nat \<Rightarrow> BYTE"

datatype XXH_endianess = XXH_bigEndian | XXH_littleEndian
datatype XXH_alignment = XXH_aligned | XXH_unaligned
datatype XXH_errorcode = XXH_OK | XXH_ERROR

record XXH_config =
  XXH_ACCEPT_NULL_INPUT_POINTER :: bool
  XXH_FORCE_NATIVE_FORMAT :: bool
  XXH_FORCE_ALIGN_CHECK :: bool
  XXH_CPU_LITTLE_ENDIAN :: XXH_endianess

text \<open>\<^verbatim>\<open>memcpy(dst + d, src + s, n)\<close>: the bytes \<open>d .. d + n - 1\<close> of \<open>dst\<close> are overwritten.\<close>

definition XXH_memcpy :: "memory \<Rightarrow> nat \<Rightarrow> memory \<Rightarrow> nat \<Rightarrow> nat \<Rightarrow> memory" where
  "XXH_memcpy dst d src s n = (\<lambda>i. if d \<le> i \<and> i < d + n then src (s + (i - d)) else dst i)"

text \<open>A 32-bit object of the host made of four consecutive bytes, lowest address first.\<close>

definition native32 :: "XXH_endianess \<Rightarrow> BYTE \<Rightarrow> BYTE \<Rightarrow> BYTE \<Rightarrow> BYTE \<Rightarrow> U32" where
  "native32 cpu b0 b1 b2 b3 =
     (if cpu = XXH_littleEndian
      then ucast b0 OR push_bit 8 (ucast b1) OR push_bit 16 (ucast b2) OR push_bit 24 (ucast b3)
      else ucast b3 OR push_bit 8 (ucast b2) OR push_bit 16 (ucast b1) OR push_bit 24 (ucast b0))"

text \<open>\<^verbatim>\<open>XXH_read32\<close>: the portable \<^verbatim>\<open>memcpy\<close> load of a host word.\<close>

definition XXH_read32 :: "XXH_config \<Rightarrow> memory \<Rightarrow> nat \<Rightarrow> U32" where
  "XXH_read32 c m memPtr =
     native32 (XXH_CPU_LITTLE_ENDIAN c) (m memPtr) (m (memPtr + 1)) (m (memPtr + 2)) (m (memPtr + 3))"

text \<open>The direct load \<^verbatim>\<open>*(const U32* )ptr\<close> of the aligned paths.\<close>

definition deref_U32 :: "XXH_config \<Rightarrow> memory \<Rightarrow> nat \<Rightarrow> U32" where
  "deref_U32 c m ptr =
     native32 (XXH_CPU_LITTLE_ENDIAN c) (m ptr) (m (ptr + 1)) (m (ptr + 2)) (m (ptr + 3))"

definition XXH_rotl32 :: "U32 \<Rightarrow> nat \<Rightarrow> U32" where
  "XXH_rotl32 x r = push_bit r x OR drop_bit (32 - r) x"

definition XXH_swap32 :: "U32 \<Rightarrow> U32" where
  "XXH_swap32 x =
     (push_bit 24 x AND 0xff000000) OR (push_bit 8 x AND 0x00ff0000) OR
     (drop_bit 8 x AND 0x0000ff00) OR (drop_bit 24 x AND 0x000000ff)"

definition XXH_readLE32_align ::
  "XXH_config \<Rightarrow> memory \<Rightarrow> nat \<Rightarrow> XXH_endianess \<Rightarrow> XXH_alignment \<Rightarrow> U32" where
  "XXH_readLE32_align c m ptr endian align =
     (if align = XXH_unaligned
      then (if endian = XXH_littleEndian then XXH_read32 c m ptr else XXH_swap32 (XXH_read32 c m ptr))
      else (if endian = XXH_littleEndian then deref_U32 c m ptr else XXH_swap32 (deref_U32 c m ptr)))"

definition XXH_readLE32 :: "XXH_config \<Rightarrow> memory \<Rightarrow> nat \<Rightarrow> XXH_endianess \<Rightarrow> U32" where
  "XXH_readLE32 c m ptr endian = XXH_readLE32_align c m ptr endian XXH_unaligned"

definition XXH_readBE32 :: "XXH_config \<Rightarrow> memory \<Rightarrow> nat \<Rightarrow> U32" where
  "XXH_readBE32 c m ptr =
     (if XXH_CPU_LITTLE_ENDIAN c = XXH_littleEndian then XXH_swap32 (XXH_read32 c m ptr)
      else XXH_read32 c m ptr)"

text \<open>
  The byte order every public entry point selects:
  \<^verbatim>\<open>(endian_detected==XXH_littleEndian) || XXH_FORCE_NATIVE_FORMAT\<close>.
\<close>

definition XXH_endian_select :: "XXH_config \<Rightarrow> XXH_endianess" where
  "XXH_endian_select c =
     (if XXH_CPU_LITTLE_ENDIAN c = XXH_littleEndian \<or> XXH_FORCE_NATIVE_FORMAT c
      then XXH_littleEndian else XXH_bigEndian)"

section \<open>32-bit hash functions\<close>

definition PRIME32_1 :: U32 where "PRIME32_1 = 2654435761"
definition PRIME32_2 :: U32 where "PRIME32_2 = 2246822519"
definition PRIME32_3 :: U32 where "PRIME32_3 = 3266489917"
definition PRIME32_4 :: U32 where "PRIME32_4 = 668265263"
definition PRIME32_5 :: U32 where "PRIME32_5 = 374761393"

definition XXH32_round :: "U32 \<Rightarrow> U32 \<Rightarrow> U32" where
  "XXH32_round seed input = XXH_rotl32 (seed + input * PRIME32_2) 13 * PRIME32_1"

definition XXH32_avalanche :: "U32 \<Rightarrow> U32" where
  "XXH32_avalanche h32 =
     (let h32 = h32 XOR drop_bit 15 h32;
          h32 = h32 * PRIME32_2;
          h32 = h32 XOR drop_bit 13 h32;
          h32 = h32 * PRIME32_3;
          h32 = h32 XOR drop_bit 16 h32
      in h32)"

text \<open>The macros \<^verbatim>\<open>PROCESS1\<close> and \<^verbatim>\<open>PROCESS4\<close> of \<^verbatim>\<open>XXH32_finalize\<close>, at pointer \<open>p\<close>.\<close>

definition PROCESS1 :: "memory \<Rightarrow> nat \<Rightarrow> U32 \<Rightarrow> U32" where
  "PROCESS1 m p h32 = XXH_rotl32 (h32 + ucast (m p) * PRIME32_5) 11 * PRIME32_1"

definition PROCESS4 ::
  "XXH_config \<Rightarrow> memory \<Rightarrow> XXH_endianess \<Rightarrow> XXH_alignment \<Rightarrow> nat \<Rightarrow> U32 \<Rightarrow> U32" where
  "PROCESS4 c m endian align p h32 =
     XXH_rotl32 (h32 + XXH_readLE32_align c m p endian align * PRIME32_3) 17 * PRIME32_4"

text \<open>
  The \<^verbatim>\<open>switch(len&31)\<close> of \<^verbatim>\<open>XXH32_finalize\<close>, entered at case label \<open>n\<close>. A label
  \<open>n \<ge> 4\<close> runs \<^verbatim>\<open>PROCESS4\<close> and falls through to label \<open>n - 4\<close> (the chains 28..4,
  29..5, 30..6 end with the \<^verbatim>\<open>PROCESS1\<close>s and the return that labels 0, 1 and 2 have;
  31..7 falls into label 3); a label \<open>1 \<le> n < 4\<close> runs \<^verbatim>\<open>PROCESS1\<close> and falls through
  to \<open>n - 1\<close>; label 0 returns the avalanche.
\<close>

fun XXH32_finalize_switch ::
  "XXH_config \<Rightarrow> memory \<Rightarrow> XXH_endianess \<Rightarrow> XXH_alignment \<Rightarrow> nat \<Rightarrow> nat \<Rightarrow> U32 \<Rightarrow> U32" where
  "XXH32_finalize_switch c m endian align n p h32 =
     (if 4 \<le> n
      then XXH32_finalize_switch c m endian align (n - 4) (p + 4) (PROCESS4 c m endian align p h32)
      else if 1 \<le> n
      then XXH32_finalize_switch c m endian align (n - 1) (p + 1) (PROCESS1 m p h32)
      else XXH32_avalanche h32)"

declare XXH32_finalize_switch.simps [simp del]

definition XXH32_finalize ::
  "XXH_config \<Rightarrow> memory \<Rightarrow> U32 \<Rightarrow> nat \<Rightarrow> nat \<Rightarrow> XXH_endianess \<Rightarrow> XXH_alignment \<Rightarrow> U32" where
  "XXH32_finalize c m h32 ptr len endian align =
     XXH32_finalize_switch c m endian align (len mod 32) ptr h32"

type_synonym lanes32 = "U32 \<times> U32 \<times> U32 \<times> U32"

text \<open>One stripe of 16 bytes: the four \<^verbatim>\<open>XXH32_round\<close> calls of a loop body, reading with \<open>rd\<close>.\<close>

definition XXH32_stripe :: "(nat \<Rightarrow> U32) \<Rightarrow> nat \<Rightarrow> lanes32 \<Rightarrow> lanes32" where
  "XXH32_stripe rd p v =
     (case v of (v1, v2, v3, v4) \<Rightarrow>
        (XXH32_round v1 (rd p), XXH32_round v2 (rd (p + 4)),
         XXH32_round v3 (rd (p + 8)), XXH32_round v4 (rd (p + 12))))"

text \<open>The loops \<^verbatim>\<open>do { ... } while (p < limit)\<close> of \<^verbatim>\<open>XXH32_endian_align\<close>.\<close>

function XXH32_loop :: "(nat \<Rightarrow> U32) \<Rightarrow> nat \<Rightarrow> nat \<Rightarrow> lanes32 \<Rightarrow> nat \<times> lanes32" where
  "XXH32_loop rd p limit v =
     (if p + 16 < limit then XXH32_loop rd (p + 16) limit (XXH32_stripe rd p v)
      else (p + 16, XXH32_stripe rd p v))"
  by pat_completeness auto
termination
  by (relation "measure (\<lambda>(rd, p, limit, v). limit - p)") auto

declare XXH32_loop.simps [simp del]

definition XXH32_merge :: "lanes32 \<Rightarrow> U32" where
  "XXH32_merge v =
     (case v of (v1, v2, v3, v4) \<Rightarrow>
        XXH_rotl32 v1 1 + XXH_rotl32 v2 7 + XXH_rotl32 v3 12 + XXH_rotl32 v4 18)"

definition XXH32_init :: "U32 \<Rightarrow> lanes32" where
  "XXH32_init seed = (seed + PRIME32_1 + PRIME32_2, seed + PRIME32_2, seed + 0, seed - PRIME32_1)"

text \<open>
  \<^verbatim>\<open>XXH32_endian_align\<close> in two parts: the \<^verbatim>\<open>if (len>=16) { ... } else { ... }\<close> that
  yields the advanced pointer and \<^verbatim>\<open>h32\<close>, then the addition of the length and the
  finalization. \<^verbatim>\<open>len&15\<close> is \<open>len mod 16\<close>.
\<close>

definition XXH32_accumulate ::
  "XXH_config \<Rightarrow> memory \<Rightarrow> nat \<Rightarrow> nat \<Rightarrow> U32 \<Rightarrow> XXH_endianess \<Rightarrow> XXH_alignment \<Rightarrow> nat \<times> U32" where
  "XXH32_accumulate c m p len seed endian align =
     (let bEnd = p + len
      in if 16 \<le> len then
           (let limit = bEnd - 15;
                (p, v) = (if XXH_FORCE_ALIGN_CHECK c \<and> align = XXH_aligned \<and> endian = XXH_littleEndian
                          then XXH32_loop (deref_U32 c m) p limit (XXH32_init seed)
                          else XXH32_loop (\<lambda>q. XXH_readLE32_align c m q endian align) p limit
                                 (XXH32_init seed))
            in (p, XXH32_merge v))
         else (p, seed + PRIME32_5))"

definition XXH32_endian_align ::
  "XXH_config \<Rightarrow> memory \<Rightarrow> nat \<Rightarrow> nat \<Rightarrow> U32 \<Rightarrow> XXH_endianess \<Rightarrow> XXH_alignment \<Rightarrow> U32" where
  "XXH32_endian_align c m input len0 seed endian align =
     (let (p, len) = (if XXH_ACCEPT_NULL_INPUT_POINTER c \<and> input = 0 then (16, 0) else (input, len0));
          (p, h32) = XXH32_accumulate c m p len seed endian align;
          h32 = h32 + of_nat len
      in XXH32_finalize c m h32 p (len mod 16) endian align)"

definition XXH32 :: "XXH_config \<Rightarrow> memory \<Rightarrow> nat \<Rightarrow> nat \<Rightarrow> U32 \<Rightarrow> U32" where
  "XXH32 c m input len seed =
     (if XXH_FORCE_ALIGN_CHECK c \<and> input mod 4 = 0
      then XXH32_endian_align c m input len seed (XXH_endian_select c) XXH_aligned
      else XXH32_endian_align c m input len seed (XXH_endian_select c) XXH_unaligned)"

subsection \<open>Hash streaming (32 bits)\<close>

text \<open>
  \<^verbatim>\<open>XXH32_state_t\<close> is declared in \<^verbatim>\<open>xxhash.h\<close>; its fields are the ones \<^verbatim>\<open>xxhash.c\<close>
  uses. \<^verbatim>\<open>mem32\<close> is the 16-byte buffer, addressed here by byte offset. The field
  \<^verbatim>\<open>reserved\<close> is never read or written and is left out.
\<close>

record XXH32_state_t =
  s32_total_len_32 :: U32
  s32_large_len :: U32
  s32_v1 :: U32
  s32_v2 :: U32
  s32_v3 :: U32
  s32_v4 :: U32
  s32_mem32 :: memory
  s32_memsize :: U32

definition XXH32_copyState :: "XXH32_state_t \<Rightarrow> XXH32_state_t \<Rightarrow> XXH32_state_t" where
  "XXH32_copyState dstState srcState = srcState"

definition XXH32_reset :: "U32 \<Rightarrow> XXH_errorcode \<times> XXH32_state_t" where
  "XXH32_reset seed =
     (XXH_OK,
      \<lparr>s32_total_len_32 = 0, s32_large_len = 0,
       s32_v1 = seed + PRIME32_1 + PRIME32_2, s32_v2 = seed + PRIME32_2,
       s32_v3 = seed + 0, s32_v4 = seed - PRIME32_1,
       s32_mem32 = (\<lambda>_. 0), s32_memsize = 0\<rparr>)"

definition s32_lanes :: "XXH32_state_t \<Rightarrow> lanes32" where
  "s32_lanes state = (s32_v1 state, s32_v2 state, s32_v3 state, s32_v4 state)"

definition s32_set_lanes :: "lanes32 \<Rightarrow> XXH32_state_t \<Rightarrow> XXH32_state_t" where
  "s32_set_lanes v state =
     (case v of (v1, v2, v3, v4) \<Rightarrow> state\<lparr>s32_v1 := v1, s32_v2 := v2, s32_v3 := v3, s32_v4 := v4\<rparr>)"

text \<open>The loops \<^verbatim>\<open>do { ... } while (p <= limit)\<close> of \<^verbatim>\<open>XXH32_update_endian\<close>.\<close>

function XXH32_update_loop :: "(nat \<Rightarrow> U32) \<Rightarrow> nat \<Rightarrow> nat \<Rightarrow> lanes32 \<Rightarrow> nat \<times> lanes32" where
  "XXH32_update_loop rd p limit v =
     (if p + 16 \<le> limit then XXH32_update_loop rd (p + 16) limit (XXH32_stripe rd p v)
      else (p + 16, XXH32_stripe rd p v))"
  by pat_completeness auto
termination
  by (relation "measure (\<lambda>(rd, p, limit, v). Suc limit - p)") auto

declare XXH32_update_loop.simps [simp del]

text \<open>\<^verbatim>\<open>if (state->memsize) { ... }\<close>: complete the buffered stripe and consume it.\<close>

definition XXH32_update_fill ::
  "XXH_config \<Rightarrow> XXH32_state_t \<Rightarrow> memory \<Rightarrow> nat \<Rightarrow> XXH_endianess \<Rightarrow> XXH32_state_t \<times> nat" where
  "XXH32_update_fill c state m p endian =
     (if s32_memsize state \<noteq> 0 then
        (let state = state\<lparr>s32_mem32 :=
                       XXH_memcpy (s32_mem32 state) (unat (s32_memsize state)) m p
                         (unat (16 - s32_memsize state))\<rparr>;
             state = s32_set_lanes
                       (XXH32_stripe (\<lambda>q. XXH_readLE32 c (s32_mem32 state) q endian) 0 (s32_lanes state))
                       state
         in (state, p + unat (16 - s32_memsize state)))
      else (state, p))"

text \<open>\<^verbatim>\<open>if (p <= bEnd-16) { ... }\<close>: consume whole stripes straight from the input.\<close>

definition XXH32_update_stripes ::
  "XXH_config \<Rightarrow> XXH32_state_t \<Rightarrow> memory \<Rightarrow> nat \<Rightarrow> nat \<Rightarrow> XXH_endianess \<Rightarrow> XXH32_state_t \<times> nat" where
  "XXH32_update_stripes c state m p bEnd endian =
     (if int p \<le> int bEnd - 16 then
        (let limit = bEnd - 16;
             (p, v) = (if XXH_FORCE_ALIGN_CHECK c \<and> p mod 4 = 0 \<and> endian = XXH_littleEndian
                       then XXH32_update_loop (deref_U32 c m) p limit (s32_lanes state)
                       else XXH32_update_loop (\<lambda>q. XXH_readLE32 c m q endian) p limit (s32_lanes state))
         in (s32_set_lanes v state, p))
      else (state, p))"

definition XXH32_update_endian ::
  "XXH_config \<Rightarrow> XXH32_state_t \<Rightarrow> memory \<Rightarrow> nat \<Rightarrow> nat \<Rightarrow> XXH_endianess
     \<Rightarrow> XXH_errorcode \<times> XXH32_state_t" where
  "XXH32_update_endian c state0 m input len endian =
     (if input = 0 then
        (if XXH_ACCEPT_NULL_INPUT_POINTER c then (XXH_OK, state0) else (XXH_ERROR, state0))
      else
        (let p = input;
             bEnd = p + len;
             state = state0\<lparr>s32_total_len_32 := s32_total_len_32 state0 + of_nat len\<rparr>;
             state = state\<lparr>s32_large_len :=
                       s32_large_len state OR
                         (of_bool (16 \<le> len) OR of_bool (16 \<le> s32_total_len_32 state))\<rparr>
         in if unat (s32_memsize state) + len < 16 then
              (XXH_OK,
               state\<lparr>s32_mem32 := XXH_memcpy (s32_mem32 state) (unat (s32_memsize state)) m input len,
                     s32_memsize := s32_memsize state + of_nat len\<rparr>)
            else
              (let (state, p) = XXH32_update_fill c state m p endian;
                   state = state\<lparr>s32_memsize := 0\<rparr>;
                   (state, p) = XXH32_update_stripes c state m p bEnd endian
               in if p < bEnd
                  then (XXH_OK,
                        state\<lparr>s32_mem32 := XXH_memcpy (s32_mem32 state) 0 m p (bEnd - p),
                              s32_memsize := of_nat (bEnd - p)\<rparr>)
                  else (XXH_OK, state))))"

definition XXH32_update ::
  "XXH_config \<Rightarrow> XXH32_state_t \<Rightarrow> memory \<Rightarrow> nat \<Rightarrow> nat \<Rightarrow> XXH_errorcode \<times> XXH32_state_t" where
  "XXH32_update c state_in m input len =
     XXH32_update_endian c state_in m input len (XXH_endian_select c)"

definition XXH32_digest_endian :: "XXH_config \<Rightarrow> XXH32_state_t \<Rightarrow> XXH_endianess \<Rightarrow> U32" where
  "XXH32_digest_endian c state endian =
     (let h32 = (if s32_large_len state \<noteq> 0 then XXH32_merge (s32_lanes state)
                 else s32_v3 state + PRIME32_5);
          h32 = h32 + s32_total_len_32 state
      in XXH32_finalize c (s32_mem32 state) h32 0 (unat (s32_memsize state AND 15)) endian XXH_aligned)"

definition XXH32_digest :: "XXH_config \<Rightarrow> XXH32_state_t \<Rightarrow> U32" where
  "XXH32_digest c state_in = XXH32_digest_endian c state_in (XXH_endian_select c)"

subsection \<open>Canonical representation (32 bits)\<close>

text \<open>
  \<^verbatim>\<open>memcpy(dst, &hash, 4)\<close> writes the four bytes of the host's object \<open>hash\<close> at \<open>dst\<close>,
  lowest address first.
\<close>

definition store32 :: "XXH_config \<Rightarrow> memory \<Rightarrow> nat \<Rightarrow> U32 \<Rightarrow> memory" where
  "store32 c m dst w =
     (\<lambda>i. if dst \<le> i \<and> i < dst + 4
          then (if XXH_CPU_LITTLE_ENDIAN c = XXH_littleEndian
                then ucast (drop_bit (8 * (i - dst)) w)
                else ucast (drop_bit (8 * (3 - (i - dst))) w))
          else m i)"

definition XXH32_canonicalFromHash :: "XXH_config \<Rightarrow> memory \<Rightarrow> nat \<Rightarrow> U32 \<Rightarrow> memory" where
  "XXH32_canonicalFromHash c m dst hash =
     (let hash = (if XXH_CPU_LITTLE_ENDIAN c = XXH_littleEndian then XXH_swap32 hash else hash)
      in store32 c m dst hash)"

definition XXH32_hashFromCanonical :: "XXH_config \<Rightarrow> memory \<Rightarrow> nat \<Rightarrow> U32" where
  "XXH32_hashFromCanonical c m src = XXH_readBE32 c m src"

section \<open>64-bit hash functions\<close>

text \<open>A 64-bit object of the host made of eight consecutive bytes of \<open>m\<close> from address \<open>p\<close>.\<close>

definition native64 :: "XXH_endianess \<Rightarrow> memory \<Rightarrow> nat \<Rightarrow> U64" where
  "native64 cpu m p =
     (if cpu = XXH_littleEndian
      then ucast (m p) OR push_bit 8 (ucast (m (p + 1))) OR push_bit 16 (ucast (m (p + 2))) OR
           push_bit 24 (ucast (m (p + 3))) OR push_bit 32 (ucast (m (p + 4))) OR
           push_bit 40 (ucast (m (p + 5))) OR push_bit 48 (ucast (m (p + 6))) OR
           push_bit 56 (ucast (m (p + 7)))
      else ucast (m (p + 7)) OR push_bit 8 (ucast (m (p + 6))) OR push_bit 16 (ucast (m (p + 5))) OR
           push_bit 24 (ucast (m (p + 4))) OR push_bit 32 (ucast (m (p + 3))) OR
           push_bit 40 (ucast (m (p + 2))) OR push_bit 48 (ucast (m (p + 1))) OR
           push_bit 56 (ucast (m p)))"

definition XXH_read64 :: "XXH_config \<Rightarrow> memory \<Rightarrow> nat \<Rightarrow> U64" where
  "XXH_read64 c m memPtr = native64 (XXH_CPU_LITTLE_ENDIAN c) m memPtr"

text \<open>The direct load \<^verbatim>\<open>*(const U64* )ptr\<close> of the aligned paths.\<close>

definition deref_U64 :: "XXH_config \<Rightarrow> memory \<Rightarrow> nat \<Rightarrow> U64" where
  "deref_U64 c m ptr = native64 (XXH_CPU_LITTLE_ENDIAN c) m ptr"

definition XXH_rotl64 :: "U64 \<Rightarrow> nat \<Rightarrow> U64" where
  "XXH_rotl64 x r = push_bit r x OR drop_bit (64 - r) x"

definition XXH_swap64 :: "U64 \<Rightarrow> U64" where
  "XXH_swap64 x =
     (push_bit 56 x AND 0xff00000000000000) OR (push_bit 40 x AND 0x00ff000000000000) OR
     (push_bit 24 x AND 0x0000ff0000000000) OR (push_bit 8 x AND 0x000000ff00000000) OR
     (drop_bit 8 x AND 0x00000000ff000000) OR (drop_bit 24 x AND 0x0000000000ff0000) OR
     (drop_bit 40 x AND 0x000000000000ff00) OR (drop_bit 56 x AND 0x00000000000000ff)"

definition XXH_readLE64_align ::
  "XXH_config \<Rightarrow> memory \<Rightarrow> nat \<Rightarrow> XXH_endianess \<Rightarrow> XXH_alignment \<Rightarrow> U64" where
  "XXH_readLE64_align c m ptr endian align =
     (if align = XXH_unaligned
      then (if endian = XXH_littleEndian then XXH_read64 c m ptr else XXH_swap64 (XXH_read64 c m ptr))
      else (if endian = XXH_littleEndian then deref_U64 c m ptr else XXH_swap64 (deref_U64 c m ptr)))"

definition XXH_readLE64 :: "XXH_config \<Rightarrow> memory \<Rightarrow> nat \<Rightarrow> XXH_endianess \<Rightarrow> U64" where
  "XXH_readLE64 c m ptr endian = XXH_readLE64_align c m ptr endian XXH_unaligned"

definition XXH_readBE64 :: "XXH_config \<Rightarrow> memory \<Rightarrow> nat \<Rightarrow> U64" where
  "XXH_readBE64 c m ptr =
     (if XXH_CPU_LITTLE_ENDIAN c = XXH_littleEndian then XXH_swap64 (XXH_read64 c m ptr)
      else XXH_read64 c m ptr)"

definition PRIME64_1 :: U64 where "PRIME64_1 = 11400714785074694791"
definition PRIME64_2 :: U64 where "PRIME64_2 = 14029467366897019727"
definition PRIME64_3 :: U64 where "PRIME64_3 = 1609587929392839161"
definition PRIME64_4 :: U64 where "PRIME64_4 = 9650029242287828579"
definition PRIME64_5 :: U64 where "PRIME64_5 = 2870177450012600261"

definition XXH64_round :: "U64 \<Rightarrow> U64 \<Rightarrow> U64" where
  "XXH64_round acc input = XXH_rotl64 (acc + input * PRIME64_2) 31 * PRIME64_1"

definition XXH64_mergeRound :: "U64 \<Rightarrow> U64 \<Rightarrow> U64" where
  "XXH64_mergeRound acc val =
     (let val = XXH64_round 0 val;
          acc = acc XOR val
      in acc * PRIME64_1 + PRIME64_4)"

definition XXH64_avalanche :: "U64 \<Rightarrow> U64" where
  "XXH64_avalanche h64 =
     (let h64 = h64 XOR drop_bit 33 h64;
          h64 = h64 * PRIME64_2;
          h64 = h64 XOR drop_bit 29 h64;
          h64 = h64 * PRIME64_3;
          h64 = h64 XOR drop_bit 32 h64
      in h64)"

text \<open>The macros \<^verbatim>\<open>PROCESS1_64\<close>, \<^verbatim>\<open>PROCESS4_64\<close> and \<^verbatim>\<open>PROCESS8_64\<close>, at pointer \<open>p\<close>.\<close>

definition PROCESS1_64 :: "memory \<Rightarrow> nat \<Rightarrow> U64 \<Rightarrow> U64" where
  "PROCESS1_64 m p h64 = XXH_rotl64 (h64 XOR ucast (m p) * PRIME64_5) 11 * PRIME64_1"

definition PROCESS4_64 ::
  "XXH_config \<Rightarrow> memory \<Rightarrow> XXH_endianess \<Rightarrow> XXH_alignment \<Rightarrow> nat \<Rightarrow> U64 \<Rightarrow> U64" where
  "PROCESS4_64 c m endian align p h64 =
     XXH_rotl64 (h64 XOR ucast (XXH_readLE32_align c m p endian align) * PRIME64_1) 23 * PRIME64_2
       + PRIME64_3"

definition PROCESS8_64 ::
  "XXH_config \<Rightarrow> memory \<Rightarrow> XXH_endianess \<Rightarrow> XXH_alignment \<Rightarrow> nat \<Rightarrow> U64 \<Rightarrow> U64" where
  "PROCESS8_64 c m endian align p h64 =
     (let k1 = XXH64_round 0 (XXH_readLE64_align c m p endian align)
      in XXH_rotl64 (h64 XOR k1) 27 * PRIME64_1 + PRIME64_4)"

text \<open>
  The \<^verbatim>\<open>switch(len&31)\<close> of \<^verbatim>\<open>XXH64_finalize\<close>, entered at case label \<open>n\<close>: a label
  \<open>n \<ge> 8\<close> runs \<^verbatim>\<open>PROCESS8_64\<close> and continues as label \<open>n - 8\<close> does, a label
  \<open>4 \<le> n < 8\<close> runs \<^verbatim>\<open>PROCESS4_64\<close> and continues as label \<open>n - 4\<close>, a label
  \<open>1 \<le> n < 4\<close> runs \<^verbatim>\<open>PROCESS1_64\<close> and continues as label \<open>n - 1\<close>, and label 0
  returns the avalanche.
\<close>

fun XXH64_finalize_switch ::
  "XXH_config \<Rightarrow> memory \<Rightarrow> XXH_endianess \<Rightarrow> XXH_alignment \<Rightarrow> nat \<Rightarrow> nat \<Rightarrow> U64 \<Rightarrow> U64" where
  "XXH64_finalize_switch c m endian align n p h64 =
     (if 8 \<le> n
      then XXH64_finalize_switch c m endian align (n - 8) (p + 8) (PROCESS8_64 c m endian align p h64)
      else if 4 \<le> n
      then XXH64_finalize_switch c m endian align (n - 4) (p + 4) (PROCESS4_64 c m endian align p h64)
      else if 1 \<le> n
      then XXH64_finalize_switch c m endian align (n - 1) (p + 1) (PROCESS1_64 m p h64)
      else XXH64_avalanche h64)"

declare XXH64_finalize_switch.simps [simp del]

definition XXH64_finalize ::
  "XXH_config \<Rightarrow> memory \<Rightarrow> U64 \<Rightarrow> nat \<Rightarrow> nat \<Rightarrow> XXH_endianess \<Rightarrow> XXH_alignment \<Rightarrow> U64" where
  "XXH64_finalize c m h64 ptr len endian align =
     XXH64_finalize_switch c m endian align (len mod 32) ptr h64"

type_synonym lanes64 = "U64 \<times> U64 \<times> U64 \<times> U64"

text \<open>One stripe of 32 bytes: the four \<^verbatim>\<open>XXH64_round\<close> calls of a loop body, reading with \<open>rd\<close>.\<close>

definition XXH64_stripe :: "(nat \<Rightarrow> U64) \<Rightarrow> nat \<Rightarrow> lanes64 \<Rightarrow> lanes64" where
  "XXH64_stripe rd p v =
     (case v of (v1, v2, v3, v4) \<Rightarrow>
        (XXH64_round v1 (rd p), XXH64_round v2 (rd (p + 8)),
         XXH64_round v3 (rd (p + 16)), XXH64_round v4 (rd (p + 24))))"

text \<open>
  The loops \<^verbatim>\<open>do { ... } while (p<=limit)\<close> of \<^verbatim>\<open>XXH64_endian_align\<close> and
  \<^verbatim>\<open>XXH64_update_endian\<close>.
\<close>

function XXH64_loop :: "(nat \<Rightarrow> U64) \<Rightarrow> nat \<Rightarrow> nat \<Rightarrow> lanes64 \<Rightarrow> nat \<times> lanes64" where
  "XXH64_loop rd p limit v =
     (if p + 32 \<le> limit then XXH64_loop rd (p + 32) limit (XXH64_stripe rd p v)
      else (p + 32, XXH64_stripe rd p v))"
  by pat_completeness auto
termination
  by (relation "measure (\<lambda>(rd, p, limit, v). Suc limit - p)") auto

declare XXH64_loop.simps [simp del]

definition XXH64_merge :: "lanes64 \<Rightarrow> U64" where
  "XXH64_merge v =
     (case v of (v1, v2, v3, v4) \<Rightarrow>
        (let h64 = XXH_rotl64 v1 1 + XXH_rotl64 v2 7 + XXH_rotl64 v3 12 + XXH_rotl64 v4 18;
             h64 = XXH64_mergeRound h64 v1;
             h64 = XXH64_mergeRound h64 v2;
             h64 = XXH64_mergeRound h64 v3;
             h64 = XXH64_mergeRound h64 v4
         in h64))"

definition XXH64_init :: "U64 \<Rightarrow> lanes64" where
  "XXH64_init seed = (seed + PRIME64_1 + PRIME64_2, seed + PRIME64_2, seed + 0, seed - PRIME64_1)"

text \<open>
  \<^verbatim>\<open>XXH64_endian_align\<close> in two parts: the \<^verbatim>\<open>if (len>=32) { ... } else { ... }\<close> that
  yields the advanced pointer and \<^verbatim>\<open>h64\<close>, then \<^verbatim>\<open>h64 += (U64) len\<close> and the finalization.
\<close>

definition XXH64_accumulate ::
  "XXH_config \<Rightarrow> memory \<Rightarrow> nat \<Rightarrow> nat \<Rightarrow> U64 \<Rightarrow> XXH_endianess \<Rightarrow> XXH_alignment \<Rightarrow> nat \<times> U64" where
  "XXH64_accumulate c m p len seed endian align =
     (let bEnd = p + len
      in if 32 \<le> len then
           (let limit = bEnd - 32;
                (p, v) = (if XXH_FORCE_ALIGN_CHECK c \<and> endian = XXH_littleEndian \<and> p mod 8 = 0
                          then XXH64_loop (deref_U64 c m) p limit (XXH64_init seed)
                          else XXH64_loop (\<lambda>q. XXH_readLE64_align c m q endian align) p limit
                                 (XXH64_init seed))
            in (p, XXH64_merge v))
         else (p, seed + PRIME64_5))"

definition XXH64_endian_align ::
  "XXH_config \<Rightarrow> memory \<Rightarrow> nat \<Rightarrow> nat \<Rightarrow> U64 \<Rightarrow> XXH_endianess \<Rightarrow> XXH_alignment \<Rightarrow> U64" where
  "XXH64_endian_align c m input len0 seed endian align =
     (let (p, len) = (if XXH_ACCEPT_NULL_INPUT_POINTER c \<and> input = 0 then (32, 0) else (input, len0));
          (p, h64) = XXH64_accumulate c m p len seed endian align;
          h64 = h64 + of_nat len
      in XXH64_finalize c m h64 p len endian align)"

definition XXH64 :: "XXH_config \<Rightarrow> memory \<Rightarrow> nat \<Rightarrow> nat \<Rightarrow> U64 \<Rightarrow> U64" where
  "XXH64 c m input len seed =
     (if XXH_FORCE_ALIGN_CHECK c \<and> input mod 8 = 0
      then XXH64_endian_align c m input len seed (XXH_endian_select c) XXH_aligned
      else XXH64_endian_align c m input len seed (XXH_endian_select c) XXH_unaligned)"

subsection \<open>Hash streaming (64 bits)\<close>

text \<open>
  \<^verbatim>\<open>XXH64_state_t\<close>, from the fields \<^verbatim>\<open>xxhash.c\<close> uses (the declaration is in \<^verbatim>\<open>xxhash.h\<close>);
  \<^verbatim>\<open>mem64\<close> is the 32-byte buffer, addressed by byte offset.
\<close>

record XXH64_state_t =
  s64_total_len :: U64
  s64_v1 :: U64
  s64_v2 :: U64
  s64_v3 :: U64
  s64_v4 :: U64
  s64_mem64 :: memory
  s64_memsize :: U32

definition XXH64_copyState :: "XXH64_state_t \<Rightarrow> XXH64_state_t \<Rightarrow> XXH64_state_t" where
  "XXH64_copyState dstState srcState = srcState"

definition XXH64_reset :: "U64 \<Rightarrow> XXH_errorcode \<times> XXH64_state_t" where
  "XXH64_reset seed =
     (XXH_OK,
      \<lparr>s64_total_len = 0,
       s64_v1 = seed + PRIME64_1 + PRIME64_2, s64_v2 = seed + PRIME64_2,
       s64_v3 = seed + 0, s64_v4 = seed - PRIME64_1,
       s64_mem64 = (\<lambda>_. 0), s64_memsize = 0\<rparr>)"

definition s64_lanes :: "XXH64_state_t \<Rightarrow> lanes64" where
  "s64_lanes state = (s64_v1 state, s64_v2 state, s64_v3 state, s64_v4 state)"

definition s64_set_lanes :: "lanes64 \<Rightarrow> XXH64_state_t \<Rightarrow> XXH64_state_t" where
  "s64_set_lanes v state =
     (case v of (v1, v2, v3, v4) \<Rightarrow> state\<lparr>s64_v1 := v1, s64_v2 := v2, s64_v3 := v3, s64_v4 := v4\<rparr>)"

text \<open>\<^verbatim>\<open>if (state->memsize) { ... }\<close>: complete the buffered stripe and consume it.\<close>

definition XXH64_update_fill ::
  "XXH_config \<Rightarrow> XXH64_state_t \<Rightarrow> memory \<Rightarrow> nat \<Rightarrow> XXH_endianess \<Rightarrow> XXH64_state_t \<times> nat" where
  "XXH64_update_fill c state m p endian =
     (if s64_memsize state \<noteq> 0 then
        (let state = state\<lparr>s64_mem64 :=
                       XXH_memcpy (s64_mem64 state) (unat (s64_memsize state)) m p
                         (unat (32 - s64_memsize state))\<rparr>;
             state = s64_set_lanes
                       (XXH64_stripe (\<lambda>q. XXH_readLE64 c (s64_mem64 state) q endian) 0 (s64_lanes state))
                       state;
             p = p + unat (32 - s64_memsize state)
         in (state\<lparr>s64_memsize := 0\<rparr>, p))
      else (state, p))"

text \<open>\<^verbatim>\<open>if (p+32 <= bEnd) { ... }\<close>: consume whole stripes straight from the input.\<close>

definition XXH64_update_stripes ::
  "XXH_config \<Rightarrow> XXH64_state_t \<Rightarrow> memory \<Rightarrow> nat \<Rightarrow> nat \<Rightarrow> XXH_endianess \<Rightarrow> XXH64_state_t \<times> nat" where
  "XXH64_update_stripes c state m p bEnd endian =
     (if p + 32 \<le> bEnd then
        (let limit = bEnd - 32;
             (p, v) = (if XXH_FORCE_ALIGN_CHECK c \<and> endian = XXH_littleEndian \<and> p mod 8 = 0
                       then XXH64_loop (deref_U64 c m) p limit (s64_lanes state)
                       else XXH64_loop (\<lambda>q. XXH_readLE64 c m q endian) p limit (s64_lanes state))
         in (s64_set_lanes v state, p))
      else (state, p))"

definition XXH64_update_endian ::
  "XXH_config \<Rightarrow> XXH64_state_t \<Rightarrow> memory \<Rightarrow> nat \<Rightarrow> nat \<Rightarrow> XXH_endianess
     \<Rightarrow> XXH_errorcode \<times> XXH64_state_t" where
  "XXH64_update_endian c state0 m input len endian =
     (if input = 0 then
        (if XXH_ACCEPT_NULL_INPUT_POINTER c then (XXH_OK, state0) else (XXH_ERROR, state0))
      else
        (let p = input;
             bEnd = p + len;
             state = state0\<lparr>s64_total_len := s64_total_len state0 + of_nat len\<rparr>
         in if unat (s64_memsize state) + len < 32 then
              (XXH_OK,
               state\<lparr>s64_mem64 := XXH_memcpy (s64_mem64 state) (unat (s64_memsize state)) m input len,
                     s64_memsize := s64_memsize state + of_nat len\<rparr>)
            else
              (let (state, p) = XXH64_update_fill c state m p endian;
                   (state, p) = XXH64_update_stripes c state m p bEnd endian
               in if p < bEnd
                  then (XXH_OK,
                        state\<lparr>s64_mem64 := XXH_memcpy (s64_mem64 state) 0 m p (bEnd - p),
                              s64_memsize := of_nat (bEnd - p)\<rparr>)
                  else (XXH_OK, state))))"

definition XXH64_update ::
  "XXH_config \<Rightarrow> XXH64_state_t \<Rightarrow> memory \<Rightarrow> nat \<Rightarrow> nat \<Rightarrow> XXH_errorcode \<times> XXH64_state_t" where
  "XXH64_update c state_in m input len =
     XXH64_update_endian c state_in m input len (XXH_endian_select c)"

text \<open>The \<^verbatim>\<open>if (state->total_len >= 32) { ... } else { ... }\<close> of \<^verbatim>\<open>XXH64_digest_endian\<close>.\<close>

definition XXH64_digest_acc :: "XXH64_state_t \<Rightarrow> U64" where
  "XXH64_digest_acc state =
     (if 32 \<le> s64_total_len state then XXH64_merge (s64_lanes state)
      else s64_v3 state + PRIME64_5)"

definition XXH64_digest_endian :: "XXH_config \<Rightarrow> XXH64_state_t \<Rightarrow> XXH_endianess \<Rightarrow> U64" where
  "XXH64_digest_endian c state endian =
     (let h64 = XXH64_digest_acc state;
          h64 = h64 + s64_total_len state
      in XXH64_finalize c (s64_mem64 state) h64 0 (unat (s64_total_len state)) endian XXH_aligned)"

definition XXH64_digest :: "XXH_config \<Rightarrow> XXH64_state_t \<Rightarrow> U64" where
  "XXH64_digest c state_in = XXH64_digest_endian c state_in (XXH_endian_select c)"

subsection \<open>Canonical representation (64 bits)\<close>

definition store64 :: "XXH_config \<Rightarrow> memory \<Rightarrow> nat \<Rightarrow> U64 \<Rightarrow> memory" where
  "store64 c m dst w =
     (\<lambda>i. if dst \<le> i \<and> i < dst + 8
          then (if XXH_CPU_LITTLE_ENDIAN c = XXH_littleEndian
                then ucast (drop_bit (8 * (i - dst)) w)
                else ucast (drop_bit (8 * (7 - (i - dst))) w))
          else m i)"

definition XXH64_canonicalFromHash :: "XXH_config \<Rightarrow> memory \<Rightarrow> nat \<Rightarrow> U64 \<Rightarrow> memory" where
  "XXH64_canonicalFromHash c m dst hash =
     (let hash = (if XXH_CPU_LITTLE_ENDIAN c = XXH_littleEndian then XXH_swap64 hash else hash)
      in store64 c m dst hash)"

definition XXH64_hashFromCanonical :: "XXH_config \<Rightarrow> memory \<Rightarrow> nat \<Rightarrow> U64" where
  "XXH64_hashFromCanonical c m src = XXH_readBE64 c m src"

section \<open>Alternative hash functions (XXH32a and XXH64a)\<close>

text \<open>The eight lanes \<^verbatim>\<open>U32 v[2][4]\<close>: the pair of \<^verbatim>\<open>v[0]\<close> and \<^verbatim>\<open>v[1]\<close>.\<close>

type_synonym lanes32x2 = "lanes32 \<times> lanes32"

text \<open>One stripe of 32 bytes: the eight \<^verbatim>\<open>XXH32_round\<close> calls of a loop body.\<close>

definition XXH32a_stripe :: "(nat \<Rightarrow> U32) \<Rightarrow> nat \<Rightarrow> lanes32x2 \<Rightarrow> lanes32x2" where
  "XXH32a_stripe rd p v = (XXH32_stripe rd p (fst v), XXH32_stripe rd (p + 16) (snd v))"

text \<open>The scalar loops \<^verbatim>\<open>do { ... } while (p < limit)\<close> of \<^verbatim>\<open>XXH32a_XXH64a_endian_align\<close>.\<close>

function XXH32a_loop :: "(nat \<Rightarrow> U32) \<Rightarrow> nat \<Rightarrow> nat \<Rightarrow> lanes32x2 \<Rightarrow> nat \<times> lanes32x2" where
  "XXH32a_loop rd p limit v =
     (if p + 32 < limit then XXH32a_loop rd (p + 32) limit (XXH32a_stripe rd p v)
      else (p + 32, XXH32a_stripe rd p v))"
  by pat_completeness auto
termination
  by (relation "measure (\<lambda>(rd, p, limit, v). limit - p)") auto

declare XXH32a_loop.simps [simp del]

text \<open>\<^verbatim>\<open>XXH32a_XXH64a_endian_align\<close> returns the advanced pointer and leaves the lanes in \<open>state\<close>.\<close>

definition XXH32a_XXH64a_endian_align ::
  "XXH_config \<Rightarrow> memory \<Rightarrow> lanes32x2 \<Rightarrow> nat \<Rightarrow> nat \<Rightarrow> XXH_endianess \<Rightarrow> XXH_alignment
     \<Rightarrow> nat \<times> lanes32x2" where
  "XXH32a_XXH64a_endian_align c m state p len endian align =
     (let bEnd = p + len
      in if 32 \<le> len then
           (let limit = bEnd - 31
            in if XXH_FORCE_ALIGN_CHECK c \<and> align = XXH_aligned \<and> endian = XXH_littleEndian
               then XXH32a_loop (deref_U32 c m) p limit state
               else XXH32a_loop (\<lambda>q. XXH_readLE32_align c m q endian align) p limit state)
         else (p, state))"

definition XXH32a_init :: "U32 \<Rightarrow> lanes32x2" where
  "XXH32a_init seed = (XXH32_init seed, XXH32_init seed)"

text \<open>The four \<^verbatim>\<open>XXH32_round(v[0][i], v[1][i])\<close> that fold \<^verbatim>\<open>v[1]\<close> into \<^verbatim>\<open>v[0]\<close>.\<close>

definition XXH32a_fold :: "lanes32x2 \<Rightarrow> lanes32" where
  "XXH32a_fold v =
     (case v of ((a1, a2, a3, a4), (b1, b2, b3, b4)) \<Rightarrow>
        (XXH32_round a1 b1, XXH32_round a2 b2, XXH32_round a3 b3, XXH32_round a4 b4))"

text \<open>
  \<^verbatim>\<open>XXH32a\<close> in two parts: the \<^verbatim>\<open>if (len >= 32) { ... } else { ... }\<close> that yields the
  advanced pointer and \<^verbatim>\<open>h32\<close>, then the addition of the length and the finalization.
\<close>

definition XXH32a_accumulate ::
  "XXH_config \<Rightarrow> memory \<Rightarrow> nat \<Rightarrow> nat \<Rightarrow> U32 \<Rightarrow> XXH_endianess \<Rightarrow> XXH_alignment \<Rightarrow> nat \<times> U32" where
  "XXH32a_accumulate c m p len seed endian align =
     (if 32 \<le> len then
        (let (p, v) = XXH32a_XXH64a_endian_align c m (XXH32a_init seed) p len endian align
         in (p, XXH32_merge (XXH32a_fold v)))
      else (p, seed + PRIME32_5))"

definition XXH32a :: "XXH_config \<Rightarrow> memory \<Rightarrow> nat \<Rightarrow> nat \<Rightarrow> U32 \<Rightarrow> U32" where
  "XXH32a c m input len0 seed =
     (let endian = XXH_endian_select c;
          align = (if input mod 4 = 0 then XXH_aligned else XXH_unaligned);
          (p, len) = (if XXH_ACCEPT_NULL_INPUT_POINTER c \<and> input = 0 then (32, 0) else (input, len0));
          (p, h32) = XXH32a_accumulate c m p len seed endian align;
          h32 = h32 + of_nat len
      in XXH32_finalize c m h32 p (len mod 32) endian align)"

subsection \<open>Hash streaming (alternative family)\<close>

text \<open>
  \<^verbatim>\<open>XXH32a_state_t\<close>, from the fields \<^verbatim>\<open>xxhash.c\<close> uses (the declaration is in \<^verbatim>\<open>xxhash.h\<close>);
  \<^verbatim>\<open>mem32\<close> is the 32-byte buffer, addressed by byte offset. \<^verbatim>\<open>XXH64a_update\<close> casts its
  \<^verbatim>\<open>XXH64a_state_t\<close> to this type and \<^verbatim>\<open>XXH64a_digest_endian\<close> reads the same fields, so
  both names stand for one record.
\<close>

record XXH32a_state_t =
  sa_total_len_32 :: U32
  sa_large_len :: U32
  sa_v :: lanes32x2
  sa_mem32 :: memory
  sa_memsize :: U32

type_synonym XXH64a_state_t = XXH32a_state_t

definition XXH32a_copyState :: "XXH32a_state_t \<Rightarrow> XXH32a_state_t \<Rightarrow> XXH32a_state_t" where
  "XXH32a_copyState dstState srcState = srcState"

definition XXH64a_copyState :: "XXH64a_state_t \<Rightarrow> XXH64a_state_t \<Rightarrow> XXH64a_state_t" where
  "XXH64a_copyState dstState srcState = srcState"

definition XXH32a_reset :: "U32 \<Rightarrow> XXH_errorcode \<times> XXH32a_state_t" where
  "XXH32a_reset seed =
     (XXH_OK,
      \<lparr>sa_total_len_32 = 0, sa_large_len = 0,
       sa_v = ((seed + PRIME32_1 + PRIME32_2, seed + PRIME32_2, seed + 0, seed - PRIME32_1),
               (seed + PRIME32_1 + PRIME32_2, seed + PRIME32_2, seed + 0, seed - PRIME32_1)),
       sa_mem32 = (\<lambda>_. 0), sa_memsize = 0\<rparr>)"

text \<open>The scalar loops \<^verbatim>\<open>do { ... } while (p <= limit)\<close> of \<^verbatim>\<open>XXH32a_XXH64a_update_endian\<close>.\<close>

function XXH32a_update_loop :: "(nat \<Rightarrow> U32) \<Rightarrow> nat \<Rightarrow> nat \<Rightarrow> lanes32x2 \<Rightarrow> nat \<times> lanes32x2" where
  "XXH32a_update_loop rd p limit v =
     (if p + 32 \<le> limit then XXH32a_update_loop rd (p + 32) limit (XXH32a_stripe rd p v)
      else (p + 32, XXH32a_stripe rd p v))"
  by pat_completeness auto
termination
  by (relation "measure (\<lambda>(rd, p, limit, v). Suc limit - p)") auto

declare XXH32a_update_loop.simps [simp del]

text \<open>\<^verbatim>\<open>if (state->memsize) { ... }\<close>: complete the buffered stripe and consume it.\<close>

definition XXH32a_update_fill ::
  "XXH_config \<Rightarrow> XXH32a_state_t \<Rightarrow> memory \<Rightarrow> nat \<Rightarrow> XXH_endianess \<Rightarrow> XXH32a_state_t \<times> nat" where
  "XXH32a_update_fill c state m p endian =
     (if sa_memsize state \<noteq> 0 then
        (let state = state\<lparr>sa_mem32 :=
                       XXH_memcpy (sa_mem32 state) (unat (sa_memsize state)) m p
                         (unat (32 - sa_memsize state))\<rparr>;
             state = state\<lparr>sa_v :=
                       XXH32a_stripe (\<lambda>q. XXH_readLE32 c (sa_mem32 state) q endian) 0 (sa_v state)\<rparr>;
             p = p + unat (32 - sa_memsize state)
         in (state\<lparr>sa_memsize := 0\<rparr>, p))
      else (state, p))"

text \<open>\<^verbatim>\<open>if (len >= 32) { ... }\<close>: the scalar stripe loop; \<open>len\<close> is the length of the whole input.\<close>

definition XXH32a_update_stripes ::
  "XXH_config \<Rightarrow> XXH32a_state_t \<Rightarrow> memory \<Rightarrow> nat \<Rightarrow> nat \<Rightarrow> nat \<Rightarrow> XXH_endianess
     \<Rightarrow> XXH32a_state_t \<times> nat" where
  "XXH32a_update_stripes c state m p bEnd len endian =
     (if 32 \<le> len then
        (let limit = bEnd - 31;
             (p, v) = (if XXH_FORCE_ALIGN_CHECK c \<and> p mod 4 = 0 \<and> endian = XXH_littleEndian
                       then XXH32a_update_loop (deref_U32 c m) p limit (sa_v state)
                       else XXH32a_update_loop (\<lambda>q. XXH_readLE32 c m q endian) p limit (sa_v state))
         in (state\<lparr>sa_v := v\<rparr>, p))
      else (state, p))"

definition XXH32a_XXH64a_update_endian ::
  "XXH_config \<Rightarrow> XXH32a_state_t \<Rightarrow> memory \<Rightarrow> nat \<Rightarrow> nat \<Rightarrow> XXH_endianess
     \<Rightarrow> XXH_errorcode \<times> XXH32a_state_t" where
  "XXH32a_XXH64a_update_endian c state0 m input len endian =
     (if input = 0 then
        (if XXH_ACCEPT_NULL_INPUT_POINTER c then (XXH_OK, state0) else (XXH_ERROR, state0))
      else
        (let p = input;
             bEnd = p + len;
             state = state0\<lparr>sa_total_len_32 := sa_total_len_32 state0 + of_nat len\<rparr>;
             state = state\<lparr>sa_large_len :=
                       sa_large_len state OR
                         (of_bool (32 \<le> len) OR of_bool (32 \<le> sa_total_len_32 state))\<rparr>
         in if unat (sa_memsize state) + len < 32 then
              (XXH_OK,
               state\<lparr>sa_mem32 := XXH_memcpy (sa_mem32 state) (unat (sa_memsize state)) m input len,
                     sa_memsize := sa_memsize state + of_nat len\<rparr>)
            else
              (let (state, p) = XXH32a_update_fill c state m p endian;
                   (state, p) = XXH32a_update_stripes c state m p bEnd len endian
               in if p < bEnd
                  then (XXH_OK,
                        state\<lparr>sa_mem32 := XXH_memcpy (sa_mem32 state) 0 m p (bEnd - p),
                              sa_memsize := of_nat (bEnd - p)\<rparr>)
                  else (XXH_OK, state))))"

definition XXH32a_update ::
  "XXH_config \<Rightarrow> XXH32a_state_t \<Rightarrow> memory \<Rightarrow> nat \<Rightarrow> nat \<Rightarrow> XXH_errorcode \<times> XXH32a_state_t" where
  "XXH32a_update c state_in m input len =
     XXH32a_XXH64a_update_endian c state_in m input len (XXH_endian_select c)"

definition XXH32a_digest_endian :: "XXH_config \<Rightarrow> XXH32a_state_t \<Rightarrow> XXH_endianess \<Rightarrow> U32" where
  "XXH32a_digest_endian c state endian =
     (let h32 = (if sa_large_len state \<noteq> 0 then XXH32_merge (XXH32a_fold (sa_v state))
                 else fst (snd (snd (fst (sa_v state)))) + PRIME32_5);
          h32 = h32 + sa_total_len_32 state
      in XXH32_finalize c (sa_mem32 state) h32 0 (unat (sa_memsize state)) endian XXH_aligned)"

definition XXH32a_digest :: "XXH_config \<Rightarrow> XXH32a_state_t \<Rightarrow> U32" where
  "XXH32a_digest c state_in = XXH32a_digest_endian c state_in (XXH_endian_select c)"

subsection \<open>XXH64a\<close>

text \<open>\<^verbatim>\<open>seeds[0] = (U32)(seed & 0xFFFFFFFF); seeds[1] = (U32)(seed >> 32);\<close>\<close>

definition XXH64a_seeds :: "U64 \<Rightarrow> U32 \<times> U32" where
  "XXH64a_seeds seed = (ucast (seed AND 0xFFFFFFFF), ucast (drop_bit 32 seed))"

definition XXH64a_init :: "U64 \<Rightarrow> lanes32x2" where
  "XXH64a_init seed =
     (case XXH64a_seeds seed of (seeds0, seeds1) \<Rightarrow>
        ((seeds0 + PRIME32_1 + PRIME32_2, seeds0 + PRIME32_2, seeds0 + 0, seeds0 - PRIME32_1),
         (seeds1 + PRIME32_1 + PRIME32_2, seeds1 + PRIME32_2, seeds1 + 0, seeds1 - PRIME32_1)))"

text \<open>\<^verbatim>\<open>lo | ((U64)hi << 32)\<close>\<close>

definition XXH64a_join :: "U32 \<Rightarrow> U32 \<Rightarrow> U64" where
  "XXH64a_join lo hi = ucast lo OR push_bit 32 (ucast hi)"

text \<open>Merge the eight 32-bit lanes into four 64-bit lanes.\<close>

definition XXH64a_lanes :: "lanes32x2 \<Rightarrow> lanes64" where
  "XXH64a_lanes v =
     (case v of ((a1, a2, a3, a4), (b1, b2, b3, b4)) \<Rightarrow>
        (XXH64a_join a1 b1, XXH64a_join a2 b2, XXH64a_join a3 b3, XXH64a_join a4 b4))"

text \<open>
  \<^verbatim>\<open>XXH64a\<close> in two parts: the \<^verbatim>\<open>if (len >= 32) { ... } else { ... }\<close> that yields the
  advanced pointer and \<^verbatim>\<open>h64\<close>, then \<^verbatim>\<open>h64 += (U32)len\<close> and the finalization.
\<close>

definition XXH64a_accumulate ::
  "XXH_config \<Rightarrow> memory \<Rightarrow> nat \<Rightarrow> nat \<Rightarrow> U64 \<Rightarrow> XXH_endianess \<Rightarrow> XXH_alignment \<Rightarrow> nat \<times> U64" where
  "XXH64a_accumulate c m p len seed endian align =
     (case XXH64a_seeds seed of (seeds0, seeds1) \<Rightarrow>
        if 32 \<le> len then
          (let (p, v) = XXH32a_XXH64a_endian_align c m (XXH64a_init seed) p len endian align
           in (p, XXH64_merge (XXH64a_lanes v)))
        else (p, XXH64a_join seeds0 seeds1 + PRIME64_5))"

definition XXH64a :: "XXH_config \<Rightarrow> memory \<Rightarrow> nat \<Rightarrow> nat \<Rightarrow> U64 \<Rightarrow> U64" where
  "XXH64a c m input len0 seed =
     (let endian = XXH_endian_select c;
          align = (if input mod 4 = 0 then XXH_aligned else XXH_unaligned);
          (p, len) = (if XXH_ACCEPT_NULL_INPUT_POINTER c \<and> input = 0 then (32, 0) else (input, len0));
          (p, h64) = XXH64a_accumulate c m p len seed endian align;
          h64 = h64 + ucast (of_nat len :: U32)
      in XXH64_finalize c m h64 p (len mod 32) endian align)"

definition XXH64a_reset :: "U64 \<Rightarrow> XXH_errorcode \<times> XXH64a_state_t" where
  "XXH64a_reset seed =
     (XXH_OK,
      \<lparr>sa_total_len_32 = 0, sa_large_len = 0, sa_v = XXH64a_init seed,
       sa_mem32 = (\<lambda>_. 0), sa_memsize = 0\<rparr>)"

definition XXH64a_update ::
  "XXH_config \<Rightarrow> XXH64a_state_t \<Rightarrow> memory \<Rightarrow> nat \<Rightarrow> nat \<Rightarrow> XXH_errorcode \<times> XXH64a_state_t" where
  "XXH64a_update c state_in m input len = XXH32a_update c state_in m input len"

text \<open>
  \<^verbatim>\<open>XXH64a_digest_endian\<close> finalizes over \<^verbatim>\<open>state->mem32\<close>, directly when that buffer is
  8-byte aligned and through a local copy of its 32 bytes otherwise: the same bytes
  either way.
\<close>

definition XXH64a_digest_acc :: "XXH64a_state_t \<Rightarrow> U64" where
  "XXH64a_digest_acc state =
     (if sa_large_len state \<noteq> 0 then XXH64_merge (XXH64a_lanes (sa_v state))
      else XXH64a_join (fst (snd (snd (fst (sa_v state)))))
                       (fst (snd (snd (snd (sa_v state))))) + PRIME64_5)"

definition XXH64a_digest_endian :: "XXH_config \<Rightarrow> XXH64a_state_t \<Rightarrow> XXH_endianess \<Rightarrow> U64" where
  "XXH64a_digest_endian c state endian =
     (let h64 = XXH64a_digest_acc state;
          h64 = h64 + ucast (sa_total_len_32 state)
      in XXH64_finalize c (sa_mem32 state) h64 0 (unat (sa_memsize state)) endian XXH_aligned)"

definition XXH64a_digest :: "XXH_config \<Rightarrow> XXH64a_state_t \<Rightarrow> U64" where
  "XXH64a_digest c state_in = XXH64a_digest_endian c state_in (XXH_endian_select c)"

section \<open>The streaming interface on caller-owned state objects\<close>

text \<open>
  The public functions take pointers to state objects. A store maps each state handle
  to the object it points to; an operation on a handle reads and replaces that object
  only. \<^verbatim>\<open>digest\<close> takes a \<^verbatim>\<open>const\<close> pointer and writes nothing.
\<close>

type_synonym 'st store = "nat \<Rightarrow> 'st"

definition XXH_at :: "('st \<Rightarrow> 'e \<times> 'st) \<Rightarrow> 'st store \<Rightarrow> nat \<Rightarrow> 'e \<times> 'st store" where
  "XXH_at f \<sigma> h = (case f (\<sigma> h) of (e, st) \<Rightarrow> (e, \<sigma>(h := st)))"

definition XXH_read_at :: "('st \<Rightarrow> 'r) \<Rightarrow> 'st store \<Rightarrow> nat \<Rightarrow> 'r \<times> 'st store" where
  "XXH_read_at f \<sigma> h = (f (\<sigma> h), \<sigma>)"

definition XXH_copy_at :: "('st \<Rightarrow> 'st \<Rightarrow> 'st) \<Rightarrow> 'st store \<Rightarrow> nat \<Rightarrow> nat \<Rightarrow> 'st store" where
  "XXH_copy_at f \<sigma> dst src = \<sigma>(dst := f (\<sigma> dst) (\<sigma> src))"

text \<open>A sequence of \<^verbatim>\<open>update\<close> calls on one handle, each with its memory, pointer and length.\<close>

fun XXH_updates_at ::
  "('st \<Rightarrow> memory \<Rightarrow> nat \<Rightarrow> nat \<Rightarrow> XXH_errorcode \<times> 'st) \<Rightarrow> 'st store \<Rightarrow> nat
     \<Rightarrow> (memory \<times> nat \<times> nat) list \<Rightarrow> 'st store" where
  "XXH_updates_at upd \<sigma> h [] = \<sigma>"
| "XXH_updates_at upd \<sigma> h ((m, input, len) # us) =
     XXH_updates_at upd (snd (XXH_at (\<lambda>st. upd st m input len) \<sigma> h)) h us"

text \<open>The default build on a little-endian host: the \<^verbatim>\<open>#define\<close>s at the top of \<^verbatim>\<open>xxhash.c\<close>.\<close>

definition XXH_default_config :: XXH_config where
  "XXH_default_config =
     \<lparr>XXH_ACCEPT_NULL_INPUT_POINTER = False, XXH_FORCE_NATIVE_FORMAT = False,
      XXH_FORCE_ALIGN_CHECK = True, XXH_CPU_LITTLE_ENDIAN = XXH_littleEndian\<rparr>"

text \<open>A sequence of \<^verbatim>\<open>update\<close> calls on one state object, whatever each call returns.\<close>

fun XXH_updates ::
  "('st \<Rightarrow> memory \<Rightarrow> nat \<Rightarrow> nat \<Rightarrow> XXH_errorcode \<times> 'st) \<Rightarrow> 'st
     \<Rightarrow> (memory \<times> nat \<times> nat) list \<Rightarrow> 'st" where
  "XXH_updates upd st [] = st"
| "XXH_updates upd st ((m, input, len) # us) = XXH_updates upd (snd (upd st m input len)) us"

text \<open>
  A sequence of \<^verbatim>\<open>reset\<close> and \<^verbatim>\<open>update\<close> calls on one state object. The state before the
  first call is whatever \<^verbatim>\<open>XXH_malloc\<close> returned.
\<close>

datatype 'seed XXH_call = Reset 'seed | Update memory nat nat

fun XXH_run ::
  "('seed \<Rightarrow> XXH_errorcode \<times> 'st) \<Rightarrow> ('st \<Rightarrow> memory \<Rightarrow> nat \<Rightarrow> nat \<Rightarrow> XXH_errorcode \<times> 'st)
     \<Rightarrow> 'st \<Rightarrow> 'seed XXH_call list \<Rightarrow> 'st" where
  "XXH_run rst upd st [] = st"
| "XXH_run rst upd st (Reset seed # cs) = XXH_run rst upd (snd (rst seed)) cs"
| "XXH_run rst upd st (Update m input len # cs) =
     XXH_run rst upd (snd (upd st m input len)) cs"

section \<open>The digest functions as procedures on the state object\<close>

text \<open>
  Each digest function receives a pointer to the state object. Here it is a computation
  in the state monad whose state is that object: such a computation may read and write
  the object, and \<open>run_state\<close> yields the value returned together with the object as the
  call leaves it. The body follows the source statement by statement; every access
  \<^verbatim>\<open>state->field\<close> is one \<open>XXH_load\<close>.
\<close>

definition XXH_load :: "('st \<Rightarrow> 'a) \<Rightarrow> ('st, 'a) state" where
  "XXH_load field = do { st \<leftarrow> State_Monad.get; State_Monad.return (field st) }"

definition XXH32_digest_endian_st ::
  "XXH_config \<Rightarrow> XXH_endianess \<Rightarrow> (XXH32_state_t, U32) state" where
  "XXH32_digest_endian_st c endian = do {
     large_len \<leftarrow> XXH_load s32_large_len;
     h32 \<leftarrow> (if large_len \<noteq> 0
            then do {
              v1 \<leftarrow> XXH_load s32_v1;
              v2 \<leftarrow> XXH_load s32_v2;
              v3 \<leftarrow> XXH_load s32_v3;
              v4 \<leftarrow> XXH_load s32_v4;
              State_Monad.return
                (XXH_rotl32 v1 1 + XXH_rotl32 v2 7 + XXH_rotl32 v3 12 + XXH_rotl32 v4 18)
            }
            else do {
              v3 \<leftarrow> XXH_load s32_v3;
              State_Monad.return (v3 + PRIME32_5)
            });
     total_len_32 \<leftarrow> XXH_load s32_total_len_32;
     let h32 = h32 + total_len_32;
     mem32 \<leftarrow> XXH_load s32_mem32;
     memsize \<leftarrow> XXH_load s32_memsize;
     State_Monad.return (XXH32_finalize c mem32 h32 0 (unat (memsize AND 15)) endian XXH_aligned)
   }"

definition XXH32_digest_st :: "XXH_config \<Rightarrow> (XXH32_state_t, U32) state" where
  "XXH32_digest_st c = XXH32_digest_endian_st c (XXH_endian_select c)"

definition XXH64_digest_endian_st ::
  "XXH_config \<Rightarrow> XXH_endianess \<Rightarrow> (XXH64_state_t, U64) state" where
  "XXH64_digest_endian_st c endian = do {
     total_len \<leftarrow> XXH_load s64_total_len;
     h64 \<leftarrow> (if 32 \<le> total_len
            then do {
              v1 \<leftarrow> XXH_load s64_v1;
              v2 \<leftarrow> XXH_load s64_v2;
              v3 \<leftarrow> XXH_load s64_v3;
              v4 \<leftarrow> XXH_load s64_v4;
              let h64 = XXH_rotl64 v1 1 + XXH_rotl64 v2 7 + XXH_rotl64 v3 12 + XXH_rotl64 v4 18;
              let h64 = XXH64_mergeRound h64 v1;
              let h64 = XXH64_mergeRound h64 v2;
              let h64 = XXH64_mergeRound h64 v3;
              let h64 = XXH64_mergeRound h64 v4;
              State_Monad.return h64
            }
            else do {
              v3 \<leftarrow> XXH_load s64_v3;
              State_Monad.return (v3 + PRIME64_5)
            });
     total_len \<leftarrow> XXH_load s64_total_len;
     let h64 = h64 + total_len;
     mem64 \<leftarrow> XXH_load s64_mem64;
     total_len \<leftarrow> XXH_load s64_total_len;
     State_Monad.return (XXH64_finalize c mem64 h64 0 (unat total_len) endian XXH_aligned)
   }"

definition XXH64_digest_st :: "XXH_config \<Rightarrow> (XXH64_state_t, U64) state" where
  "XXH64_digest_st c = XXH64_digest_endian_st c (XXH_endian_select c)"

text \<open>The element \<^verbatim>\<open>v[i][j]\<close> of the lane array of the alternative family.\<close>

definition XXH32a_lane :: "lanes32x2 \<Rightarrow> nat \<Rightarrow> nat \<Rightarrow> U32" where
  "XXH32a_lane v i j =
     (case (if i = 0 then fst v else snd v) of (a1, a2, a3, a4) \<Rightarrow>
        if j = 0 then a1 else if j = 1 then a2 else if j = 2 then a3 else a4)"

definition XXH32a_digest_endian_st ::
  "XXH_config \<Rightarrow> XXH_endianess \<Rightarrow> (XXH32a_state_t, U32) state" where
  "XXH32a_digest_endian_st c endian = do {
     large_len \<leftarrow> XXH_load sa_large_len;
     h32 \<leftarrow> (if large_len \<noteq> 0
            then do {
              v \<leftarrow> XXH_load sa_v;
              let v1 = XXH32_round (XXH32a_lane v 0 0) (XXH32a_lane v 1 0);
              let v2 = XXH32_round (XXH32a_lane v 0 1) (XXH32a_lane v 1 1);
              let v3 = XXH32_round (XXH32a_lane v 0 2) (XXH32a_lane v 1 2);
              let v4 = XXH32_round (XXH32a_lane v 0 3) (XXH32a_lane v 1 3);
              State_Monad.return
                (XXH_rotl32 v1 1 + XXH_rotl32 v2 7 + XXH_rotl32 v3 12 + XXH_rotl32 v4 18)
            }
            else do {
              v \<leftarrow> XXH_load sa_v;
              State_Monad.return (XXH32a_lane v 0 2 + PRIME32_5)
            });
     total_len_32 \<leftarrow> XXH_load sa_total_len_32;
     let h32 = h32 + total_len_32;
     mem32 \<leftarrow> XXH_load sa_mem32;
     memsize \<leftarrow> XXH_load sa_memsize;
     State_Monad.return (XXH32_finalize c mem32 h32 0 (unat memsize) endian XXH_aligned)
   }"

definition XXH32a_digest_st :: "XXH_config \<Rightarrow> (XXH32a_state_t, U32) state" where
  "XXH32a_digest_st c = XXH32a_digest_endian_st c (XXH_endian_select c)"

text \<open>
  \<^verbatim>\<open>XXH64a_digest_endian\<close> tests \<^verbatim>\<open>((size_t)state->mem32 & 7) == 0\<close>, which depends on the
  address of the state object: \<open>mem32_aligned\<close> is the outcome of that test. When it
  fails the function copies the 32 bytes of the buffer into the local array
  \<^verbatim>\<open>U64 mem[32]\<close> and finalizes over the copy; \<open>mem\<close> is that array as the call finds it.
\<close>

definition XXH64a_digest_endian_st ::
  "XXH_config \<Rightarrow> bool \<Rightarrow> memory \<Rightarrow> XXH_endianess \<Rightarrow> (XXH64a_state_t, U64) state" where
  "XXH64a_digest_endian_st c mem32_aligned mem endian = do {
     large_len \<leftarrow> XXH_load sa_large_len;
     h64 \<leftarrow> (if large_len \<noteq> 0
            then do {
              v \<leftarrow> XXH_load sa_v;
              let v1 = ucast (XXH32a_lane v 0 0) OR push_bit 32 (ucast (XXH32a_lane v 1 0));
              let v2 = ucast (XXH32a_lane v 0 1) OR push_bit 32 (ucast (XXH32a_lane v 1 1));
              let v3 = ucast (XXH32a_lane v 0 2) OR push_bit 32 (ucast (XXH32a_lane v 1 2));
              let v4 = ucast (XXH32a_lane v 0 3) OR push_bit 32 (ucast (XXH32a_lane v 1 3));
              let h64 = XXH_rotl64 v1 1 + XXH_rotl64 v2 7 + XXH_rotl64 v3 12 + XXH_rotl64 v4 18;
              let h64 = XXH64_mergeRound h64 v1;
              let h64 = XXH64_mergeRound h64 v2;
              let h64 = XXH64_mergeRound h64 v3;
              let h64 = XXH64_mergeRound h64 v4;
              State_Monad.return h64
            }
            else do {
              v \<leftarrow> XXH_load sa_v;
              State_Monad.return
                ((ucast (XXH32a_lane v 0 2) OR push_bit 32 (ucast (XXH32a_lane v 1 2)))
                   + PRIME64_5)
            });
     total_len_32 \<leftarrow> XXH_load sa_total_len_32;
     let h64 = h64 + ucast total_len_32;
     if mem32_aligned
     then do {
       mem32 \<leftarrow> XXH_load sa_mem32;
       memsize \<leftarrow> XXH_load sa_memsize;
       State_Monad.return (XXH64_finalize c mem32 h64 0 (unat memsize) endian XXH_aligned)
     }
     else do {
       mem32 \<leftarrow> XXH_load sa_mem32;
       let mem = XXH_memcpy mem 0 mem32 0 32;
       memsize \<leftarrow> XXH_load sa_memsize;
       State_Monad.return (XXH64_finalize c mem h64 0 (unat memsize) endian XXH_aligned)
     }
   }"

definition XXH64a_digest_st ::
  "XXH_config \<Rightarrow> bool \<Rightarrow> memory \<Rightarrow> (XXH64a_state_t, U64) state" where
  "XXH64a_digest_st c mem32_aligned mem =
     XXH64a_digest_endian_st c mem32_aligned mem (XXH_endian_select c)"

section \<open>What a streaming state has absorbed\<close>

text \<open>
  The lanes after \<open>n\<close> whole stripes of the input that starts at \<open>p\<close>, and the relation
  between a streaming state and the first \<open>t\<close> bytes of that input: the length counter
  and the flag record \<open>t\<close>, the lanes have consumed the \<open>t div 16\<close> (or \<open>t div 32\<close>) whole
  stripes, and the buffer holds the bytes after them.
\<close>

fun XXH32_stripes :: "(nat \<Rightarrow> U32) \<Rightarrow> nat \<Rightarrow> nat \<Rightarrow> lanes32 \<Rightarrow> lanes32" where
  "XXH32_stripes rd p 0 v = v"
| "XXH32_stripes rd p (Suc n) v = XXH32_stripes rd (p + 16) n (XXH32_stripe rd p v)"

definition XXH32_absorbed ::
  "XXH_config \<Rightarrow> memory \<Rightarrow> nat \<Rightarrow> U32 \<Rightarrow> XXH_endianess \<Rightarrow> nat \<Rightarrow> XXH32_state_t \<Rightarrow> bool" where
  "XXH32_absorbed c m p seed e t st \<longleftrightarrow>
     s32_total_len_32 st = of_nat t \<and>
     (s32_large_len st \<noteq> 0 \<longleftrightarrow> 16 \<le> t) \<and>
     s32_lanes st = XXH32_stripes (\<lambda>q. XXH_readLE32 c m q e) p (t div 16) (XXH32_init seed) \<and>
     unat (s32_memsize st) = t mod 16 \<and>
     (\<forall>i < t mod 16. s32_mem32 st i = m (p + 16 * (t div 16) + i))"

fun XXH64_stripes :: "(nat \<Rightarrow> U64) \<Rightarrow> nat \<Rightarrow> nat \<Rightarrow> lanes64 \<Rightarrow> lanes64" where
  "XXH64_stripes rd p 0 v = v"
| "XXH64_stripes rd p (Suc n) v = XXH64_stripes rd (p + 32) n (XXH64_stripe rd p v)"

definition XXH64_absorbed ::
  "XXH_config \<Rightarrow> memory \<Rightarrow> nat \<Rightarrow> U64 \<Rightarrow> XXH_endianess \<Rightarrow> nat \<Rightarrow> XXH64_state_t \<Rightarrow> bool" where
  "XXH64_absorbed c m p seed e t st \<longleftrightarrow>
     s64_total_len st = of_nat t \<and>
     s64_lanes st = XXH64_stripes (\<lambda>q. XXH_readLE64 c m q e) p (t div 32) (XXH64_init seed) \<and>
     unat (s64_memsize st) = t mod 32 \<and>
     (\<forall>i < t mod 32. s64_mem64 st i = m (p + 32 * (t div 32) + i))"

section \<open>Evaluation and basic facts\<close>

lemmas XXH_eval_simps =
  XXH32_round_def XXH_rotl32_def PRIME32_1_def PRIME32_2_def PRIME32_3_def PRIME32_4_def
  PRIME32_5_def XXH64_round_def XXH_rotl64_def PRIME64_1_def PRIME64_2_def PRIME64_3_def
  PRIME64_4_def PRIME64_5_def XXH32_avalanche_def XXH64_avalanche_def XXH64_mergeRound_def
  XXH32_init_def XXH64_init_def XXH32_merge_def XXH64_merge_def XXH32_stripe_def
  XXH64_stripe_def XXH32a_stripe_def native32_def native64_def XXH_read32_def XXH_read64_def
  deref_U32_def deref_U64_def XXH_readLE32_align_def XXH_readLE64_align_def XXH_readLE32_def
  XXH_readLE64_def XXH_endian_select_def XXH_default_config_def PROCESS1_def PROCESS4_def
  PROCESS1_64_def PROCESS4_64_def PROCESS8_64_def XXH32_finalize_def XXH64_finalize_def
  XXH32_finalize_switch.simps XXH64_finalize_switch.simps Let_def

lemma XXH32_finalize_0: "XXH32_finalize c m h p 0 e a = XXH32_avalanche h"
  by (simp add: XXH32_finalize_def XXH32_finalize_switch.simps)

lemma XXH64_finalize_0: "XXH64_finalize c m h p 0 e a = XXH64_avalanche h"
  by (simp add: XXH64_finalize_def XXH64_finalize_switch.simps)

lemma XXH32_empty_value: "XXH32_avalanche (PRIME32_5 + 0) = 0x02CC5D05"
  by (simp add: XXH32_avalanche_def PRIME32_2_def PRIME32_3_def PRIME32_5_def)

lemma XXH64_empty_value: "XXH64_avalanche PRIME64_5 = 0xEF46DB3751D8E999"
  by (simp add: XXH64_avalanche_def PRIME64_2_def PRIME64_3_def PRIME64_5_def)

section \<open>Known vector: the empty input (C3)\<close>

text \<open>
  Claim C3. The one-shot hash of the empty input with seed 0 is the avalanche of
  \<open>PRIME32_5\<close> plus the length 0 in the 32-bit functions and the avalanche of \<open>PRIME64_5\<close>
  in the 64-bit functions: the short-input path \<open>seed + PRIME_5\<close>, plus length 0, through
  the zero-length finalization. It holds for every build configuration, memory and
  pointer, in XXH32 and XXH64 and in the alternative family as well.
\<close>

theorem empty_input_seed0:
  "XXH32 c m input 0 0 = XXH32_avalanche (PRIME32_5 + 0) \<and>
   XXH64 c m input 0 0 = XXH64_avalanche PRIME64_5 \<and>
   XXH32a c m input 0 0 = XXH32_avalanche (PRIME32_5 + 0) \<and>
   XXH64a c m input 0 0 = XXH64_avalanche PRIME64_5"
proof -
  have a: "XXH32 c m input 0 0 = XXH32_avalanche (PRIME32_5 + 0)"
    by (simp add: XXH32_def XXH32_endian_align_def XXH32_accumulate_def XXH32_finalize_0)
  have b: "XXH64 c m input 0 0 = XXH64_avalanche PRIME64_5"
    by (simp add: XXH64_def XXH64_endian_align_def XXH64_accumulate_def XXH64_finalize_0)
  have c: "XXH32a c m input 0 0 = XXH32_avalanche (PRIME32_5 + 0)"
    by (simp add: XXH32a_def XXH32a_accumulate_def XXH32_finalize_0)
  have d: "XXH64a c m input 0 0 = XXH64_avalanche PRIME64_5"
    by (simp add: XXH64a_def XXH64a_accumulate_def XXH64_finalize_0 XXH64a_seeds_def
        XXH64a_join_def)
  from a b c d show ?thesis by blast
qed

section \<open>The error of update (C4)\<close>

lemma XXH32_update_endian_status:
  "fst (XXH32_update_endian c st m input len e) =
     (if input = 0 \<and> \<not> XXH_ACCEPT_NULL_INPUT_POINTER c then XXH_ERROR else XXH_OK)"
  by (simp add: XXH32_update_endian_def Let_def split: prod.splits)

lemma XXH32_update_endian_null: "snd (XXH32_update_endian c st m 0 len e) = st"
  by (simp add: XXH32_update_endian_def)

lemma XXH64_update_endian_status:
  "fst (XXH64_update_endian c st m input len e) =
     (if input = 0 \<and> \<not> XXH_ACCEPT_NULL_INPUT_POINTER c then XXH_ERROR else XXH_OK)"
  by (simp add: XXH64_update_endian_def Let_def split: prod.splits)

lemma XXH64_update_endian_null: "snd (XXH64_update_endian c st m 0 len e) = st"
  by (simp add: XXH64_update_endian_def)

lemma XXH32a_update_endian_status:
  "fst (XXH32a_XXH64a_update_endian c st m input len e) =
     (if input = 0 \<and> \<not> XXH_ACCEPT_NULL_INPUT_POINTER c then XXH_ERROR else XXH_OK)"
  by (simp add: XXH32a_XXH64a_update_endian_def Let_def split: prod.splits)

lemma XXH32a_update_endian_null: "snd (XXH32a_XXH64a_update_endian c st m 0 len e) = st"
  by (simp add: XXH32a_XXH64a_update_endian_def)

text \<open>
  Claim C4. For every streaming state and every length, \<open>update\<close> returns \<open>XXH_ERROR\<close>
  exactly when the input pointer is null and \<open>XXH_ACCEPT_NULL_INPUT_POINTER\<close> is off; in
  that case the state is returned as it was; and for every non-null input \<open>update\<close>
  returns \<open>XXH_OK\<close>. This holds for the four update functions.
\<close>

theorem update_error_iff_null:
  "(fst (XXH32_update c s32 m input len) = XXH_ERROR
      \<longleftrightarrow> input = 0 \<and> \<not> XXH_ACCEPT_NULL_INPUT_POINTER c) \<and>
   (fst (XXH32_update c s32 m input len) = XXH_ERROR
      \<longrightarrow> snd (XXH32_update c s32 m input len) = s32) \<and>
   (input \<noteq> 0 \<longrightarrow> fst (XXH32_update c s32 m input len) = XXH_OK) \<and>
   (fst (XXH64_update c s64 m input len) = XXH_ERROR
      \<longleftrightarrow> input = 0 \<and> \<not> XXH_ACCEPT_NULL_INPUT_POINTER c) \<and>
   (fst (XXH64_update c s64 m input len) = XXH_ERROR
      \<longrightarrow> snd (XXH64_update c s64 m input len) = s64) \<and>
   (input \<noteq> 0 \<longrightarrow> fst (XXH64_update c s64 m input len) = XXH_OK) \<and>
   (fst (XXH32a_update c sa m input len) = XXH_ERROR
      \<longleftrightarrow> input = 0 \<and> \<not> XXH_ACCEPT_NULL_INPUT_POINTER c) \<and>
   (fst (XXH32a_update c sa m input len) = XXH_ERROR
      \<longrightarrow> snd (XXH32a_update c sa m input len) = sa) \<and>
   (input \<noteq> 0 \<longrightarrow> fst (XXH32a_update c sa m input len) = XXH_OK) \<and>
   (fst (XXH64a_update c sa m input len) = XXH_ERROR
      \<longleftrightarrow> input = 0 \<and> \<not> XXH_ACCEPT_NULL_INPUT_POINTER c) \<and>
   (fst (XXH64a_update c sa m input len) = XXH_ERROR
      \<longrightarrow> snd (XXH64a_update c sa m input len) = sa) \<and>
   (input \<noteq> 0 \<longrightarrow> fst (XXH64a_update c sa m input len) = XXH_OK)"
proof -
  have a: "(fst (XXH32_update c s32 m input len) = XXH_ERROR
      \<longleftrightarrow> input = 0 \<and> \<not> XXH_ACCEPT_NULL_INPUT_POINTER c) \<and>
   (fst (XXH32_update c s32 m input len) = XXH_ERROR
      \<longrightarrow> snd (XXH32_update c s32 m input len) = s32) \<and>
   (input \<noteq> 0 \<longrightarrow> fst (XXH32_update c s32 m input len) = XXH_OK)"
    using XXH32_update_endian_null [of c s32 m len "XXH_endian_select c"]
    by (auto simp add: XXH32_update_def XXH32_update_endian_status)
  have b: "(fst (XXH64_update c s64 m input len) = XXH_ERROR
      \<longleftrightarrow> input = 0 \<and> \<not> XXH_ACCEPT_NULL_INPUT_POINTER c) \<and>
   (fst (XXH64_update c s64 m input len) = XXH_ERROR
      \<longrightarrow> snd (XXH64_update c s64 m input len) = s64) \<and>
   (input \<noteq> 0 \<longrightarrow> fst (XXH64_update c s64 m input len) = XXH_OK)"
    using XXH64_update_endian_null [of c s64 m len "XXH_endian_select c"]
    by (auto simp add: XXH64_update_def XXH64_update_endian_status)
  have d: "(fst (XXH32a_update c sa m input len) = XXH_ERROR
      \<longleftrightarrow> input = 0 \<and> \<not> XXH_ACCEPT_NULL_INPUT_POINTER c) \<and>
   (fst (XXH32a_update c sa m input len) = XXH_ERROR
      \<longrightarrow> snd (XXH32a_update c sa m input len) = sa) \<and>
   (input \<noteq> 0 \<longrightarrow> fst (XXH32a_update c sa m input len) = XXH_OK)"
    using XXH32a_update_endian_null [of c sa m len "XXH_endian_select c"]
    by (auto simp add: XXH32a_update_def XXH32a_update_endian_status)
  from a b d show ?thesis unfolding XXH64a_update_def by blast
qed

text \<open>
  Witness for C4, in the default build (null pointers not accepted): a null input is
  rejected with the state untouched, and an input at address 64 is accepted.
\<close>

theorem update_error_iff_null_witness:
  "fst (XXH32_update XXH_default_config (snd (XXH32_reset 0)) (\<lambda>_. 0) 0 5) = XXH_ERROR \<and>
   snd (XXH32_update XXH_default_config (snd (XXH32_reset 0)) (\<lambda>_. 0) 0 5) = snd (XXH32_reset 0) \<and>
   fst (XXH32_update XXH_default_config (snd (XXH32_reset 0)) (\<lambda>_. 0) 64 5) = XXH_OK \<and>
   fst (XXH64_update XXH_default_config (snd (XXH64_reset 0)) (\<lambda>_. 0) 0 5) = XXH_ERROR \<and>
   snd (XXH64_update XXH_default_config (snd (XXH64_reset 0)) (\<lambda>_. 0) 0 5) = snd (XXH64_reset 0) \<and>
   fst (XXH64_update XXH_default_config (snd (XXH64_reset 0)) (\<lambda>_. 0) 64 5) = XXH_OK \<and>
   fst (XXH32a_update XXH_default_config (snd (XXH32a_reset 0)) (\<lambda>_. 0) 0 5) = XXH_ERROR \<and>
   snd (XXH32a_update XXH_default_config (snd (XXH32a_reset 0)) (\<lambda>_. 0) 0 5) = snd (XXH32a_reset 0) \<and>
   fst (XXH32a_update XXH_default_config (snd (XXH32a_reset 0)) (\<lambda>_. 0) 64 5) = XXH_OK \<and>
   fst (XXH64a_update XXH_default_config (snd (XXH64a_reset 0)) (\<lambda>_. 0) 0 5) = XXH_ERROR \<and>
   snd (XXH64a_update XXH_default_config (snd (XXH64a_reset 0)) (\<lambda>_. 0) 0 5) = snd (XXH64a_reset 0) \<and>
   fst (XXH64a_update XXH_default_config (snd (XXH64a_reset 0)) (\<lambda>_. 0) 64 5) = XXH_OK"
  using update_error_iff_null [of XXH_default_config "snd (XXH32_reset 0)" "\<lambda>_. 0" 0 5
          "snd (XXH64_reset 0)" "snd (XXH32a_reset 0)"]
        update_error_iff_null [of XXH_default_config "snd (XXH32_reset 0)" "\<lambda>_. 0" 0 5
          "snd (XXH64_reset 0)" "snd (XXH64a_reset 0)"]
        update_error_iff_null [of XXH_default_config "snd (XXH32_reset 0)" "\<lambda>_. 0" 64 5
          "snd (XXH64_reset 0)" "snd (XXH32a_reset 0)"]
        update_error_iff_null [of XXH_default_config "snd (XXH32_reset 0)" "\<lambda>_. 0" 64 5
          "snd (XXH64_reset 0)" "snd (XXH64a_reset 0)"]
  by (simp add: XXH_default_config_def)

section \<open>XXH64a against XXH64 (C6)\<close>

lemma XXH64_zeros32: "XXH64 XXH_default_config (\<lambda>_. 0) 64 32 0 = 17791961111430638837"
  by (simp add: XXH64_def XXH64_endian_align_def XXH64_accumulate_def XXH64_loop.simps
      XXH_eval_simps)

lemma XXH64a_zeros32: "XXH64a XXH_default_config (\<lambda>_. 0) 64 32 0 = 14369244281603999605"
  by (simp add: XXH64a_def XXH64a_accumulate_def XXH32a_XXH64a_endian_align_def
      XXH32a_loop.simps XXH64a_init_def XXH64a_seeds_def XXH64a_lanes_def XXH64a_join_def
      XXH_eval_simps)

text \<open>
  Claim C6. There are an input and a seed on which XXH64a returns a value different from
  XXH64: the two families are not bit-compatible. Here the input is 32 zero bytes (one
  full stripe, the shortest length at which the two functions take different paths) with
  seed 0, in the default build.
\<close>

theorem XXH64a_differs_from_XXH64:
  "XXH64a XXH_default_config (\<lambda>_. 0) 64 32 0 \<noteq> XXH64 XXH_default_config (\<lambda>_. 0) 64 32 0 \<and>
   (\<exists>m input len seed.
      XXH64a XXH_default_config m input len seed \<noteq> XXH64 XXH_default_config m input len seed)"
proof -
  have ne: "XXH64a XXH_default_config (\<lambda>_. 0) 64 32 0 \<noteq> XXH64 XXH_default_config (\<lambda>_. 0) 64 32 0"
    unfolding XXH64_zeros32 XXH64a_zeros32 by simp
  then show ?thesis by blast
qed

section \<open>Aligned and unaligned reads (C5)\<close>

lemma XXH_readLE32_align_indep:
  "XXH_CPU_LITTLE_ENDIAN c = XXH_CPU_LITTLE_ENDIAN c' \<Longrightarrow>
   XXH_readLE32_align c m p e a = XXH_readLE32 c' m p e"
  by (simp add: XXH_readLE32_align_def XXH_readLE32_def XXH_read32_def deref_U32_def)

lemma deref_U32_readLE32:
  "XXH_CPU_LITTLE_ENDIAN c = XXH_CPU_LITTLE_ENDIAN c' \<Longrightarrow>
   deref_U32 c m p = XXH_readLE32 c' m p XXH_littleEndian"
  by (simp add: XXH_readLE32_align_def XXH_readLE32_def XXH_read32_def deref_U32_def)

lemma XXH_readLE64_align_indep:
  "XXH_CPU_LITTLE_ENDIAN c = XXH_CPU_LITTLE_ENDIAN c' \<Longrightarrow>
   XXH_readLE64_align c m p e a = XXH_readLE64 c' m p e"
  by (simp add: XXH_readLE64_align_def XXH_readLE64_def XXH_read64_def deref_U64_def)

lemma deref_U64_readLE64:
  "XXH_CPU_LITTLE_ENDIAN c = XXH_CPU_LITTLE_ENDIAN c' \<Longrightarrow>
   deref_U64 c m p = XXH_readLE64 c' m p XXH_littleEndian"
  by (simp add: XXH_readLE64_align_def XXH_readLE64_def XXH_read64_def deref_U64_def)

lemma XXH32_finalize_switch_indep:
  "XXH_CPU_LITTLE_ENDIAN c = XXH_CPU_LITTLE_ENDIAN c' \<Longrightarrow>
   XXH32_finalize_switch c m e a n p h = XXH32_finalize_switch c' m e a' n p h"
proof (induction c m e a n p h rule: XXH32_finalize_switch.induct)
  case (1 c m e a n p h)
  have p4: "PROCESS4 c m e a p h = PROCESS4 c' m e a' p h"
    using "1.prems" by (simp add: PROCESS4_def XXH_readLE32_align_def XXH_read32_def deref_U32_def)
  show ?case
    using 1 p4
    by (subst XXH32_finalize_switch.simps, subst (2) XXH32_finalize_switch.simps) simp
qed

lemma XXH64_finalize_switch_indep:
  "XXH_CPU_LITTLE_ENDIAN c = XXH_CPU_LITTLE_ENDIAN c' \<Longrightarrow>
   XXH64_finalize_switch c m e a n p h = XXH64_finalize_switch c' m e a' n p h"
proof (induction c m e a n p h rule: XXH64_finalize_switch.induct)
  case (1 c m e a n p h)
  have p4: "PROCESS4_64 c m e a p h = PROCESS4_64 c' m e a' p h"
    using "1.prems" by (simp add: PROCESS4_64_def XXH_readLE32_align_def XXH_read32_def deref_U32_def)
  have p8: "PROCESS8_64 c m e a p h = PROCESS8_64 c' m e a' p h"
    using "1.prems" by (simp add: PROCESS8_64_def XXH_readLE64_align_def XXH_read64_def deref_U64_def)
  show ?case
    using 1 p4 p8
    by (subst XXH64_finalize_switch.simps, subst (2) XXH64_finalize_switch.simps) simp
qed

text \<open>Every stripe loop of the 32-bit one-shot reads through \<open>XXH_readLE32\<close>.\<close>

lemma XXH32_accumulate_canon:
  "XXH32_accumulate c m p len seed e a =
     (if 16 \<le> len
      then (case XXH32_loop (\<lambda>q. XXH_readLE32 c m q e) p (p + len - 15) (XXH32_init seed) of
              (p', v) \<Rightarrow> (p', XXH32_merge v))
      else (p, seed + PRIME32_5))"
proof -
  have r: "(\<lambda>q. XXH_readLE32_align c m q e a) = (\<lambda>q. XXH_readLE32 c m q e)"
    by (simp add: XXH_readLE32_align_indep [of c c])
  have d: "e = XXH_littleEndian \<Longrightarrow> deref_U32 c m = (\<lambda>q. XXH_readLE32 c m q e)"
    by (rule ext) (simp add: deref_U32_readLE32 [of c c])
  show ?thesis
    by (auto simp add: XXH32_accumulate_def Let_def r d)
qed

lemma XXH64_accumulate_canon:
  "XXH64_accumulate c m p len seed e a =
     (if 32 \<le> len
      then (case XXH64_loop (\<lambda>q. XXH_readLE64 c m q e) p (p + len - 32) (XXH64_init seed) of
              (p', v) \<Rightarrow> (p', XXH64_merge v))
      else (p, seed + PRIME64_5))"
proof -
  have r: "(\<lambda>q. XXH_readLE64_align c m q e a) = (\<lambda>q. XXH_readLE64 c m q e)"
    by (simp add: XXH_readLE64_align_indep [of c c])
  have d: "e = XXH_littleEndian \<Longrightarrow> deref_U64 c m = (\<lambda>q. XXH_readLE64 c m q e)"
    by (rule ext) (simp add: deref_U64_readLE64 [of c c])
  show ?thesis
    by (auto simp add: XXH64_accumulate_def Let_def r d)
qed

lemma XXH_readLE32_cfg: "XXH_readLE32 (c\<lparr>XXH_FORCE_ALIGN_CHECK := b\<rparr>) = XXH_readLE32 c"
  by (intro ext) (simp add: XXH_readLE32_def XXH_readLE32_align_def XXH_read32_def)

lemma XXH_readLE64_cfg: "XXH_readLE64 (c\<lparr>XXH_FORCE_ALIGN_CHECK := b\<rparr>) = XXH_readLE64 c"
  by (intro ext) (simp add: XXH_readLE64_def XXH_readLE64_align_def XXH_read64_def)

lemma XXH32_endian_align_indep:
  "XXH32_endian_align (c\<lparr>XXH_FORCE_ALIGN_CHECK := b\<rparr>) m input len seed e a =
   XXH32_endian_align c m input len seed e a'"
  by (simp add: XXH32_endian_align_def XXH32_accumulate_canon XXH32_finalize_def XXH_readLE32_cfg
      XXH32_finalize_switch_indep [where c = "c\<lparr>XXH_FORCE_ALIGN_CHECK := b\<rparr>" and c' = c and a = a and a' = a'])

lemma XXH64_endian_align_indep:
  "XXH64_endian_align (c\<lparr>XXH_FORCE_ALIGN_CHECK := b\<rparr>) m input len seed e a =
   XXH64_endian_align c m input len seed e a'"
  by (simp add: XXH64_endian_align_def XXH64_accumulate_canon XXH64_finalize_def XXH_readLE64_cfg
      XXH64_finalize_switch_indep [where c = "c\<lparr>XXH_FORCE_ALIGN_CHECK := b\<rparr>" and c' = c and a = a and a' = a'])

text \<open>
  Claim C5. For every input buffer, length and seed, the one-shot hash computed through
  the aligned-read path equals the hash computed through the unaligned-read path, and
  switching \<open>XXH_FORCE_ALIGN_CHECK\<close> on or off never changes the value returned by XXH32
  and XXH64. This holds for every host byte order and every setting of
  \<open>XXH_FORCE_NATIVE_FORMAT\<close>, portable little-endian mode included.
\<close>

theorem alignment_check_irrelevant:
  "XXH32_endian_align c m input len seed endian XXH_aligned
     = XXH32_endian_align c m input len seed endian XXH_unaligned \<and>
   XXH64_endian_align c m input len seed64 endian XXH_aligned
     = XXH64_endian_align c m input len seed64 endian XXH_unaligned \<and>
   XXH32 (c\<lparr>XXH_FORCE_ALIGN_CHECK := True\<rparr>) m input len seed
     = XXH32 (c\<lparr>XXH_FORCE_ALIGN_CHECK := False\<rparr>) m input len seed \<and>
   XXH64 (c\<lparr>XXH_FORCE_ALIGN_CHECK := True\<rparr>) m input len seed64
     = XXH64 (c\<lparr>XXH_FORCE_ALIGN_CHECK := False\<rparr>) m input len seed64"
proof -
  have f1: "XXH32_endian_align c m input len seed endian XXH_aligned
     = XXH32_endian_align c m input len seed endian XXH_unaligned"
    using XXH32_endian_align_indep [where c = c and b = "XXH_FORCE_ALIGN_CHECK c"] by simp
  have f2: "XXH64_endian_align c m input len seed64 endian XXH_aligned
     = XXH64_endian_align c m input len seed64 endian XXH_unaligned"
    using XXH64_endian_align_indep [where c = c and b = "XXH_FORCE_ALIGN_CHECK c"] by simp
  have f3: "XXH32 (c\<lparr>XXH_FORCE_ALIGN_CHECK := True\<rparr>) m input len seed
     = XXH32 (c\<lparr>XXH_FORCE_ALIGN_CHECK := False\<rparr>) m input len seed"
    by (simp add: XXH32_def XXH_endian_select_def
      XXH32_endian_align_indep [where c = c and a' = XXH_unaligned])
  have f4: "XXH64 (c\<lparr>XXH_FORCE_ALIGN_CHECK := True\<rparr>) m input len seed64
     = XXH64 (c\<lparr>XXH_FORCE_ALIGN_CHECK := False\<rparr>) m input len seed64"
    by (simp add: XXH64_def XXH_endian_select_def
      XXH64_endian_align_indep [where c = c and a' = XXH_unaligned])
  from f1 f2 f3 f4 show ?thesis by blast
qed

section \<open>Canonical representation (C2)\<close>

lemma swap32_masks:
  "(0xff000000 :: U32) = push_bit 24 (mask 8)" "(0x00ff0000 :: U32) = push_bit 16 (mask 8)"
  "(0x0000ff00 :: U32) = push_bit 8 (mask 8)" "(0x000000ff :: U32) = mask 8"
  by (simp_all add: mask_eq_decr_exp push_bit_eq_mult)

lemma byte_index_cases32 [case_names b0 b1 b2 b3 out]:
  fixes n :: nat
  obtains k where "n = k" "k < 8" | k where "n = 8 + k" "k < 8"
    | k where "n = 16 + k" "k < 8" | k where "n = 24 + k" "k < 8" | "32 \<le> n"
proof -
  consider "n < 8" | "8 \<le> n \<and> n < 16" | "16 \<le> n \<and> n < 24" | "24 \<le> n \<and> n < 32" | "32 \<le> n"
    by linarith
  then show thesis
  proof cases
    case 1 then show ?thesis using that(1) [of n] by auto
  next
    case 2 then show ?thesis using that(2) [of "n - 8"] by auto
  next
    case 3 then show ?thesis using that(3) [of "n - 16"] by auto
  next
    case 4 then show ?thesis using that(4) [of "n - 24"] by auto
  next
    case 5 then show ?thesis using that(5) by simp
  qed
qed

lemma bit_XXH_swap32:
  "k < 8 \<Longrightarrow> bit (XXH_swap32 x) k = bit x (24 + k)"
  "k < 8 \<Longrightarrow> bit (XXH_swap32 x) (8 + k) = bit x (16 + k)"
  "k < 8 \<Longrightarrow> bit (XXH_swap32 x) (16 + k) = bit x (8 + k)"
  "k < 8 \<Longrightarrow> bit (XXH_swap32 x) (24 + k) = bit x k"
  unfolding XXH_swap32_def swap32_masks by (simp_all add: bit_simps)

lemma XXH_swap32_swap32: "XXH_swap32 (XXH_swap32 x) = x"
proof (rule bit_eqI)
  fix n :: nat
  show "bit (XXH_swap32 (XXH_swap32 x)) n = bit x n"
  proof (cases n rule: byte_index_cases32)
    case out then show ?thesis by (auto dest: bit_imp_le_length)
  qed (simp_all add: bit_XXH_swap32)
qed

lemma bit_native32_LE:
  "k < 8 \<Longrightarrow> bit (native32 XXH_littleEndian b0 b1 b2 b3) k = bit b0 k"
  "k < 8 \<Longrightarrow> bit (native32 XXH_littleEndian b0 b1 b2 b3) (8 + k) = bit b1 k"
  "k < 8 \<Longrightarrow> bit (native32 XXH_littleEndian b0 b1 b2 b3) (16 + k) = bit b2 k"
  "k < 8 \<Longrightarrow> bit (native32 XXH_littleEndian b0 b1 b2 b3) (24 + k) = bit b3 k"
  unfolding native32_def by (auto simp add: bit_simps dest: bit_imp_le_length)

lemma bit_byte_of:
  "bit (ucast (drop_bit k (w :: U32)) :: BYTE) n \<longleftrightarrow> n < 8 \<and> bit w (k + n)"
  "bit (ucast (w :: U32) :: BYTE) n \<longleftrightarrow> n < 8 \<and> bit w n"
  by (auto simp add: bit_simps dest: bit_imp_le_length)

lemma native32_LE_bytes:
  "native32 XXH_littleEndian (ucast w) (ucast (drop_bit 8 w))
     (ucast (drop_bit 16 w)) (ucast (drop_bit 24 w)) = (w :: U32)"
proof (rule bit_eqI)
  fix n :: nat
  show "bit (native32 XXH_littleEndian (ucast w) (ucast (drop_bit 8 w))
     (ucast (drop_bit 16 w)) (ucast (drop_bit 24 w))) n = bit w n"
  proof (cases n rule: byte_index_cases32)
    case out then show ?thesis by (auto dest: bit_imp_le_length)
  qed (simp_all add: bit_native32_LE bit_simps)
qed

lemma native32_BE_bytes:
  "native32 XXH_bigEndian (ucast (drop_bit 24 w)) (ucast (drop_bit 16 w))
     (ucast (drop_bit 8 w)) (ucast w) = (w :: U32)"
  using native32_LE_bytes [of w] by (simp add: native32_def)

lemma store32_bytes:
  "store32 c m dst w dst = (if XXH_CPU_LITTLE_ENDIAN c = XXH_littleEndian then ucast w else ucast (drop_bit 24 w))"
  "store32 c m dst w (dst + 1) = (if XXH_CPU_LITTLE_ENDIAN c = XXH_littleEndian then ucast (drop_bit 8 w) else ucast (drop_bit 16 w))"
  "store32 c m dst w (dst + 2) = (if XXH_CPU_LITTLE_ENDIAN c = XXH_littleEndian then ucast (drop_bit 16 w) else ucast (drop_bit 8 w))"
  "store32 c m dst w (dst + 3) = (if XXH_CPU_LITTLE_ENDIAN c = XXH_littleEndian then ucast (drop_bit 24 w) else ucast w)"
  by (simp_all add: store32_def)

lemma XXH_read32_store32: "XXH_read32 c (store32 c m dst w) dst = w"
proof (cases "XXH_CPU_LITTLE_ENDIAN c")
  case XXH_bigEndian
  then show ?thesis
    unfolding XXH_read32_def store32_bytes using native32_BE_bytes [of w] by simp
next
  case XXH_littleEndian
  then show ?thesis
    unfolding XXH_read32_def store32_bytes using native32_LE_bytes [of w] by simp
qed

lemma swap64_masks:
  "(0xff00000000000000 :: U64) = push_bit 56 (mask 8)"
  "(0x00ff000000000000 :: U64) = push_bit 48 (mask 8)"
  "(0x0000ff0000000000 :: U64) = push_bit 40 (mask 8)"
  "(0x000000ff00000000 :: U64) = push_bit 32 (mask 8)"
  "(0x00000000ff000000 :: U64) = push_bit 24 (mask 8)"
  "(0x0000000000ff0000 :: U64) = push_bit 16 (mask 8)"
  "(0x000000000000ff00 :: U64) = push_bit 8 (mask 8)"
  "(0x00000000000000ff :: U64) = mask 8"
  by (simp_all add: mask_eq_decr_exp push_bit_eq_mult)

lemma byte_index_cases64 [case_names b0 b1 b2 b3 b4 b5 b6 b7 out]:
  fixes n :: nat
  obtains k where "n = k" "k < 8" | k where "n = 8 + k" "k < 8"
    | k where "n = 16 + k" "k < 8" | k where "n = 24 + k" "k < 8"
    | k where "n = 32 + k" "k < 8" | k where "n = 40 + k" "k < 8"
    | k where "n = 48 + k" "k < 8" | k where "n = 56 + k" "k < 8" | "64 \<le> n"
proof -
  consider "n < 8" | "8 \<le> n \<and> n < 16" | "16 \<le> n \<and> n < 24" | "24 \<le> n \<and> n < 32"
    | "32 \<le> n \<and> n < 40" | "40 \<le> n \<and> n < 48" | "48 \<le> n \<and> n < 56" | "56 \<le> n \<and> n < 64"
    | "64 \<le> n"
    by linarith
  then show thesis
  proof cases
    case 1 then show ?thesis using that(1) [of n] by auto
  next
    case 2 then show ?thesis using that(2) [of "n - 8"] by auto
  next
    case 3 then show ?thesis using that(3) [of "n - 16"] by auto
  next
    case 4 then show ?thesis using that(4) [of "n - 24"] by auto
  next
    case 5 then show ?thesis using that(5) [of "n - 32"] by auto
  next
    case 6 then show ?thesis using that(6) [of "n - 40"] by auto
  next
    case 7 then show ?thesis using that(7) [of "n - 48"] by auto
  next
    case 8 then show ?thesis using that(8) [of "n - 56"] by auto
  next
    case 9 then show ?thesis using that(9) by simp
  qed
qed

lemma bit_XXH_swap64:
  "k < 8 \<Longrightarrow> bit (XXH_swap64 x) k = bit x (56 + k)"
  "k < 8 \<Longrightarrow> bit (XXH_swap64 x) (8 + k) = bit x (48 + k)"
  "k < 8 \<Longrightarrow> bit (XXH_swap64 x) (16 + k) = bit x (40 + k)"
  "k < 8 \<Longrightarrow> bit (XXH_swap64 x) (24 + k) = bit x (32 + k)"
  "k < 8 \<Longrightarrow> bit (XXH_swap64 x) (32 + k) = bit x (24 + k)"
  "k < 8 \<Longrightarrow> bit (XXH_swap64 x) (40 + k) = bit x (16 + k)"
  "k < 8 \<Longrightarrow> bit (XXH_swap64 x) (48 + k) = bit x (8 + k)"
  "k < 8 \<Longrightarrow> bit (XXH_swap64 x) (56 + k) = bit x k"
  unfolding XXH_swap64_def swap64_masks by (simp_all add: bit_simps)

lemma XXH_swap64_swap64: "XXH_swap64 (XXH_swap64 x) = x"
proof (rule bit_eqI)
  fix n :: nat
  show "bit (XXH_swap64 (XXH_swap64 x)) n = bit x n"
  proof (cases n rule: byte_index_cases64)
    case out then show ?thesis by (auto dest: bit_imp_le_length)
  qed (simp_all add: bit_XXH_swap64)
qed

lemma bit_native64_LE:
  "k < 8 \<Longrightarrow> bit (native64 XXH_littleEndian m p) k = bit (m p) k"
  "k < 8 \<Longrightarrow> bit (native64 XXH_littleEndian m p) (8 + k) = bit (m (p + 1)) k"
  "k < 8 \<Longrightarrow> bit (native64 XXH_littleEndian m p) (16 + k) = bit (m (p + 2)) k"
  "k < 8 \<Longrightarrow> bit (native64 XXH_littleEndian m p) (24 + k) = bit (m (p + 3)) k"
  "k < 8 \<Longrightarrow> bit (native64 XXH_littleEndian m p) (32 + k) = bit (m (p + 4)) k"
  "k < 8 \<Longrightarrow> bit (native64 XXH_littleEndian m p) (40 + k) = bit (m (p + 5)) k"
  "k < 8 \<Longrightarrow> bit (native64 XXH_littleEndian m p) (48 + k) = bit (m (p + 6)) k"
  "k < 8 \<Longrightarrow> bit (native64 XXH_littleEndian m p) (56 + k) = bit (m (p + 7)) k"
  unfolding native64_def by (auto simp add: bit_simps dest: bit_imp_le_length)

lemma bit_native64_BE:
  "k < 8 \<Longrightarrow> bit (native64 XXH_bigEndian m p) k = bit (m (p + 7)) k"
  "k < 8 \<Longrightarrow> bit (native64 XXH_bigEndian m p) (8 + k) = bit (m (p + 6)) k"
  "k < 8 \<Longrightarrow> bit (native64 XXH_bigEndian m p) (16 + k) = bit (m (p + 5)) k"
  "k < 8 \<Longrightarrow> bit (native64 XXH_bigEndian m p) (24 + k) = bit (m (p + 4)) k"
  "k < 8 \<Longrightarrow> bit (native64 XXH_bigEndian m p) (32 + k) = bit (m (p + 3)) k"
  "k < 8 \<Longrightarrow> bit (native64 XXH_bigEndian m p) (40 + k) = bit (m (p + 2)) k"
  "k < 8 \<Longrightarrow> bit (native64 XXH_bigEndian m p) (48 + k) = bit (m (p + 1)) k"
  "k < 8 \<Longrightarrow> bit (native64 XXH_bigEndian m p) (56 + k) = bit (m p) k"
  unfolding native64_def by (auto simp add: bit_simps dest: bit_imp_le_length)

lemma store64_bytes:
  "j < 8 \<Longrightarrow> store64 c m dst w (dst + j) =
     (if XXH_CPU_LITTLE_ENDIAN c = XXH_littleEndian then ucast (drop_bit (8 * j) w)
      else ucast (drop_bit (8 * (7 - j)) w))"
  "store64 c m dst w dst =
     (if XXH_CPU_LITTLE_ENDIAN c = XXH_littleEndian then ucast w else ucast (drop_bit 56 w))"
  "store64 c m dst w (Suc dst) =
     (if XXH_CPU_LITTLE_ENDIAN c = XXH_littleEndian then ucast (drop_bit 8 w)
      else ucast (drop_bit 48 w))"
  "store64 c m dst w (Suc (Suc dst)) =
     (if XXH_CPU_LITTLE_ENDIAN c = XXH_littleEndian then ucast (drop_bit 16 w)
      else ucast (drop_bit 40 w))"
  by (simp_all add: store64_def)

lemma XXH_read64_store64: "XXH_read64 c (store64 c m dst w) dst = w"
proof (rule bit_eqI)
  fix n :: nat
  show "bit (XXH_read64 c (store64 c m dst w) dst) n = bit w n"
  proof (cases "XXH_CPU_LITTLE_ENDIAN c")
    case XXH_bigEndian
    show ?thesis
    proof (cases n rule: byte_index_cases64)
      case out then show ?thesis by (auto dest: bit_imp_le_length)
    qed (simp_all add: XXH_read64_def XXH_bigEndian bit_native64_BE store64_bytes bit_simps)
  next
    case XXH_littleEndian
    show ?thesis
    proof (cases n rule: byte_index_cases64)
      case out then show ?thesis by (auto dest: bit_imp_le_length)
    qed (simp_all add: XXH_read64_def XXH_littleEndian bit_native64_LE store64_bytes bit_simps)
  qed
qed

lemma byte_eqI: "(\<And>k. k < 8 \<Longrightarrow> bit a k = bit b k) \<Longrightarrow> a = (b :: BYTE)"
  by (rule bit_eqI) (auto dest: bit_imp_le_length)

lemma XXH32_canonical_big_endian:
  "XXH32_canonicalFromHash c m dst h dst = ucast (drop_bit 24 h) \<and>
   XXH32_canonicalFromHash c m dst h (dst + 1) = ucast (drop_bit 16 h) \<and>
   XXH32_canonicalFromHash c m dst h (dst + 2) = ucast (drop_bit 8 h) \<and>
   XXH32_canonicalFromHash c m dst h (dst + 3) = ucast h"
proof (cases "XXH_CPU_LITTLE_ENDIAN c")
  case XXH_bigEndian
  then show ?thesis by (simp add: XXH32_canonicalFromHash_def store32_def)
next
  case XXH_littleEndian
  have b0: "(ucast (XXH_swap32 h) :: BYTE) = ucast (drop_bit 24 h)"
    by (rule byte_eqI) (simp add: bit_simps bit_XXH_swap32)
  have b1: "(ucast (drop_bit 8 (XXH_swap32 h)) :: BYTE) = ucast (drop_bit 16 h)"
    by (rule byte_eqI) (simp add: bit_simps bit_XXH_swap32)
  have b2: "(ucast (drop_bit 16 (XXH_swap32 h)) :: BYTE) = ucast (drop_bit 8 h)"
    by (rule byte_eqI) (simp add: bit_simps bit_XXH_swap32)
  have b3: "(ucast (drop_bit 24 (XXH_swap32 h)) :: BYTE) = ucast h"
    by (rule byte_eqI) (simp add: bit_simps bit_XXH_swap32)
  from XXH_littleEndian show ?thesis
    by (simp add: XXH32_canonicalFromHash_def store32_def Let_def b0 b1 b2 b3)
qed

lemma XXH64_canonical_big_endian:
  "XXH64_canonicalFromHash c m dst h dst = ucast (drop_bit 56 h) \<and>
   XXH64_canonicalFromHash c m dst h (dst + 1) = ucast (drop_bit 48 h) \<and>
   XXH64_canonicalFromHash c m dst h (dst + 2) = ucast (drop_bit 40 h) \<and>
   XXH64_canonicalFromHash c m dst h (dst + 3) = ucast (drop_bit 32 h) \<and>
   XXH64_canonicalFromHash c m dst h (dst + 4) = ucast (drop_bit 24 h) \<and>
   XXH64_canonicalFromHash c m dst h (dst + 5) = ucast (drop_bit 16 h) \<and>
   XXH64_canonicalFromHash c m dst h (dst + 6) = ucast (drop_bit 8 h) \<and>
   XXH64_canonicalFromHash c m dst h (dst + 7) = ucast h"
proof (cases "XXH_CPU_LITTLE_ENDIAN c")
  case XXH_bigEndian
  then show ?thesis by (simp add: XXH64_canonicalFromHash_def store64_def)
next
  case XXH_littleEndian
  have b0: "(ucast (XXH_swap64 h) :: BYTE) = ucast (drop_bit 56 h)"
    by (rule byte_eqI) (simp add: bit_simps bit_XXH_swap64)
  have b1: "(ucast (drop_bit 8 (XXH_swap64 h)) :: BYTE) = ucast (drop_bit 48 h)"
    by (rule byte_eqI) (simp add: bit_simps bit_XXH_swap64)
  have b2: "(ucast (drop_bit 16 (XXH_swap64 h)) :: BYTE) = ucast (drop_bit 40 h)"
    by (rule byte_eqI) (simp add: bit_simps bit_XXH_swap64)
  have b3: "(ucast (drop_bit 24 (XXH_swap64 h)) :: BYTE) = ucast (drop_bit 32 h)"
    by (rule byte_eqI) (simp add: bit_simps bit_XXH_swap64)
  have b4: "(ucast (drop_bit 32 (XXH_swap64 h)) :: BYTE) = ucast (drop_bit 24 h)"
    by (rule byte_eqI) (simp add: bit_simps bit_XXH_swap64)
  have b5: "(ucast (drop_bit 40 (XXH_swap64 h)) :: BYTE) = ucast (drop_bit 16 h)"
    by (rule byte_eqI) (simp add: bit_simps bit_XXH_swap64)
  have b6: "(ucast (drop_bit 48 (XXH_swap64 h)) :: BYTE) = ucast (drop_bit 8 h)"
    by (rule byte_eqI) (simp add: bit_simps bit_XXH_swap64)
  have b7: "(ucast (drop_bit 56 (XXH_swap64 h)) :: BYTE) = ucast h"
    by (rule byte_eqI) (simp add: bit_simps bit_XXH_swap64)
  from XXH_littleEndian show ?thesis
    by (simp add: XXH64_canonicalFromHash_def store64_def Let_def b0 b1 b2 b3 b4 b5 b6 b7)
qed

text \<open>
  The two lemmas above: on every host the canonical form holds the most significant
  byte of the hash at the lowest address.
\<close>

text \<open>
  Claim C2. For every hash value \<open>h\<close>, 32-bit or 64-bit, writing \<open>h\<close> in canonical form
  at an address and reading the canonical form back from that address yields \<open>h\<close>, on
  little-endian and on big-endian hosts.
\<close>

theorem canonical_roundtrip:
  "XXH32_hashFromCanonical c (XXH32_canonicalFromHash c m dst h32) dst = h32 \<and>
   XXH64_hashFromCanonical c (XXH64_canonicalFromHash c m dst h64) dst = h64"
  by (simp add: XXH32_hashFromCanonical_def XXH32_canonicalFromHash_def XXH_readBE32_def
      XXH_read32_store32 XXH_swap32_swap32
      XXH64_hashFromCanonical_def XXH64_canonicalFromHash_def XXH_readBE64_def
      XXH_read64_store64 XXH_swap64_swap64)

section \<open>The pending-byte count (C9)\<close>

lemma XXH32_update_loop_exit: "limit < fst (XXH32_update_loop rd p limit v)"
proof (induction rd p limit v rule: XXH32_update_loop.induct)
  case (1 rd p limit v)
  then show ?case by (subst XXH32_update_loop.simps) simp
qed

lemma XXH64_loop_exit: "limit < fst (XXH64_loop rd p limit v)"
proof (induction rd p limit v rule: XXH64_loop.induct)
  case (1 rd p limit v)
  then show ?case by (subst XXH64_loop.simps) simp
qed

lemma XXH32a_update_loop_exit: "limit < fst (XXH32a_update_loop rd p limit v)"
proof (induction rd p limit v rule: XXH32a_update_loop.induct)
  case (1 rd p limit v)
  then show ?case by (subst XXH32a_update_loop.simps) simp
qed

lemma unat_of_nat_small32: "n < 4294967296 \<Longrightarrow> unat (of_nat n :: U32) = n"
  by (simp add: unat_of_nat)

lemma unat_add_of_nat32: "unat (w :: U32) + n < 4294967296 \<Longrightarrow> unat (w + of_nat n) = unat w + n"
  by (simp add: unat_word_ariths unat_of_nat)

lemma s32_set_lanes_memsize [simp]: "s32_memsize (s32_set_lanes v st) = s32_memsize st"
  by (simp add: s32_set_lanes_def split: prod.splits)

lemma s64_set_lanes_memsize [simp]: "s64_memsize (s64_set_lanes v st) = s64_memsize st"
  by (simp add: s64_set_lanes_def split: prod.splits)

lemma XXH32_update_loop_exitD: "XXH32_update_loop rd p limit v = (p', v') \<Longrightarrow> limit < p'"
  using XXH32_update_loop_exit [of limit rd p v] by simp

lemma XXH64_loop_exitD: "XXH64_loop rd p limit v = (p', v') \<Longrightarrow> limit < p'"
  using XXH64_loop_exit [of limit rd p v] by simp

lemma XXH32a_update_loop_exitD: "XXH32a_update_loop rd p limit v = (p', v') \<Longrightarrow> limit < p'"
  using XXH32a_update_loop_exit [of limit rd p v] by simp

lemma XXH32_update_stripes_rest:
  "XXH32_update_stripes c st m p bEnd e = (st', p') \<Longrightarrow>
     s32_memsize st' = s32_memsize st \<and> bEnd - p' < 16"
  by (auto simp add: XXH32_update_stripes_def Let_def split: prod.splits if_splits
      dest!: XXH32_update_loop_exitD)

lemma XXH32_update_memsize:
  assumes "input \<noteq> 0"
  shows "unat (s32_memsize (snd (XXH32_update_endian c st m input len e))) < 16"
proof -
  obtain st1 p1 where f: "XXH32_update_fill c
       (st\<lparr>s32_total_len_32 := s32_total_len_32 st + of_nat len,
           s32_large_len := s32_large_len st OR
              (of_bool (16 \<le> len) OR of_bool (16 \<le> s32_total_len_32 st + of_nat len))\<rparr>)
       m input e = (st1, p1)"
    by (cases "XXH32_update_fill c
       (st\<lparr>s32_total_len_32 := s32_total_len_32 st + of_nat len,
           s32_large_len := s32_large_len st OR
              (of_bool (16 \<le> len) OR of_bool (16 \<le> s32_total_len_32 st + of_nat len))\<rparr>)
       m input e") 
  obtain st2 p2 where g: "XXH32_update_stripes c (st1\<lparr>s32_memsize := 0\<rparr>) m p1 (input + len) e = (st2, p2)"
    by (cases "XXH32_update_stripes c (st1\<lparr>s32_memsize := 0\<rparr>) m p1 (input + len) e")
  from XXH32_update_stripes_rest [OF g]
  have r: "s32_memsize st2 = 0" "input + len - p2 < 16" by simp_all
  then have u: "unat (of_nat (input + len - p2) :: U32) = input + len - p2"
    by (simp add: unat_of_nat_small32 del: of_nat_diff)
  show ?thesis
    using assms f g r u
    by (simp add: XXH32_update_endian_def Let_def unat_add_of_nat32 del: of_nat_diff)
qed

lemma XXH32_update_keeps_memsize:
  "unat (s32_memsize st) < 16 \<Longrightarrow> unat (s32_memsize (snd (XXH32_update c st m input len))) < 16"
  by (cases "input = 0")
     (simp_all add: XXH32_update_def XXH32_update_memsize XXH32_update_endian_null)

lemma XXH32_run_memsize:
  "unat (s32_memsize st) < 16 \<Longrightarrow>
     unat (s32_memsize (XXH_run XXH32_reset (XXH32_update c) st cs)) < 16"
proof (induction cs arbitrary: st)
  case Nil
  then show ?case by simp
next
  case (Cons a cs)
  show ?case
  proof (cases a)
    case (Reset seed)
    have "unat (s32_memsize (snd (XXH32_reset seed))) < 16" by (simp add: XXH32_reset_def)
    with Cons.IH Reset show ?thesis by simp
  next
    case (Update m input len)
    with Cons.IH XXH32_update_keeps_memsize [OF Cons.prems] show ?thesis by simp
  qed
qed


lemma XXH64_update_fill_memsize: "s64_memsize (fst (XXH64_update_fill c st m p e)) = 0"
  by (simp add: XXH64_update_fill_def Let_def)

lemma XXH64_update_stripes_rest:
  "XXH64_update_stripes c st m p bEnd e = (st', p') \<Longrightarrow>
     s64_memsize st' = s64_memsize st \<and> bEnd - p' < 32"
  by (auto simp add: XXH64_update_stripes_def Let_def split: prod.splits if_splits
      dest!: XXH64_loop_exitD)

lemma XXH64_update_memsize:
  assumes "input \<noteq> 0"
  shows "unat (s64_memsize (snd (XXH64_update_endian c st m input len e))) < 32"
proof -
  obtain st1 p1 where f: "XXH64_update_fill c
       (st\<lparr>s64_total_len := s64_total_len st + of_nat len\<rparr>) m input e = (st1, p1)"
    by (cases "XXH64_update_fill c
       (st\<lparr>s64_total_len := s64_total_len st + of_nat len\<rparr>) m input e")
  obtain st2 p2 where g: "XXH64_update_stripes c st1 m p1 (input + len) e = (st2, p2)"
    by (cases "XXH64_update_stripes c st1 m p1 (input + len) e")
  from XXH64_update_fill_memsize [of c "st\<lparr>s64_total_len := s64_total_len st + of_nat len\<rparr>" m input e] f
  have z: "s64_memsize st1 = 0" by simp
  from XXH64_update_stripes_rest [OF g] z
  have r: "s64_memsize st2 = 0" "input + len - p2 < 32" by simp_all
  then have u: "unat (of_nat (input + len - p2) :: U32) = input + len - p2"
    by (simp add: unat_of_nat_small32 del: of_nat_diff)
  show ?thesis
    using assms f g r u
    by (simp add: XXH64_update_endian_def Let_def unat_add_of_nat32 del: of_nat_diff)
qed

lemma XXH64_update_keeps_memsize:
  "unat (s64_memsize st) < 32 \<Longrightarrow> unat (s64_memsize (snd (XXH64_update c st m input len))) < 32"
  by (cases "input = 0")
     (simp_all add: XXH64_update_def XXH64_update_memsize XXH64_update_endian_null)

lemma XXH64_run_memsize:
  "unat (s64_memsize st) < 32 \<Longrightarrow>
     unat (s64_memsize (XXH_run XXH64_reset (XXH64_update c) st cs)) < 32"
proof (induction cs arbitrary: st)
  case Nil
  then show ?case by simp
next
  case (Cons a cs)
  show ?case
  proof (cases a)
    case (Reset seed)
    have "unat (s64_memsize (snd (XXH64_reset seed))) < 32" by (simp add: XXH64_reset_def)
    with Cons.IH Reset show ?thesis by simp
  next
    case (Update m input len)
    with Cons.IH XXH64_update_keeps_memsize [OF Cons.prems] show ?thesis by simp
  qed
qed

lemma XXH32a_update_fill_rest:
  "XXH32a_update_fill c st m p e = (st', p') \<Longrightarrow> sa_memsize st' = 0 \<and> p \<le> p'"
  by (auto simp add: XXH32a_update_fill_def Let_def split: if_splits)

lemma XXH32a_update_stripes_rest:
  "XXH32a_update_stripes c st m p bEnd len e = (st', p') \<Longrightarrow>
     sa_memsize st' = sa_memsize st \<and> (32 \<le> len \<longrightarrow> bEnd - p' < 32) \<and> (len < 32 \<longrightarrow> p' = p)"
  by (auto simp add: XXH32a_update_stripes_def Let_def split: prod.splits if_splits
      dest!: XXH32a_update_loop_exitD)

lemma XXH32a_update_memsize:
  assumes "input \<noteq> 0"
  shows "unat (sa_memsize (snd (XXH32a_XXH64a_update_endian c st m input len e))) < 32"
proof -
  obtain st1 p1 where f: "XXH32a_update_fill c
       (st\<lparr>sa_total_len_32 := sa_total_len_32 st + of_nat len,
           sa_large_len := sa_large_len st OR
              (of_bool (32 \<le> len) OR of_bool (32 \<le> sa_total_len_32 st + of_nat len))\<rparr>)
       m input e = (st1, p1)"
    by (cases "XXH32a_update_fill c
       (st\<lparr>sa_total_len_32 := sa_total_len_32 st + of_nat len,
           sa_large_len := sa_large_len st OR
              (of_bool (32 \<le> len) OR of_bool (32 \<le> sa_total_len_32 st + of_nat len))\<rparr>)
       m input e")
  obtain st2 p2 where g: "XXH32a_update_stripes c st1 m p1 (input + len) len e = (st2, p2)"
    by (cases "XXH32a_update_stripes c st1 m p1 (input + len) len e")
  from XXH32a_update_fill_rest [OF f] have z: "sa_memsize st1 = 0" "input \<le> p1" by simp_all
  from XXH32a_update_stripes_rest [OF g] z
  have r: "sa_memsize st2 = 0" "input + len - p2 < 32"
    by (simp, cases "32 \<le> len") auto
  then have u: "unat (of_nat (input + len - p2) :: U32) = input + len - p2"
    by (simp add: unat_of_nat_small32 del: of_nat_diff)
  show ?thesis
    using assms f g r u
    by (simp add: XXH32a_XXH64a_update_endian_def Let_def unat_add_of_nat32 del: of_nat_diff)
qed

lemma XXH32a_update_keeps_memsize:
  "unat (sa_memsize st) < 32 \<Longrightarrow> unat (sa_memsize (snd (XXH32a_update c st m input len))) < 32"
  by (cases "input = 0")
     (simp_all add: XXH32a_update_def XXH32a_update_memsize XXH32a_update_endian_null)

lemma XXH32a_run_memsize:
  "unat (sa_memsize st) < 32 \<Longrightarrow> (\<And>seed. sa_memsize (snd (rst seed)) = 0) \<Longrightarrow>
     unat (sa_memsize (XXH_run rst (XXH32a_update c) st cs)) < 32"
proof (induction cs arbitrary: st)
  case Nil
  then show ?case by simp
next
  case (Cons a cs)
  show ?case
  proof (cases a)
    case (Reset seed)
    have "unat (sa_memsize (snd (rst seed))) < 32" by (simp add: Cons.prems(2))
    with Cons.IH Cons.prems(2) Reset show ?thesis by simp
  next
    case (Update m input len)
    with Cons.IH Cons.prems(2) XXH32a_update_keeps_memsize [OF Cons.prems(1)] show ?thesis by simp
  qed
qed

text \<open>
  Claim C9. After every sequence of \<open>reset\<close> and \<open>update\<close> calls that starts with a
  \<open>reset\<close>, whatever the state object held before, the pending-byte count \<open>memsize\<close> is
  below one block: 16 bytes for XXH32, 32 bytes for XXH64, XXH32a and XXH64a. As the
  sequence is arbitrary, this holds at the end of every call; an \<open>update\<close> that returns
  \<open>XXH_ERROR\<close> leaves the state as it was.
\<close>

theorem memsize_below_block:
  "unat (s32_memsize (XXH_run XXH32_reset (XXH32_update c) s32 (Reset seed32 # cs32))) < 16 \<and>
   unat (s64_memsize (XXH_run XXH64_reset (XXH64_update c) s64 (Reset seed64 # cs64))) < 32 \<and>
   unat (sa_memsize (XXH_run XXH32a_reset (XXH32a_update c) sa (Reset seed32 # cs32))) < 32 \<and>
   unat (sa_memsize (XXH_run XXH64a_reset (XXH64a_update c) sa (Reset seed64 # cs64))) < 32"
proof -
  have a: "unat (s32_memsize (XXH_run XXH32_reset (XXH32_update c) s32 (Reset seed32 # cs32))) < 16"
    by (simp add: XXH32_run_memsize XXH32_reset_def)
  have b: "unat (s64_memsize (XXH_run XXH64_reset (XXH64_update c) s64 (Reset seed64 # cs64))) < 32"
    by (simp add: XXH64_run_memsize XXH64_reset_def)
  have d: "unat (sa_memsize (XXH_run XXH32a_reset (XXH32a_update c) sa (Reset seed32 # cs32))) < 32"
    by (simp add: XXH32a_run_memsize XXH32a_reset_def)
  have "XXH64a_update c = XXH32a_update c"
    by (intro ext) (simp add: XXH64a_update_def)
  then have e: "unat (sa_memsize (XXH_run XXH64a_reset (XXH64a_update c) sa (Reset seed64 # cs64))) < 32"
    by (simp add: XXH32a_run_memsize XXH64a_reset_def)
  from a b d e show ?thesis by blast
qed

section \<open>The length folded into the 64-bit hashes (C10)\<close>

lemma ucast_of_nat_32_64: "(ucast (of_nat n :: U32) :: U64) = of_nat (n mod 2 ^ 32)"
proof -
  have "(ucast (of_nat n :: U32) :: U64) = of_nat (unat (of_nat n :: U32))"
    by simp
  then show ?thesis by (simp add: unat_of_nat)
qed

lemma of_nat_mod_64: "(of_nat (n mod 2 ^ 64) :: U64) = of_nat n"
  unfolding word_of_nat_eq_iff by (simp add: take_bit_eq_mod)

text \<open>
  Claim C10. XXH64a folds the consumed length into the 64-bit hash modulo \<open>2^32\<close>: the
  one-shot function adds \<open>(U32)len\<close>, which is \<open>len mod 2^32\<close>, and the streaming digest
  adds the running total \<open>total_len_32\<close>, a 32-bit counter to which every accepted update
  adds its length modulo \<open>2^32\<close>. Base XXH64 adds the length as a 64-bit value: the
  one-shot function adds \<open>len mod 2^64\<close> and the digest the 64-bit counter \<open>total_len\<close>.
\<close>

theorem XXH64a_length_mod_2_32:
  "XXH64a c m input len seed =
     (let endian = XXH_endian_select c;
          align = (if input mod 4 = 0 then XXH_aligned else XXH_unaligned);
          (p, n) = (if XXH_ACCEPT_NULL_INPUT_POINTER c \<and> input = 0 then (32, 0) else (input, len));
          (p, h64) = XXH64a_accumulate c m p n seed endian align
      in XXH64_finalize c m (h64 + of_nat (n mod 2 ^ 32)) p (n mod 32) endian align) \<and>
   XXH64a_digest_endian c sa endian =
     XXH64_finalize c (sa_mem32 sa) (XXH64a_digest_acc sa + of_nat (unat (sa_total_len_32 sa))) 0
       (unat (sa_memsize sa)) endian XXH_aligned \<and>
   unat (sa_total_len_32 sa) < 2 ^ 32 \<and>
   unat (sa_total_len_32 (snd (XXH64a_update c sa m input len))) =
     (if input = 0 then unat (sa_total_len_32 sa) else (unat (sa_total_len_32 sa) + len) mod 2 ^ 32) \<and>
   XXH64_endian_align c m input len seed endian align =
     (let (p, n) = (if XXH_ACCEPT_NULL_INPUT_POINTER c \<and> input = 0 then (32, 0) else (input, len));
          (p, h64) = XXH64_accumulate c m p n seed endian align
      in XXH64_finalize c m (h64 + of_nat (n mod 2 ^ 64)) p n endian align) \<and>
   XXH64_digest_endian c s64 endian =
     XXH64_finalize c (s64_mem64 s64) (XXH64_digest_acc s64 + of_nat (unat (s64_total_len s64))) 0
       (unat (s64_total_len s64)) endian XXH_aligned \<and>
   unat (s64_total_len (snd (XXH64_update c s64 m input len))) =
     (if input = 0 then unat (s64_total_len s64) else (unat (s64_total_len s64) + len) mod 2 ^ 64)"
proof -
  have a: "XXH64a c m input len seed =
     (let endian = XXH_endian_select c;
          align = (if input mod 4 = 0 then XXH_aligned else XXH_unaligned);
          (p, n) = (if XXH_ACCEPT_NULL_INPUT_POINTER c \<and> input = 0 then (32, 0) else (input, len));
          (p, h64) = XXH64a_accumulate c m p n seed endian align
      in XXH64_finalize c m (h64 + of_nat (n mod 2 ^ 32)) p (n mod 32) endian align)"
    unfolding XXH64a_def ucast_of_nat_32_64 by simp
  have b: "XXH64a_digest_endian c sa endian =
     XXH64_finalize c (sa_mem32 sa) (XXH64a_digest_acc sa + of_nat (unat (sa_total_len_32 sa))) 0
       (unat (sa_memsize sa)) endian XXH_aligned"
    by (simp add: XXH64a_digest_endian_def)
  have b': "unat (sa_total_len_32 sa) < 2 ^ 32"
    using unsigned_less [of "sa_total_len_32 sa"] by simp
  have t: "sa_total_len_32 (snd (XXH32a_XXH64a_update_endian c sa m input len e)) =
     (if input = 0 then sa_total_len_32 sa else sa_total_len_32 sa + of_nat len)" for e
    by (simp add: XXH32a_XXH64a_update_endian_def Let_def XXH32a_update_fill_def
        XXH32a_update_stripes_def split: prod.splits)
  have d: "unat (sa_total_len_32 (snd (XXH64a_update c sa m input len))) =
     (if input = 0 then unat (sa_total_len_32 sa) else (unat (sa_total_len_32 sa) + len) mod 2 ^ 32)"
    by (simp add: XXH64a_update_def XXH32a_update_def t unat_word_ariths unat_of_nat mod_simps)
  have e: "XXH64_endian_align c m input len seed endian align =
     (let (p, n) = (if XXH_ACCEPT_NULL_INPUT_POINTER c \<and> input = 0 then (32, 0) else (input, len));
          (p, h64) = XXH64_accumulate c m p n seed endian align
      in XXH64_finalize c m (h64 + of_nat (n mod 2 ^ 64)) p n endian align)"
    unfolding XXH64_endian_align_def of_nat_mod_64 by simp
  have f: "XXH64_digest_endian c s64 endian =
     XXH64_finalize c (s64_mem64 s64) (XXH64_digest_acc s64 + of_nat (unat (s64_total_len s64))) 0
       (unat (s64_total_len s64)) endian XXH_aligned"
    by (simp add: XXH64_digest_endian_def)
  have t64: "s64_total_len (snd (XXH64_update_endian c s64 m input len e)) =
     (if input = 0 then s64_total_len s64 else s64_total_len s64 + of_nat len)" for e
    by (simp add: XXH64_update_endian_def Let_def XXH64_update_fill_def s64_set_lanes_def
        XXH64_update_stripes_def split: prod.splits)
  have g: "unat (s64_total_len (snd (XXH64_update c s64 m input len))) =
     (if input = 0 then unat (s64_total_len s64) else (unat (s64_total_len s64) + len) mod 2 ^ 64)"
    by (simp add: XXH64_update_def t64 unat_word_ariths unat_of_nat mod_simps)
  from a b b' d e f g show ?thesis by blast
qed

section \<open>Copies of a state (C8)\<close>

lemma XXH_updates_at_same:
  "XXH_updates_at upd \<sigma> h us h = XXH_updates upd (\<sigma> h) us"
  by (induction us arbitrary: \<sigma>) (auto simp add: XXH_at_def split: prod.splits)

lemma XXH_updates_at_other:
  "h' \<noteq> h \<Longrightarrow> XXH_updates_at upd \<sigma> h us h' = \<sigma> h'"
  by (induction us arbitrary: \<sigma>) (auto simp add: XXH_at_def split: prod.splits)

lemma XXH_copy_independent:
  assumes "dst \<noteq> src" and cp: "\<And>d s. cp d s = s"
  shows "fst (XXH_read_at dig (XXH_copy_at cp \<sigma> dst src) dst) = fst (XXH_read_at dig \<sigma> src) \<and>
    fst (XXH_read_at dig
           (XXH_updates_at upd (XXH_updates_at upd (XXH_copy_at cp \<sigma> dst src) src usA) dst usB) dst)
         = fst (XXH_read_at dig (XXH_updates_at upd (XXH_copy_at cp \<sigma> dst src) dst usB) dst) \<and>
    fst (XXH_read_at dig
           (XXH_updates_at upd (XXH_updates_at upd (XXH_copy_at cp \<sigma> dst src) dst usB) src usA) src)
         = fst (XXH_read_at dig (XXH_updates_at upd (XXH_copy_at cp \<sigma> dst src) src usA) src) \<and>
    fst (XXH_read_at dig (XXH_updates_at upd (XXH_copy_at cp \<sigma> dst src) dst us) dst)
         = fst (XXH_read_at dig (XXH_updates_at upd \<sigma> src us) src)"
  using assms(1)
  by (simp add: XXH_read_at_def XXH_updates_at_same XXH_updates_at_other XXH_copy_at_def cp)

text \<open>
  Claim C8. After \<open>copyState\<close> from the state object \<open>src\<close> (A) to a different object
  \<open>dst\<close> (B): B's digest equals A's digest; whatever updates A receives afterwards, the
  digest B reaches after its own later updates is the one it reaches without them, and
  the other way round; and B, fed the updates A would have been fed, reaches A's digest.
  This holds for the four families.
\<close>

theorem copy_independent:
  assumes "dst \<noteq> src"
  shows
  "fst (XXH_read_at (XXH32_digest c) (XXH_copy_at XXH32_copyState \<sigma> dst src) dst)
     = fst (XXH_read_at (XXH32_digest c) \<sigma> src) \<and>
   fst (XXH_read_at (XXH32_digest c)
          (XXH_updates_at (XXH32_update c)
             (XXH_updates_at (XXH32_update c) (XXH_copy_at XXH32_copyState \<sigma> dst src) src usA)
             dst usB) dst)
     = fst (XXH_read_at (XXH32_digest c)
          (XXH_updates_at (XXH32_update c) (XXH_copy_at XXH32_copyState \<sigma> dst src) dst usB) dst) \<and>
   fst (XXH_read_at (XXH32_digest c)
          (XXH_updates_at (XXH32_update c)
             (XXH_updates_at (XXH32_update c) (XXH_copy_at XXH32_copyState \<sigma> dst src) dst usB)
             src usA) src)
     = fst (XXH_read_at (XXH32_digest c)
          (XXH_updates_at (XXH32_update c) (XXH_copy_at XXH32_copyState \<sigma> dst src) src usA) src) \<and>
   fst (XXH_read_at (XXH32_digest c)
          (XXH_updates_at (XXH32_update c) (XXH_copy_at XXH32_copyState \<sigma> dst src) dst us) dst)
     = fst (XXH_read_at (XXH32_digest c) (XXH_updates_at (XXH32_update c) \<sigma> src us) src) \<and>
   fst (XXH_read_at (XXH64_digest c) (XXH_copy_at XXH64_copyState \<tau> dst src) dst)
     = fst (XXH_read_at (XXH64_digest c) \<tau> src) \<and>
   fst (XXH_read_at (XXH64_digest c)
          (XXH_updates_at (XXH64_update c)
             (XXH_updates_at (XXH64_update c) (XXH_copy_at XXH64_copyState \<tau> dst src) src usA)
             dst usB) dst)
     = fst (XXH_read_at (XXH64_digest c)
          (XXH_updates_at (XXH64_update c) (XXH_copy_at XXH64_copyState \<tau> dst src) dst usB) dst) \<and>
   fst (XXH_read_at (XXH64_digest c)
          (XXH_updates_at (XXH64_update c)
             (XXH_updates_at (XXH64_update c) (XXH_copy_at XXH64_copyState \<tau> dst src) dst usB)
             src usA) src)
     = fst (XXH_read_at (XXH64_digest c)
          (XXH_updates_at (XXH64_update c) (XXH_copy_at XXH64_copyState \<tau> dst src) src usA) src) \<and>
   fst (XXH_read_at (XXH64_digest c)
          (XXH_updates_at (XXH64_update c) (XXH_copy_at XXH64_copyState \<tau> dst src) dst us) dst)
     = fst (XXH_read_at (XXH64_digest c) (XXH_updates_at (XXH64_update c) \<tau> src us) src) \<and>
   fst (XXH_read_at (XXH32a_digest c) (XXH_copy_at XXH32a_copyState \<rho> dst src) dst)
     = fst (XXH_read_at (XXH32a_digest c) \<rho> src) \<and>
   fst (XXH_read_at (XXH32a_digest c)
          (XXH_updates_at (XXH32a_update c)
             (XXH_updates_at (XXH32a_update c) (XXH_copy_at XXH32a_copyState \<rho> dst src) src usA)
             dst usB) dst)
     = fst (XXH_read_at (XXH32a_digest c)
          (XXH_updates_at (XXH32a_update c) (XXH_copy_at XXH32a_copyState \<rho> dst src) dst usB) dst) \<and>
   fst (XXH_read_at (XXH32a_digest c)
          (XXH_updates_at (XXH32a_update c)
             (XXH_updates_at (XXH32a_update c) (XXH_copy_at XXH32a_copyState \<rho> dst src) dst usB)
             src usA) src)
     = fst (XXH_read_at (XXH32a_digest c)
          (XXH_updates_at (XXH32a_update c) (XXH_copy_at XXH32a_copyState \<rho> dst src) src usA) src) \<and>
   fst (XXH_read_at (XXH32a_digest c)
          (XXH_updates_at (XXH32a_update c) (XXH_copy_at XXH32a_copyState \<rho> dst src) dst us) dst)
     = fst (XXH_read_at (XXH32a_digest c) (XXH_updates_at (XXH32a_update c) \<rho> src us) src) \<and>
   fst (XXH_read_at (XXH64a_digest c) (XXH_copy_at XXH64a_copyState \<rho> dst src) dst)
     = fst (XXH_read_at (XXH64a_digest c) \<rho> src) \<and>
   fst (XXH_read_at (XXH64a_digest c)
          (XXH_updates_at (XXH64a_update c)
             (XXH_updates_at (XXH64a_update c) (XXH_copy_at XXH64a_copyState \<rho> dst src) src usA)
             dst usB) dst)
     = fst (XXH_read_at (XXH64a_digest c)
          (XXH_updates_at (XXH64a_update c) (XXH_copy_at XXH64a_copyState \<rho> dst src) dst usB) dst) \<and>
   fst (XXH_read_at (XXH64a_digest c)
          (XXH_updates_at (XXH64a_update c)
             (XXH_updates_at (XXH64a_update c) (XXH_copy_at XXH64a_copyState \<rho> dst src) dst usB)
             src usA) src)
     = fst (XXH_read_at (XXH64a_digest c)
          (XXH_updates_at (XXH64a_update c) (XXH_copy_at XXH64a_copyState \<rho> dst src) src usA) src) \<and>
   fst (XXH_read_at (XXH64a_digest c)
          (XXH_updates_at (XXH64a_update c) (XXH_copy_at XXH64a_copyState \<rho> dst src) dst us) dst)
     = fst (XXH_read_at (XXH64a_digest c) (XXH_updates_at (XXH64a_update c) \<rho> src us) src)"
proof -
  note a = XXH_copy_independent [where cp = XXH32_copyState and upd = "XXH32_update c"
      and dig = "XXH32_digest c" and \<sigma> = \<sigma> and usA = usA and usB = usB and us = us,
      OF assms XXH32_copyState_def]
  note b = XXH_copy_independent [where cp = XXH64_copyState and upd = "XXH64_update c"
      and dig = "XXH64_digest c" and \<sigma> = \<tau> and usA = usA and usB = usB and us = us,
      OF assms XXH64_copyState_def]
  note d = XXH_copy_independent [where cp = XXH32a_copyState and upd = "XXH32a_update c"
      and dig = "XXH32a_digest c" and \<sigma> = \<rho> and usA = usA and usB = usB and us = us,
      OF assms XXH32a_copyState_def]
  note e = XXH_copy_independent [where cp = XXH64a_copyState and upd = "XXH64a_update c"
      and dig = "XXH64a_digest c" and \<sigma> = \<rho> and usA = usA and usB = usB and us = us,
      OF assms XXH64a_copyState_def]
  from a b d e show ?thesis by (simp only: conj_assoc) 
qed

text \<open>
  Witness for C8: two state objects at handles 0 and 1, the second a copy of the first;
  three bytes fed to the first do not change the digest the copy reaches after twenty
  bytes of its own.
\<close>

theorem copy_independent_witness:
  "(1::nat) \<noteq> 0 \<and>
   fst (XXH_read_at (XXH32_digest XXH_default_config)
          (XXH_updates_at (XXH32_update XXH_default_config)
             (XXH_updates_at (XXH32_update XXH_default_config)
                (XXH_copy_at XXH32_copyState (\<lambda>_. snd (XXH32_reset 0)) 1 0) 0 [(\<lambda>_. 0, 64, 3)])
             1 [(\<lambda>_. 1, 64, 20)]) 1)
     = fst (XXH_read_at (XXH32_digest XXH_default_config)
          (XXH_updates_at (XXH32_update XXH_default_config)
             (XXH_copy_at XXH32_copyState (\<lambda>_. snd (XXH32_reset 0)) 1 0) 1 [(\<lambda>_. 1, 64, 20)]) 1)"
proof -
  have h: "(1::nat) \<noteq> 0" by simp
  from copy_independent [OF h, where c = XXH_default_config and \<sigma> = "\<lambda>_. snd (XXH32_reset 0)"
      and usA = "[(\<lambda>_. 0, 64, 3)]" and usB = "[(\<lambda>_. 1, 64, 20)]"] h
  show ?thesis by blast
qed

section \<open>Streaming against one-shot hashing in XXH32\<close>

lemma XXH32_stripes_add:
  "XXH32_stripes rd p (a + b) v = XXH32_stripes rd (p + 16 * a) b (XXH32_stripes rd p a v)"
  by (induction a arbitrary: p v) (simp_all add: algebra_simps)

lemma XXH32_stripes_snoc:
  "XXH32_stripes rd p (Suc a) v = XXH32_stripe rd (p + 16 * a) (XXH32_stripes rd p a v)"
  using XXH32_stripes_add [of rd p a 1 v] by simp

lemma XXH32_loop_stripes:
  "p + 16 \<le> bEnd \<Longrightarrow>
   XXH32_loop rd p (bEnd - 15) v =
     (p + 16 * ((bEnd - p) div 16), XXH32_stripes rd p ((bEnd - p) div 16) v)"
proof (induction rd p "bEnd - 15" v rule: XXH32_loop.induct)
  case (1 rd p v)
  show ?case
  proof (cases "p + 16 < bEnd - 15")
    case True
    then have le: "p + 16 + 16 \<le> bEnd" by simp
    have d: "(bEnd - p) div 16 = Suc ((bEnd - (p + 16)) div 16)"
      using le by (simp add: le_div_geq)
    from "1.hyps" [OF True le] True show ?thesis
      by (subst XXH32_loop.simps) (simp add: d)
  next
    case False
    with "1.prems" have d: "(bEnd - p) div 16 = 1"
      by (simp add: le_div_geq)
    from False show ?thesis
      by (subst XXH32_loop.simps) (simp add: d)
  qed
qed

lemma XXH32_update_loop_stripes:
  "p + 16 \<le> bEnd \<Longrightarrow>
   XXH32_update_loop rd p (bEnd - 16) v =
     (p + 16 * ((bEnd - p) div 16), XXH32_stripes rd p ((bEnd - p) div 16) v)"
proof (induction rd p "bEnd - 16" v rule: XXH32_update_loop.induct)
  case (1 rd p v)
  show ?case
  proof (cases "p + 16 \<le> bEnd - 16")
    case True
    then have le: "p + 16 + 16 \<le> bEnd" using "1.prems" by simp
    have d: "(bEnd - p) div 16 = Suc ((bEnd - (p + 16)) div 16)"
      using le by (simp add: le_div_geq)
    from "1.hyps" [OF True le] True show ?thesis
      by (subst XXH32_update_loop.simps) (simp add: d)
  next
    case False
    with "1.prems" have d: "(bEnd - p) div 16 = 1"
      by (simp add: le_div_geq)
    from False show ?thesis
      by (subst XXH32_update_loop.simps) (simp add: d)
  qed
qed

lemma XXH_readLE32_cong:
  "(\<And>i. i < 4 \<Longrightarrow> m1 (q1 + i) = m2 (q2 + i)) \<Longrightarrow>
   XXH_readLE32 c m1 q1 e = XXH_readLE32 c m2 q2 e"
proof -
  assume a: "\<And>i. i < 4 \<Longrightarrow> m1 (q1 + i) = m2 (q2 + i)"
  from a [of 0] a [of 1] a [of 2] a [of 3] show ?thesis
    by (simp add: XXH_readLE32_def XXH_readLE32_align_def XXH_read32_def)
qed

lemma XXH32_stripe_cong:
  assumes "\<And>i. i < 16 \<Longrightarrow> m1 (q1 + i) = m2 (q2 + i)"
  shows "XXH32_stripe (\<lambda>q. XXH_readLE32 c m1 q e) q1 v
       = XXH32_stripe (\<lambda>q. XXH_readLE32 c m2 q e) q2 v"
proof -
  have "XXH_readLE32 c m1 (q1 + j) e = XXH_readLE32 c m2 (q2 + j) e" if "j \<le> 12" for j
    using that assms [of "j + i" for i] by (intro XXH_readLE32_cong) (simp add: add.assoc)
  from this [of 0] this [of 4] this [of 8] this [of 12] show ?thesis
    by (simp add: XXH32_stripe_def split: prod.splits)
qed

lemma XXH32_finalize_switch_cong:
  "(\<And>i. i < n \<Longrightarrow> m1 (p1 + i) = m2 (p2 + i)) \<Longrightarrow>
   XXH32_finalize_switch c m1 e a n p1 h = XXH32_finalize_switch c m2 e a' n p2 h"
proof (induction c m1 e a n p1 h arbitrary: p2 rule: XXH32_finalize_switch.induct)
  case (1 c m1 e a n p1 h)
  show ?case
  proof (cases "4 \<le> n")
    case True
    have "XXH_readLE32 c m1 p1 e = XXH_readLE32 c m2 p2 e"
      using True "1.prems" by (intro XXH_readLE32_cong) simp
    then have p4: "PROCESS4 c m1 e a p1 h = PROCESS4 c m2 e a' p2 h"
      by (simp add: PROCESS4_def XXH_readLE32_align_indep [of c c])
    have "XXH32_finalize_switch c m1 e a (n - 4) (p1 + 4) (PROCESS4 c m1 e a p1 h)
        = XXH32_finalize_switch c m2 e a' (n - 4) (p2 + 4) (PROCESS4 c m1 e a p1 h)"
      using True "1.prems" [of "4 + i" for i] by (intro "1.IH"(1)) (simp_all add: add.assoc)
    with True p4 show ?thesis
      by (subst XXH32_finalize_switch.simps, subst (2) XXH32_finalize_switch.simps) simp
  next
    case False
    show ?thesis
    proof (cases "1 \<le> n")
      case True
      have p1: "PROCESS1 m1 p1 h = PROCESS1 m2 p2 h"
        using True "1.prems" [of 0] by (simp add: PROCESS1_def)
      have "XXH32_finalize_switch c m1 e a (n - 1) (p1 + 1) (PROCESS1 m1 p1 h)
          = XXH32_finalize_switch c m2 e a' (n - 1) (p2 + 1) (PROCESS1 m1 p1 h)"
        using True False "1.prems" [of "1 + i" for i] by (intro "1.IH"(2)) (simp_all add: add.assoc)
      with True False p1 show ?thesis
        by (subst XXH32_finalize_switch.simps, subst (2) XXH32_finalize_switch.simps) simp
    next
      case F2: False
      with False show ?thesis
        by (subst XXH32_finalize_switch.simps, subst (2) XXH32_finalize_switch.simps) simp
    qed
  qed
qed


lemma XXH32_large_len_flag:
  assumes "(f \<noteq> 0) \<longleftrightarrow> 16 \<le> t"
  shows "(f OR (of_bool (16 \<le> n) OR of_bool (16 \<le> (of_nat t + of_nat n :: U32))) \<noteq> 0)
           \<longleftrightarrow> 16 \<le> t + n"
proof (cases "16 \<le> t \<or> 16 \<le> n")
  case True
  with assms show ?thesis by (auto simp add: or_eq_0_iff)
next
  case False
  then have small: "t + n < 32" by simp
  then have "unat (of_nat t + of_nat n :: U32) = t + n"
    by (simp add: unat_word_ariths unat_of_nat)
  then have "(16 \<le> (of_nat t + of_nat n :: U32)) \<longleftrightarrow> 16 \<le> t + n"
    by (simp add: word_le_nat_alt)
  with False assms show ?thesis by (auto simp add: or_eq_0_iff)
qed

lemma s32_lanes_set_lanes [simp]: "s32_lanes (s32_set_lanes v st) = v"
  by (cases v) (simp add: s32_lanes_def s32_set_lanes_def)

lemma s32_set_lanes_fields [simp]:
  "s32_total_len_32 (s32_set_lanes v st) = s32_total_len_32 st"
  "s32_large_len (s32_set_lanes v st) = s32_large_len st"
  "s32_mem32 (s32_set_lanes v st) = s32_mem32 st"
  by (cases v; simp add: s32_set_lanes_def)+

lemma s32_lanes_upd [simp]:
  "s32_lanes (st\<lparr>s32_total_len_32 := a\<rparr>) = s32_lanes st"
  "s32_lanes (st\<lparr>s32_large_len := b\<rparr>) = s32_lanes st"
  "s32_lanes (st\<lparr>s32_mem32 := d\<rparr>) = s32_lanes st"
  "s32_lanes (st\<lparr>s32_memsize := k\<rparr>) = s32_lanes st"
  by (simp_all add: s32_lanes_def)

text \<open>The buffered stripe, once completed, is the stripe of the input at \<open>p + 16 * q\<close>.\<close>

lemma XXH32_update_fill_absorbed:
  assumes lanes: "s32_lanes st = XXH32_stripes (\<lambda>q. XXH_readLE32 c m q e) p q (XXH32_init seed)"
    and ms: "unat (s32_memsize st) = k" "k < 16" "t = 16 * q + k"
    and buf: "\<forall>i < k. s32_mem32 st i = m (p + 16 * q + i)"
    and r: "XXH32_update_fill c st m (p + t) e = (st1, p1)"
  shows "s32_lanes st1 = XXH32_stripes (\<lambda>q. XXH_readLE32 c m q e) p
           (if k = 0 then q else Suc q) (XXH32_init seed) \<and>
         p1 = p + 16 * (if k = 0 then q else Suc q) \<and>
         s32_total_len_32 st1 = s32_total_len_32 st \<and> s32_large_len st1 = s32_large_len st"
proof (cases "k = 0")
  case True
  with ms have "s32_memsize st = 0" by (simp add: unat_eq_0)
  with r lanes True ms show ?thesis by (simp add: XXH32_update_fill_def)
next
  case False
  with ms have nz: "s32_memsize st \<noteq> 0" by auto
  have le: "s32_memsize st \<le> 16" using ms by (simp add: word_le_nat_alt)
  have sub: "unat (16 - s32_memsize st) = 16 - k"
    using ms by (simp add: unat_sub [OF le])
  let ?buf = "XXH_memcpy (s32_mem32 st) k m (p + t) (16 - k)"
  have same: "?buf (0 + i) = m (p + 16 * q + i)" if "i < 16" for i
    using that buf ms by (auto simp add: XXH_memcpy_def add.assoc)
  have stripe: "XXH32_stripe (\<lambda>q. XXH_readLE32 c ?buf q e) 0 v
              = XXH32_stripe (\<lambda>q. XXH_readLE32 c m q e) (p + 16 * q) v" for v
    by (rule XXH32_stripe_cong) (rule same)
  have st1: "st1 = s32_set_lanes (XXH32_stripe (\<lambda>q. XXH_readLE32 c ?buf q e) 0 (s32_lanes st))
                     (st\<lparr>s32_mem32 := ?buf\<rparr>)"
    and p1: "p1 = p + t + (16 - k)"
    using r nz by (simp_all add: XXH32_update_fill_def Let_def sub ms(1))
  have "p + t + (16 - k) = p + 16 * Suc q" using ms by simp
  with False show ?thesis
    unfolding st1 p1 stripe lanes
    by (simp add: XXH32_stripes_snoc del: XXH32_stripes.simps)
qed

lemma XXH32_update_stripes_absorbed:
  assumes lanes: "s32_lanes st = XXH32_stripes (\<lambda>q. XXH_readLE32 c m q e) p q1 (XXH32_init seed)"
    and le: "16 * q1 \<le> T"
    and r: "XXH32_update_stripes c st m (p + 16 * q1) (p + T) e = (st2, p2)"
  shows "s32_lanes st2 = XXH32_stripes (\<lambda>q. XXH_readLE32 c m q e) p (T div 16) (XXH32_init seed) \<and>
         p2 = p + 16 * (T div 16) \<and>
         s32_total_len_32 st2 = s32_total_len_32 st \<and> s32_large_len st2 = s32_large_len st \<and>
         s32_mem32 st2 = s32_mem32 st \<and> s32_memsize st2 = s32_memsize st"
proof -
  have d: "e = XXH_littleEndian \<Longrightarrow> deref_U32 c m = (\<lambda>q. XXH_readLE32 c m q e)"
    by (rule ext) (simp add: deref_U32_readLE32 [of c c])
  obtain r where T: "T = 16 * q1 + r" using le by (metis le_Suc_ex)
  then have dv: "T div 16 = q1 + r div 16" by simp
  show ?thesis
  proof (cases "16 \<le> r")
    case True
    then have c1: "int (p + 16 * q1) \<le> int (p + T) - 16" using T by simp
    have lp: "XXH32_update_loop rd (p + 16 * q1) (p + T - 16) v
        = (p + 16 * q1 + 16 * (r div 16), XXH32_stripes rd (p + 16 * q1) (r div 16) v)" for rd v
      using XXH32_update_loop_stripes [of "p + 16 * q1" "p + T" rd v] True T by simp
    have "st2 = s32_set_lanes (XXH32_stripes (\<lambda>q. XXH_readLE32 c m q e) (p + 16 * q1) (r div 16)
                 (s32_lanes st)) st \<and> p2 = p + 16 * q1 + 16 * (r div 16)"
      using r c1 unfolding XXH32_update_stripes_def Let_def lp
      by (auto simp add: d split: if_splits)
    then show ?thesis
      by (simp add: lanes dv XXH32_stripes_add algebra_simps)
  next
    case False
    then have c1: "\<not> int (p + 16 * q1) \<le> int (p + T) - 16" using T by simp
    from False have "r div 16 = 0" by simp
    with r c1 lanes dv show ?thesis
      by (simp add: XXH32_update_stripes_def)
  qed
qed


lemma XXH32_update_absorbed:
  assumes inv: "XXH32_absorbed c m p seed e t st" and inp: "input = p + t" and nn: "input \<noteq> 0"
  shows "XXH32_absorbed c m p seed e (t + n) (snd (XXH32_update_endian c st m input n e))"
proof -
  define k where "k = t mod 16"
  define q where "q = t div 16"
  have t: "t = 16 * q + k" and k16: "k < 16" by (simp_all add: k_def q_def)
  from inv have tot: "s32_total_len_32 st = of_nat t"
    and large: "(s32_large_len st \<noteq> 0) \<longleftrightarrow> 16 \<le> t"
    and lanes: "s32_lanes st = XXH32_stripes (\<lambda>q. XXH_readLE32 c m q e) p q (XXH32_init seed)"
    and ms: "unat (s32_memsize st) = k"
    and buf: "\<forall>i < k. s32_mem32 st i = m (p + 16 * q + i)"
    by (simp_all add: XXH32_absorbed_def k_def q_def)
  let ?st0 = "st\<lparr>s32_total_len_32 := s32_total_len_32 st + of_nat n,
                 s32_large_len := s32_large_len st OR
                   (of_bool (16 \<le> n) OR of_bool (16 \<le> s32_total_len_32 st + of_nat n))\<rparr>"
  have tot0: "s32_total_len_32 ?st0 = of_nat (t + n)" by (simp add: tot)
  have large0: "(s32_large_len ?st0 \<noteq> 0) \<longleftrightarrow> 16 \<le> t + n"
    using XXH32_large_len_flag [OF large, of n] by (simp add: tot)
  show ?thesis
  proof (cases "k + n < 16")
    case True
    have res: "snd (XXH32_update_endian c st m input n e) =
        ?st0\<lparr>s32_mem32 := XXH_memcpy (s32_mem32 st) k m input n,
              s32_memsize := s32_memsize st + of_nat n\<rparr>"
      using nn True by (simp add: XXH32_update_endian_def Let_def ms)
    have dv: "(t + n) div 16 = q" and md: "(t + n) mod 16 = k + n"
      using True unfolding t by (simp_all add: add.assoc)
    have ms': "unat (s32_memsize st + of_nat n) = k + n"
      using True ms by (simp add: unat_add_of_nat32)
    have buf': "XXH_memcpy (s32_mem32 st) k m input n i = m (p + 16 * q + i)" if "i < k + n" for i
      using that buf t inp by (auto simp add: XXH_memcpy_def add.assoc)
    show ?thesis
      unfolding res XXH32_absorbed_def dv md
      using tot0 large0 lanes ms' buf' by simp
  next
    case False
    obtain st1 p1 where f: "XXH32_update_fill c ?st0 m input e = (st1, p1)"
      by (cases "XXH32_update_fill c ?st0 m input e")
    define q1 where "q1 = (if k = 0 then q else Suc q)"
    have f': "s32_lanes st1 = XXH32_stripes (\<lambda>q. XXH_readLE32 c m q e) p q1 (XXH32_init seed)"
      "p1 = p + 16 * q1" "s32_total_len_32 st1 = of_nat (t + n)"
      "(s32_large_len st1 \<noteq> 0) \<longleftrightarrow> 16 \<le> t + n"
      using XXH32_update_fill_absorbed [of ?st0 c m e p q seed k t st1 p1] lanes ms k16 t buf
        f [unfolded inp] tot0 large0
      by (simp_all add: q1_def)
    have le: "16 * q1 \<le> t + n" using False t k16 by (simp add: q1_def)
    obtain st2 p2 where g:
      "XXH32_update_stripes c (st1\<lparr>s32_memsize := 0\<rparr>) m p1 (input + n) e = (st2, p2)"
      by (cases "XXH32_update_stripes c (st1\<lparr>s32_memsize := 0\<rparr>) m p1 (input + n) e")
    have g': "s32_lanes st2 = XXH32_stripes (\<lambda>q. XXH_readLE32 c m q e) p ((t + n) div 16) (XXH32_init seed)"
      "p2 = p + 16 * ((t + n) div 16)" "s32_total_len_32 st2 = of_nat (t + n)"
      "(s32_large_len st2 \<noteq> 0) \<longleftrightarrow> 16 \<le> t + n" "s32_memsize st2 = 0"
      using XXH32_update_stripes_absorbed [of "st1\<lparr>s32_memsize := 0\<rparr>" c m e p q1 seed "t + n" st2 p2]
        f' le g [unfolded f'(2) inp add.assoc]
      by simp_all
    have rest: "input + n - p2 = (t + n) mod 16"
      unfolding g'(2) inp by (simp add: add.assoc minus_mult_div_eq_mod)
    have res: "snd (XXH32_update_endian c st m input n e) =
        (if p2 < input + n
         then st2\<lparr>s32_mem32 := XXH_memcpy (s32_mem32 st2) 0 m p2 ((t + n) mod 16),
                  s32_memsize := of_nat ((t + n) mod 16)\<rparr>
         else st2)"
      using nn False f g rest
      by (simp add: XXH32_update_endian_def Let_def ms del: of_nat_diff)
    have lt: "p2 < input + n \<longleftrightarrow> 0 < (t + n) mod 16"
      by (simp add: rest [symmetric])
    have um: "unat (of_nat ((t + n) mod 16) :: U32) = (t + n) mod 16"
      by (simp add: unat_of_nat_small32)
    show ?thesis
    proof (cases "p2 < input + n")
      case True
      show ?thesis
        unfolding res XXH32_absorbed_def
        using True g' um by (simp add: XXH_memcpy_def)
    next
      case F: False
      with lt have "(t + n) mod 16 = 0" by simp
      with F show ?thesis
        unfolding res XXH32_absorbed_def
        using g' by simp
    qed
  qed
qed


lemma XXH32_reset_absorbed: "XXH32_absorbed c m p seed e 0 (snd (XXH32_reset seed))"
  by (simp add: XXH32_absorbed_def XXH32_reset_def s32_lanes_def XXH32_init_def)

lemma unat_and_15: "unat (w AND 15 :: U32) = unat w mod 16"
proof -
  have m: "(15 :: U32) = mask 4" by (simp add: mask_eq_decr_exp)
  have "unat (w AND mask 4) = unat (take_bit 4 w)"
    by (simp only: take_bit_eq_mask)
  also have "\<dots> = take_bit 4 (unat w)"
    by (rule unsigned_take_bit_eq)
  also have "\<dots> = unat w mod 2 ^ 4"
    by (rule take_bit_eq_mod)
  finally show ?thesis unfolding m by simp
qed

lemma XXH32_digest_absorbed:
  assumes inv: "XXH32_absorbed c m p seed e t st"
    and nn: "p \<noteq> 0"
  shows "XXH32_digest_endian c st e = XXH32_endian_align c m p t seed e a"
proof -
  define H where "H = (if 16 \<le> t
      then XXH32_merge (XXH32_stripes (\<lambda>q. XXH_readLE32 c m q e) p (t div 16) (XXH32_init seed))
      else seed + PRIME32_5)"
  from inv have tot: "s32_total_len_32 st = of_nat t"
    and large: "(s32_large_len st \<noteq> 0) \<longleftrightarrow> 16 \<le> t"
    and lanes: "s32_lanes st = XXH32_stripes (\<lambda>q. XXH_readLE32 c m q e) p (t div 16) (XXH32_init seed)"
    and ms: "unat (s32_memsize st) = t mod 16"
    and buf: "\<And>i. i < t mod 16 \<Longrightarrow> s32_mem32 st (0 + i) = m (p + 16 * (t div 16) + i)"
    by (simp_all add: XXH32_absorbed_def)
  have one: "XXH32_endian_align c m p t seed e a =
      XXH32_finalize_switch c m e a (t mod 16) (p + 16 * (t div 16)) (H + of_nat t)"
  proof (cases "16 \<le> t")
    case True
    then have "XXH32_loop rd p (p + t - 15) v =
        (p + 16 * (t div 16), XXH32_stripes rd p (t div 16) v)" for rd v
      using XXH32_loop_stripes [of p "p + t" rd v] by simp
    with True nn show ?thesis
      by (simp add: XXH32_endian_align_def XXH32_accumulate_canon XXH32_finalize_def H_def
          mod_mod_cancel)
  next
    case False
    with nn show ?thesis
      by (simp add: XXH32_endian_align_def XXH32_accumulate_canon XXH32_finalize_def H_def)
  qed
  have v3: "s32_v3 st = seed" if "t < 16"
    using that lanes by (simp add: s32_lanes_def XXH32_init_def)
  have dig: "XXH32_digest_endian c st e =
      XXH32_finalize_switch c (s32_mem32 st) e XXH_aligned (t mod 16) 0 (H + of_nat t)"
  proof (cases "16 \<le> t")
    case True
    with large lanes tot ms show ?thesis
      by (simp add: XXH32_digest_endian_def XXH32_finalize_def H_def unat_and_15 mod_mod_cancel)
  next
    case False
    with large v3 tot ms show ?thesis
      by (simp add: XXH32_digest_endian_def XXH32_finalize_def H_def unat_and_15)
  qed
  show ?thesis
    unfolding one dig by (rule XXH32_finalize_switch_cong) (rule buf)
qed

text \<open>
  In XXH32, for every memory, every non-null buffer of \<open>len\<close> bytes at \<open>input\<close>, every seed
  and every split point \<open>k \<le> len\<close>: reset, update with the first \<open>k\<close> bytes, update with
  the remaining \<open>len - k\<close> bytes and digest give the one-shot hash of the buffer.
\<close>

theorem XXH32_streaming_equals_one_shot:
  assumes "input \<noteq> 0" and "k \<le> len"
  shows "XXH32_digest c
           (snd (XXH32_update c (snd (XXH32_update c (snd (XXH32_reset seed)) m input k))
              m (input + k) (len - k)))
         = XXH32 c m input len seed"
proof -
  let ?e = "XXH_endian_select c"
  have a0: "XXH32_absorbed c m input seed ?e 0 (snd (XXH32_reset seed))"
    by (rule XXH32_reset_absorbed)
  have a1: "XXH32_absorbed c m input seed ?e (0 + k)
      (snd (XXH32_update c (snd (XXH32_reset seed)) m input k))"
    unfolding XXH32_update_def using a0 _ assms(1) by (rule XXH32_update_absorbed) simp
  have a2: "XXH32_absorbed c m input seed ?e (0 + k + (len - k))
      (snd (XXH32_update c (snd (XXH32_update c (snd (XXH32_reset seed)) m input k))
              m (input + k) (len - k)))"
    unfolding XXH32_update_def [of c _ m "input + k"] using a1 _ _
    by (rule XXH32_update_absorbed) (use assms(1) in simp_all)
  have "0 + k + (len - k) = len" using assms(2) by simp
  with a2 show ?thesis
    by (simp add: XXH32_digest_def XXH32_def XXH32_digest_absorbed [OF _ assms(1)])
qed

section \<open>Streaming against one-shot hashing in XXH64\<close>

lemma XXH64_stripes_add:
  "XXH64_stripes rd p (a + b) v = XXH64_stripes rd (p + 32 * a) b (XXH64_stripes rd p a v)"
  by (induction a arbitrary: p v) (simp_all add: algebra_simps)

lemma XXH64_stripes_snoc:
  "XXH64_stripes rd p (Suc a) v = XXH64_stripe rd (p + 32 * a) (XXH64_stripes rd p a v)"
  using XXH64_stripes_add [of rd p a 1 v] by simp

lemma XXH64_loop_stripes:
  "p + 32 \<le> bEnd \<Longrightarrow>
   XXH64_loop rd p (bEnd - 32) v =
     (p + 32 * ((bEnd - p) div 32), XXH64_stripes rd p ((bEnd - p) div 32) v)"
proof (induction rd p "bEnd - 32" v rule: XXH64_loop.induct)
  case (1 rd p v)
  show ?case
  proof (cases "p + 32 \<le> bEnd - 32")
    case True
    then have le: "p + 32 + 32 \<le> bEnd" using "1.prems" by simp
    have d: "(bEnd - p) div 32 = Suc ((bEnd - (p + 32)) div 32)"
      using le by (simp add: le_div_geq)
    from "1.hyps" [OF True le] True show ?thesis
      by (subst XXH64_loop.simps) (simp add: d)
  next
    case False
    with "1.prems" have d: "(bEnd - p) div 32 = 1"
      by (simp add: le_div_geq)
    from False show ?thesis
      by (subst XXH64_loop.simps) (simp add: d)
  qed
qed

lemma XXH_readLE64_cong:
  "(\<And>i. i < 8 \<Longrightarrow> m1 (q1 + i) = m2 (q2 + i)) \<Longrightarrow>
   XXH_readLE64 c m1 q1 e = XXH_readLE64 c m2 q2 e"
proof -
  assume a: "\<And>i. i < 8 \<Longrightarrow> m1 (q1 + i) = m2 (q2 + i)"
  from a [of 0] a [of 1] a [of 2] a [of 3] a [of 4] a [of 5] a [of 6] a [of 7] show ?thesis
    by (simp add: XXH_readLE64_def XXH_readLE64_align_def XXH_read64_def native64_def)
qed

lemma XXH64_stripe_cong:
  assumes "\<And>i. i < 32 \<Longrightarrow> m1 (q1 + i) = m2 (q2 + i)"
  shows "XXH64_stripe (\<lambda>q. XXH_readLE64 c m1 q e) q1 v
       = XXH64_stripe (\<lambda>q. XXH_readLE64 c m2 q e) q2 v"
proof -
  have "XXH_readLE64 c m1 (q1 + j) e = XXH_readLE64 c m2 (q2 + j) e" if "j \<le> 24" for j
    using that assms [of "j + i" for i] by (intro XXH_readLE64_cong) (simp add: add.assoc)
  from this [of 0] this [of 8] this [of 16] this [of 24] show ?thesis
    by (simp add: XXH64_stripe_def split: prod.splits)
qed

lemma XXH64_finalize_switch_cong:
  "(\<And>i. i < n \<Longrightarrow> m1 (p1 + i) = m2 (p2 + i)) \<Longrightarrow>
   XXH64_finalize_switch c m1 e a n p1 h = XXH64_finalize_switch c m2 e a' n p2 h"
proof (induction c m1 e a n p1 h arbitrary: p2 rule: XXH64_finalize_switch.induct)
  case (1 c m1 e a n p1 h)
  show ?case
  proof (cases "8 \<le> n")
    case True
    have "XXH_readLE64 c m1 p1 e = XXH_readLE64 c m2 p2 e"
      using True "1.prems" by (intro XXH_readLE64_cong) simp
    then have p8: "PROCESS8_64 c m1 e a p1 h = PROCESS8_64 c m2 e a' p2 h"
      by (simp add: PROCESS8_64_def XXH_readLE64_align_indep [of c c])
    have "XXH64_finalize_switch c m1 e a (n - 8) (p1 + 8) (PROCESS8_64 c m1 e a p1 h)
        = XXH64_finalize_switch c m2 e a' (n - 8) (p2 + 8) (PROCESS8_64 c m1 e a p1 h)"
      using True "1.prems" [of "8 + i" for i] by (intro "1.IH"(1)) (simp_all add: add.assoc)
    with True p8 show ?thesis
      by (subst XXH64_finalize_switch.simps, subst (2) XXH64_finalize_switch.simps) simp
  next
    case n8: False
    show ?thesis
    proof (cases "4 \<le> n")
      case True
      have "XXH_readLE32 c m1 p1 e = XXH_readLE32 c m2 p2 e"
        using True "1.prems" by (intro XXH_readLE32_cong) simp
      then have p4: "PROCESS4_64 c m1 e a p1 h = PROCESS4_64 c m2 e a' p2 h"
        by (simp add: PROCESS4_64_def XXH_readLE32_align_indep [of c c])
      have "XXH64_finalize_switch c m1 e a (n - 4) (p1 + 4) (PROCESS4_64 c m1 e a p1 h)
          = XXH64_finalize_switch c m2 e a' (n - 4) (p2 + 4) (PROCESS4_64 c m1 e a p1 h)"
        using True n8 "1.prems" [of "4 + i" for i] by (intro "1.IH"(2)) (simp_all add: add.assoc)
      with True n8 p4 show ?thesis
        by (subst XXH64_finalize_switch.simps, subst (2) XXH64_finalize_switch.simps) simp
    next
      case n4: False
      show ?thesis
      proof (cases "1 \<le> n")
        case True
        have p1: "PROCESS1_64 m1 p1 h = PROCESS1_64 m2 p2 h"
          using True "1.prems" [of 0] by (simp add: PROCESS1_64_def)
        have "XXH64_finalize_switch c m1 e a (n - 1) (p1 + 1) (PROCESS1_64 m1 p1 h)
            = XXH64_finalize_switch c m2 e a' (n - 1) (p2 + 1) (PROCESS1_64 m1 p1 h)"
          using True n8 n4 "1.prems" [of "1 + i" for i]
          by (intro "1.IH"(3)) (simp_all add: add.assoc)
        with True n8 n4 p1 show ?thesis
          by (subst XXH64_finalize_switch.simps, subst (2) XXH64_finalize_switch.simps) simp
      next
        case False
        with n8 n4 show ?thesis
          by (subst XXH64_finalize_switch.simps, subst (2) XXH64_finalize_switch.simps) simp
      qed
    qed
  qed
qed

lemma s64_lanes_set_lanes [simp]: "s64_lanes (s64_set_lanes v st) = v"
  by (cases v) (simp add: s64_lanes_def s64_set_lanes_def)

lemma s64_set_lanes_fields [simp]:
  "s64_total_len (s64_set_lanes v st) = s64_total_len st"
  "s64_mem64 (s64_set_lanes v st) = s64_mem64 st"
  by (cases v; simp add: s64_set_lanes_def)+

lemma s64_lanes_upd [simp]:
  "s64_lanes (st\<lparr>s64_total_len := a\<rparr>) = s64_lanes st"
  "s64_lanes (st\<lparr>s64_mem64 := d\<rparr>) = s64_lanes st"
  "s64_lanes (st\<lparr>s64_memsize := k\<rparr>) = s64_lanes st"
  by (simp_all add: s64_lanes_def)

lemma XXH64_update_fill_absorbed:
  assumes lanes: "s64_lanes st = XXH64_stripes (\<lambda>q. XXH_readLE64 c m q e) p q (XXH64_init seed)"
    and ms: "unat (s64_memsize st) = k" "k < 32" "t = 32 * q + k"
    and buf: "\<forall>i < k. s64_mem64 st i = m (p + 32 * q + i)"
    and r: "XXH64_update_fill c st m (p + t) e = (st1, p1)"
  shows "s64_lanes st1 = XXH64_stripes (\<lambda>q. XXH_readLE64 c m q e) p
           (if k = 0 then q else Suc q) (XXH64_init seed) \<and>
         p1 = p + 32 * (if k = 0 then q else Suc q) \<and>
         s64_total_len st1 = s64_total_len st \<and> s64_memsize st1 = 0"
proof (cases "k = 0")
  case True
  with ms have "s64_memsize st = 0" by (simp add: unat_eq_0)
  with r lanes True ms show ?thesis by (simp add: XXH64_update_fill_def)
next
  case False
  with ms have nz: "s64_memsize st \<noteq> 0" by auto
  have le: "s64_memsize st \<le> 32" using ms by (simp add: word_le_nat_alt)
  have sub: "unat (32 - s64_memsize st) = 32 - k"
    using ms by (simp add: unat_sub [OF le])
  let ?buf = "XXH_memcpy (s64_mem64 st) k m (p + t) (32 - k)"
  have same: "?buf (0 + i) = m (p + 32 * q + i)" if "i < 32" for i
    using that buf ms by (auto simp add: XXH_memcpy_def add.assoc)
  have stripe: "XXH64_stripe (\<lambda>q. XXH_readLE64 c ?buf q e) 0 v
              = XXH64_stripe (\<lambda>q. XXH_readLE64 c m q e) (p + 32 * q) v" for v
    by (rule XXH64_stripe_cong) (rule same)
  have st1: "st1 = (s64_set_lanes (XXH64_stripe (\<lambda>q. XXH_readLE64 c ?buf q e) 0 (s64_lanes st))
                     (st\<lparr>s64_mem64 := ?buf\<rparr>))\<lparr>s64_memsize := 0\<rparr>"
    and p1: "p1 = p + t + (32 - k)"
    using r nz by (simp_all add: XXH64_update_fill_def Let_def sub ms(1))
  have "p + t + (32 - k) = p + 32 * Suc q" using ms by simp
  with False show ?thesis
    unfolding st1 p1 stripe lanes
    by (simp add: XXH64_stripes_snoc del: XXH64_stripes.simps)
qed

lemma XXH64_update_stripes_absorbed:
  assumes lanes: "s64_lanes st = XXH64_stripes (\<lambda>q. XXH_readLE64 c m q e) p q1 (XXH64_init seed)"
    and le: "32 * q1 \<le> T"
    and r: "XXH64_update_stripes c st m (p + 32 * q1) (p + T) e = (st2, p2)"
  shows "s64_lanes st2 = XXH64_stripes (\<lambda>q. XXH_readLE64 c m q e) p (T div 32) (XXH64_init seed) \<and>
         p2 = p + 32 * (T div 32) \<and>
         s64_total_len st2 = s64_total_len st \<and>
         s64_mem64 st2 = s64_mem64 st \<and> s64_memsize st2 = s64_memsize st"
proof -
  have d: "e = XXH_littleEndian \<Longrightarrow> deref_U64 c m = (\<lambda>q. XXH_readLE64 c m q e)"
    by (rule ext) (simp add: deref_U64_readLE64 [of c c])
  obtain r where T: "T = 32 * q1 + r" using le by (metis le_Suc_ex)
  then have dv: "T div 32 = q1 + r div 32" by simp
  show ?thesis
  proof (cases "32 \<le> r")
    case True
    then have c1: "p + 32 * q1 + 32 \<le> p + T" using T by simp
    have lp: "XXH64_loop rd (p + 32 * q1) (p + T - 32) v
        = (p + 32 * q1 + 32 * (r div 32), XXH64_stripes rd (p + 32 * q1) (r div 32) v)" for rd v
      using XXH64_loop_stripes [of "p + 32 * q1" "p + T" rd v] True T by simp
    have "st2 = s64_set_lanes (XXH64_stripes (\<lambda>q. XXH_readLE64 c m q e) (p + 32 * q1) (r div 32)
                 (s64_lanes st)) st \<and> p2 = p + 32 * q1 + 32 * (r div 32)"
      using r c1 unfolding XXH64_update_stripes_def Let_def lp
      by (auto simp add: d split: if_splits)
    then show ?thesis
      by (simp add: lanes dv XXH64_stripes_add algebra_simps)
  next
    case False
    then have c1: "\<not> p + 32 * q1 + 32 \<le> p + T" using T by simp
    from False have "r div 32 = 0" by simp
    with r c1 lanes dv show ?thesis
      by (simp add: XXH64_update_stripes_def)
  qed
qed

lemma XXH64_update_absorbed:
  assumes inv: "XXH64_absorbed c m p seed e t st" and inp: "input = p + t" and nn: "input \<noteq> 0"
  shows "XXH64_absorbed c m p seed e (t + n) (snd (XXH64_update_endian c st m input n e))"
proof -
  define k where "k = t mod 32"
  define q where "q = t div 32"
  have t: "t = 32 * q + k" and k32: "k < 32" by (simp_all add: k_def q_def)
  from inv have tot: "s64_total_len st = of_nat t"
    and lanes: "s64_lanes st = XXH64_stripes (\<lambda>q. XXH_readLE64 c m q e) p q (XXH64_init seed)"
    and ms: "unat (s64_memsize st) = k"
    and buf: "\<forall>i < k. s64_mem64 st i = m (p + 32 * q + i)"
    by (simp_all add: XXH64_absorbed_def k_def q_def)
  let ?st0 = "st\<lparr>s64_total_len := s64_total_len st + of_nat n\<rparr>"
  have tot0: "s64_total_len ?st0 = of_nat (t + n)" by (simp add: tot)
  show ?thesis
  proof (cases "k + n < 32")
    case True
    have res: "snd (XXH64_update_endian c st m input n e) =
        ?st0\<lparr>s64_mem64 := XXH_memcpy (s64_mem64 st) k m input n,
              s64_memsize := s64_memsize st + of_nat n\<rparr>"
      using nn True by (simp add: XXH64_update_endian_def Let_def ms)
    have dv: "(t + n) div 32 = q" and md: "(t + n) mod 32 = k + n"
      using True unfolding t by (simp_all add: add.assoc)
    have ms': "unat (s64_memsize st + of_nat n) = k + n"
      using True ms by (simp add: unat_add_of_nat32)
    have buf': "XXH_memcpy (s64_mem64 st) k m input n i = m (p + 32 * q + i)" if "i < k + n" for i
      using that buf t inp by (auto simp add: XXH_memcpy_def add.assoc)
    show ?thesis
      unfolding res XXH64_absorbed_def dv md
      using tot0 lanes ms' buf' by simp
  next
    case False
    obtain st1 p1 where f: "XXH64_update_fill c ?st0 m input e = (st1, p1)"
      by (cases "XXH64_update_fill c ?st0 m input e")
    define q1 where "q1 = (if k = 0 then q else Suc q)"
    have f': "s64_lanes st1 = XXH64_stripes (\<lambda>q. XXH_readLE64 c m q e) p q1 (XXH64_init seed)"
      "p1 = p + 32 * q1" "s64_total_len st1 = of_nat (t + n)" "s64_memsize st1 = 0"
      using XXH64_update_fill_absorbed [of ?st0 c m e p q seed k t st1 p1] lanes ms k32 t buf
        f [unfolded inp] tot0
      by (simp_all add: q1_def)
    have le: "32 * q1 \<le> t + n" using False t k32 by (simp add: q1_def)
    obtain st2 p2 where g:
      "XXH64_update_stripes c st1 m p1 (input + n) e = (st2, p2)"
      by (cases "XXH64_update_stripes c st1 m p1 (input + n) e")
    have g': "s64_lanes st2 = XXH64_stripes (\<lambda>q. XXH_readLE64 c m q e) p ((t + n) div 32) (XXH64_init seed)"
      "p2 = p + 32 * ((t + n) div 32)" "s64_total_len st2 = of_nat (t + n)"
      "s64_memsize st2 = 0"
      using XXH64_update_stripes_absorbed [of st1 c m e p q1 seed "t + n" st2 p2]
        f' le g [unfolded f'(2) inp add.assoc]
      by simp_all
    have rest: "input + n - p2 = (t + n) mod 32"
      unfolding g'(2) inp by (simp add: add.assoc minus_mult_div_eq_mod)
    have res: "snd (XXH64_update_endian c st m input n e) =
        (if p2 < input + n
         then st2\<lparr>s64_mem64 := XXH_memcpy (s64_mem64 st2) 0 m p2 ((t + n) mod 32),
                  s64_memsize := of_nat ((t + n) mod 32)\<rparr>
         else st2)"
      using nn False f g rest
      by (simp add: XXH64_update_endian_def Let_def ms del: of_nat_diff)
    have lt: "p2 < input + n \<longleftrightarrow> 0 < (t + n) mod 32"
      by (simp add: rest [symmetric])
    have um: "unat (of_nat ((t + n) mod 32) :: U32) = (t + n) mod 32"
      by (simp add: unat_of_nat_small32)
    show ?thesis
    proof (cases "p2 < input + n")
      case True
      show ?thesis
        unfolding res XXH64_absorbed_def
        using True g' um by (simp add: XXH_memcpy_def)
    next
      case F: False
      with lt have "(t + n) mod 32 = 0" by simp
      with F show ?thesis
        unfolding res XXH64_absorbed_def
        using g' by simp
    qed
  qed
qed

lemma XXH64_reset_absorbed: "XXH64_absorbed c m p seed e 0 (snd (XXH64_reset seed))"
  by (simp add: XXH64_absorbed_def XXH64_reset_def s64_lanes_def XXH64_init_def)

lemma XXH64_digest_absorbed:
  assumes inv: "XXH64_absorbed c m p seed e t st"
    and nn: "p \<noteq> 0" and size: "t < 2 ^ 64"
  shows "XXH64_digest_endian c st e = XXH64_endian_align c m p t seed e a"
proof -
  define H where "H = (if 32 \<le> t
      then XXH64_merge (XXH64_stripes (\<lambda>q. XXH_readLE64 c m q e) p (t div 32) (XXH64_init seed))
      else seed + PRIME64_5)"
  from inv have tot: "s64_total_len st = of_nat t"
    and lanes: "s64_lanes st = XXH64_stripes (\<lambda>q. XXH_readLE64 c m q e) p (t div 32) (XXH64_init seed)"
    and ms: "unat (s64_memsize st) = t mod 32"
    and buf: "\<And>i. i < t mod 32 \<Longrightarrow> s64_mem64 st (0 + i) = m (p + 32 * (t div 32) + i)"
    by (simp_all add: XXH64_absorbed_def)
  have ut: "unat (of_nat t :: U64) = t" using size by (simp add: unat_of_nat)
  then have big: "(32 \<le> (of_nat t :: U64)) \<longleftrightarrow> 32 \<le> t"
    by (simp add: word_le_nat_alt)
  have one: "XXH64_endian_align c m p t seed e a =
      XXH64_finalize_switch c m e a (t mod 32) (p + 32 * (t div 32)) (H + of_nat t)"
  proof (cases "32 \<le> t")
    case True
    then have "XXH64_loop rd p (p + t - 32) v =
        (p + 32 * (t div 32), XXH64_stripes rd p (t div 32) v)" for rd v
      using XXH64_loop_stripes [of p "p + t" rd v] by simp
    with True nn show ?thesis
      by (simp add: XXH64_endian_align_def XXH64_accumulate_canon XXH64_finalize_def H_def)
  next
    case False
    with nn show ?thesis
      by (simp add: XXH64_endian_align_def XXH64_accumulate_canon XXH64_finalize_def H_def)
  qed
  have v3: "s64_v3 st = seed" if "t < 32"
    using that lanes by (simp add: s64_lanes_def XXH64_init_def)
  have dig: "XXH64_digest_endian c st e =
      XXH64_finalize_switch c (s64_mem64 st) e XXH_aligned (t mod 32) 0 (H + of_nat t)"
  proof (cases "32 \<le> t")
    case True
    with lanes tot big ut show ?thesis
      by (simp add: XXH64_digest_endian_def XXH64_digest_acc_def XXH64_finalize_def H_def)
  next
    case False
    with v3 tot big ut show ?thesis
      by (simp add: XXH64_digest_endian_def XXH64_digest_acc_def XXH64_finalize_def H_def)
  qed
  show ?thesis
    unfolding one dig by (rule XXH64_finalize_switch_cong) (rule buf)
qed

text \<open>
  The same in XXH64, for a length that fits \<^verbatim>\<open>size_t\<close> and the 64-bit counter
  \<^verbatim>\<open>total_len\<close>.
\<close>

theorem XXH64_streaming_equals_one_shot:
  assumes "input \<noteq> 0" and "k \<le> len" and "len < 2 ^ 64"
  shows "XXH64_digest c
           (snd (XXH64_update c (snd (XXH64_update c (snd (XXH64_reset seed)) m input k))
              m (input + k) (len - k)))
         = XXH64 c m input len seed"
proof -
  let ?e = "XXH_endian_select c"
  have a0: "XXH64_absorbed c m input seed ?e 0 (snd (XXH64_reset seed))"
    by (rule XXH64_reset_absorbed)
  have a1: "XXH64_absorbed c m input seed ?e (0 + k)
      (snd (XXH64_update c (snd (XXH64_reset seed)) m input k))"
    unfolding XXH64_update_def using a0 _ assms(1) by (rule XXH64_update_absorbed) simp
  have a2: "XXH64_absorbed c m input seed ?e (0 + k + (len - k))
      (snd (XXH64_update c (snd (XXH64_update c (snd (XXH64_reset seed)) m input k))
              m (input + k) (len - k)))"
    unfolding XXH64_update_def [of c _ m "input + k"] using a1 _ _
    by (rule XXH64_update_absorbed) (use assms(1) in simp_all)
  have "0 + k + (len - k) = len" using assms(2) by simp
  with a2 show ?thesis
    by (simp add: XXH64_digest_def XXH64_def XXH64_digest_absorbed [OF _ assms(1) assms(3)])
qed

section \<open>Digest reads only (C7)\<close>

lemma run_state_XXH_load: "run_state (XXH_load field) st = (field st, st)"
  by (simp add: XXH_load_def)

text \<open>
  Run on a state object, each digest procedure returns the value of the functional
  digest and the object it was given.
\<close>

lemma XXH32_digest_st_run: "run_state (XXH32_digest_st c) st = (XXH32_digest c st, st)"
  by (simp add: XXH32_digest_st_def XXH32_digest_endian_st_def XXH32_digest_def
      XXH32_digest_endian_def run_state_XXH_load XXH32_merge_def s32_lanes_def Let_def)

lemma XXH64_digest_st_run: "run_state (XXH64_digest_st c) st = (XXH64_digest c st, st)"
  by (simp add: XXH64_digest_st_def XXH64_digest_endian_st_def XXH64_digest_def
      XXH64_digest_endian_def XXH64_digest_acc_def run_state_XXH_load XXH64_merge_def
      s64_lanes_def Let_def)

lemma XXH32a_digest_st_run: "run_state (XXH32a_digest_st c) st = (XXH32a_digest c st, st)"
  by (auto simp add: XXH32a_digest_st_def XXH32a_digest_endian_st_def XXH32a_digest_def
      XXH32a_digest_endian_def run_state_XXH_load XXH32_merge_def XXH32a_fold_def
      XXH32a_lane_def Let_def split: prod.splits)

text \<open>Finalizing over the local copy of the buffer reads the bytes of the buffer.\<close>

lemma XXH64_finalize_local_copy:
  "XXH64_finalize c (XXH_memcpy mem 0 mem32 0 32) h64 0 len endian align
     = XXH64_finalize c mem32 h64 0 len endian align"
proof -
  have "XXH_memcpy mem 0 mem32 0 32 (0 + i) = mem32 (0 + i)" if "i < len mod 32" for i
  proof -
    from that have "i < 32"
      by (rule less_trans) simp
    then show ?thesis
      by (simp add: XXH_memcpy_def)
  qed
  then show ?thesis
    unfolding XXH64_finalize_def by (rule XXH64_finalize_switch_cong)
qed

lemma XXH64a_digest_st_run:
  "run_state (XXH64a_digest_st c mem32_aligned mem) st = (XXH64a_digest c st, st)"
  by (auto simp add: XXH64a_digest_st_def XXH64a_digest_endian_st_def XXH64a_digest_def
      XXH64a_digest_endian_def XXH64a_digest_acc_def run_state_XXH_load XXH64_merge_def
      XXH64a_lanes_def XXH64a_join_def XXH32a_lane_def XXH64_finalize_local_copy Let_def
      split: prod.splits)

text \<open>
  Claim C7. For each of the four digest procedures and every state object, reachable or
  not: one call returns the object as it received it, so no field is changed; and two
  calls in sequence, with nothing in between, return the same value twice and again
  leave the object as it was. For \<^verbatim>\<open>XXH64a_digest\<close> this holds whether or not the buffer
  is 8-byte aligned and whatever the local array holds, at either call.
\<close>

theorem digest_idempotent:
  "snd (run_state (XXH32_digest_st c) s32) = s32 \<and>
   run_state (do { a \<leftarrow> XXH32_digest_st c; b \<leftarrow> XXH32_digest_st c; State_Monad.return (a, b) }) s32
     = ((XXH32_digest c s32, XXH32_digest c s32), s32) \<and>
   snd (run_state (XXH64_digest_st c) s64) = s64 \<and>
   run_state (do { a \<leftarrow> XXH64_digest_st c; b \<leftarrow> XXH64_digest_st c; State_Monad.return (a, b) }) s64
     = ((XXH64_digest c s64, XXH64_digest c s64), s64) \<and>
   snd (run_state (XXH32a_digest_st c) sa) = sa \<and>
   run_state (do { a \<leftarrow> XXH32a_digest_st c; b \<leftarrow> XXH32a_digest_st c; State_Monad.return (a, b) }) sa
     = ((XXH32a_digest c sa, XXH32a_digest c sa), sa) \<and>
   snd (run_state (XXH64a_digest_st c al mem) sa) = sa \<and>
   run_state (do { a \<leftarrow> XXH64a_digest_st c al mem; b \<leftarrow> XXH64a_digest_st c al' mem';
                   State_Monad.return (a, b) }) sa
     = ((XXH64a_digest c sa, XXH64a_digest c sa), sa)"
  by (simp add: XXH32_digest_st_run XXH64_digest_st_run XXH32a_digest_st_run
      XXH64a_digest_st_run)

section \<open>Streaming against one-shot hashing in the alternative family (C1)\<close>

lemma XXH64a_init_0: "XXH64a_init 0 = XXH32a_init 0"
  by (simp add: XXH64a_init_def XXH32a_init_def XXH32_init_def XXH64a_seeds_def)

lemma XXH64a_reset_0: "XXH64a_reset 0 = XXH32a_reset 0"
  by (simp add: XXH64a_reset_def XXH32a_reset_def XXH64a_init_0 XXH32a_init_def XXH32_init_def)

lemma alt_one_stripe_33:
  "XXH32a_XXH64a_endian_align XXH_default_config (\<lambda>_. 0) (XXH32a_init 0) 64 33
     XXH_littleEndian XXH_aligned
   = (96, (2474017604, 2381891501, 0, 4202841193), (2474017604, 2381891501, 0, 4202841193))"
  by (simp add: XXH32a_XXH64a_endian_align_def XXH32a_loop.simps XXH32a_init_def XXH_eval_simps)

lemma XXH32a_one_shot_33: "XXH32a XXH_default_config (\<lambda>_. 0) 64 33 0 = 2188471001"
proof -
  have "XXH32a XXH_default_config (\<lambda>_. 0) 64 33 0 =
      XXH32_finalize XXH_default_config (\<lambda>_. 0)
        (XXH32_merge (XXH32a_fold
           ((2474017604, 2381891501, 0, 4202841193), (2474017604, 2381891501, 0, 4202841193))) + 33)
        96 1 XXH_littleEndian XXH_aligned"
    using alt_one_stripe_33
    by (simp add: XXH32a_def XXH32a_accumulate_def XXH_endian_select_def XXH_default_config_def)
  also have "\<dots> = 2188471001"
    by (simp add: XXH32a_fold_def XXH_eval_simps)
  finally show ?thesis .
qed

lemma XXH64a_one_shot_33: "XXH64a XXH_default_config (\<lambda>_. 0) 64 33 0 = 6563142118261653803"
proof -
  have "XXH64a XXH_default_config (\<lambda>_. 0) 64 33 0 =
      XXH64_finalize XXH_default_config (\<lambda>_. 0)
        (XXH64_merge (XXH64a_lanes
           ((2474017604, 2381891501, 0, 4202841193), (2474017604, 2381891501, 0, 4202841193))) + 33)
        96 1 XXH_littleEndian XXH_aligned"
    using alt_one_stripe_33
    by (simp add: XXH64a_def XXH64a_accumulate_def XXH64a_init_0 XXH_endian_select_def
        XXH_default_config_def split: prod.splits)
  also have "\<dots> = 6563142118261653803"
    by (simp add: XXH64a_lanes_def XXH64a_join_def XXH_eval_simps)
  finally show ?thesis .
qed

lemma alt_streamed_33:
  "sa_v (snd (XXH32a_update XXH_default_config
        (snd (XXH32a_update XXH_default_config (snd (XXH32a_reset 0)) (\<lambda>_. 0) 64 1))
        (\<lambda>_. 0) 65 32))
     = ((3743759374, 1961634831, 0, 3871708752), (3743759374, 1961634831, 0, 3871708752)) \<and>
   sa_total_len_32 (snd (XXH32a_update XXH_default_config
        (snd (XXH32a_update XXH_default_config (snd (XXH32a_reset 0)) (\<lambda>_. 0) 64 1))
        (\<lambda>_. 0) 65 32)) = 33 \<and>
   sa_large_len (snd (XXH32a_update XXH_default_config
        (snd (XXH32a_update XXH_default_config (snd (XXH32a_reset 0)) (\<lambda>_. 0) 64 1))
        (\<lambda>_. 0) 65 32)) = 1 \<and>
   sa_memsize (snd (XXH32a_update XXH_default_config
        (snd (XXH32a_update XXH_default_config (snd (XXH32a_reset 0)) (\<lambda>_. 0) 64 1))
        (\<lambda>_. 0) 65 32)) = 0"
  by (simp add: XXH32a_update_def XXH32a_XXH64a_update_endian_def XXH32a_update_fill_def
      XXH32a_update_stripes_def XXH32a_update_loop.simps XXH32a_reset_def XXH_memcpy_def
      XXH_eval_simps)

lemma XXH32a_digest_two_stripes:
  assumes "sa_v st = ((3743759374, 1961634831, 0, 3871708752), (3743759374, 1961634831, 0, 3871708752))"
    and "sa_total_len_32 st = 33" and "sa_large_len st = 1" and "sa_memsize st = 0"
  shows "XXH32a_digest XXH_default_config st = 1645892541"
  by (simp add: XXH32a_digest_def XXH32a_digest_endian_def assms XXH32a_fold_def XXH_eval_simps)

lemma XXH64a_digest_two_stripes:
  assumes "sa_v st = ((3743759374, 1961634831, 0, 3871708752), (3743759374, 1961634831, 0, 3871708752))"
    and "sa_total_len_32 st = 33" and "sa_large_len st = 1" and "sa_memsize st = 0"
  shows "XXH64a_digest XXH_default_config st = 11836763657136393258"
  by (simp add: XXH64a_digest_def XXH64a_digest_endian_def XXH64a_digest_acc_def assms
      XXH64a_lanes_def XXH64a_join_def XXH_eval_simps)

text \<open>
  Claim C1. For every byte sequence \<open>B\<close>, seed \<open>S\<close> and split point \<open>k\<close>, reset with \<open>S\<close>,
  update with \<open>B[0:k]\<close>, update with \<open>B[k:]\<close> and digest give the one-shot hash of \<open>B\<close>
  with seed \<open>S\<close>, in each of XXH32, XXH64, XXH32a and XXH64a. The two theorems above
  prove this for XXH32 and XXH64. The code of the alternative family, whose two widths
  share one update function, does not do it; the theorem below evaluates XXH32a and
  XXH64a at a failing input. The buffer \<open>B\<close> is 33 zero bytes at address 64
  (memory is zero everywhere), the seed is 0 and the split point is \<open>k = 1\<close>. The first
  update buffers one byte. The second, of length 32, completes the buffered stripe with 31
  bytes and then, because its test is \<^verbatim>\<open>len >= 32\<close> on the whole length and not on what is
  left, runs the stripe loop once more over 32 bytes from address 96, of which only the
  byte at 96 belongs to \<open>B\<close>. The state ends with two stripes consumed and no pending
  byte, and the digest differs from the one-shot hash of \<open>B\<close>, which consumes one stripe
  and finalizes over one byte: 1645892541 against 2188471001 in XXH32a,
  11836763657136393258 against 6563142118261653803 in XXH64a.
\<close>

theorem XXH32a_XXH64a_streaming_differs_from_one_shot:
  "sa_memsize (snd (XXH32a_update XXH_default_config
        (snd (XXH32a_update XXH_default_config (snd (XXH32a_reset 0)) (\<lambda>_. 0) 64 1))
        (\<lambda>_. 0) (64 + 1) (33 - 1))) = 0 \<and>
   XXH32a_digest XXH_default_config
     (snd (XXH32a_update XXH_default_config
        (snd (XXH32a_update XXH_default_config (snd (XXH32a_reset 0)) (\<lambda>_. 0) 64 1))
        (\<lambda>_. 0) (64 + 1) (33 - 1)))
     \<noteq> XXH32a XXH_default_config (\<lambda>_. 0) 64 33 0 \<and>
   XXH64a_digest XXH_default_config
     (snd (XXH64a_update XXH_default_config
        (snd (XXH64a_update XXH_default_config (snd (XXH64a_reset 0)) (\<lambda>_. 0) 64 1))
        (\<lambda>_. 0) (64 + 1) (33 - 1)))
     \<noteq> XXH64a XXH_default_config (\<lambda>_. 0) 64 33 0"
proof -
  let ?st = "snd (XXH32a_update XXH_default_config
        (snd (XXH32a_update XXH_default_config (snd (XXH32a_reset 0)) (\<lambda>_. 0) 64 1))
        (\<lambda>_. 0) 65 32)"
  from alt_streamed_33 have f:
    "sa_v ?st = ((3743759374, 1961634831, 0, 3871708752), (3743759374, 1961634831, 0, 3871708752))"
    "sa_total_len_32 ?st = 33" "sa_large_len ?st = 1" "sa_memsize ?st = 0"
    by blast+
  have d32: "XXH32a_digest XXH_default_config ?st = 1645892541"
    using f by (rule XXH32a_digest_two_stripes)
  have d64: "XXH64a_digest XXH_default_config ?st = 11836763657136393258"
    using f by (rule XXH64a_digest_two_stripes)
  have u: "XXH64a_update XXH_default_config = XXH32a_update XXH_default_config"
    by (intro ext) (simp add: XXH64a_update_def)
  have n: "(64::nat) + 1 = 65" "(33::nat) - 1 = 32" by simp_all
  show ?thesis
    unfolding u XXH64a_reset_0 n d32 d64 XXH32a_one_shot_33 XXH64a_one_shot_33 f(4) by simp
qed

end
